(* ===== verification/Steps.thy ===== *)
theory Steps
  imports Prelude
begin

text \<open>
  Steps of the state monad, shared by the two services: reading and changing the state, \<open>for\<close> loops,
  and two ways to say how a step may change the state. \<open>keeps f m\<close>: the step \<open>m\<close> does not change the
  part \<open>f\<close> of the state. \<open>step_rel R m\<close>: the states before and after \<open>m\<close> are related by \<open>R\<close>. Both
  compose along the monad's operations; for \<open>step_rel\<close> this needs that \<open>R\<close> is a preorder, which the
  locale \<open>step_preorder\<close> states.
\<close>

named_theorems keeps \<open>state components an operation leaves alone\<close>

abbreviation ret :: "'a \<Rightarrow> ('s, 'a) state" where
  "ret \<equiv> State_Monad.return"

definition gets :: "('s \<Rightarrow> 'a) \<Rightarrow> ('s, 'a) state" where
  "gets f = State (\<lambda>s. (f s, s))"

definition modify :: "('s \<Rightarrow> 's) \<Rightarrow> ('s, unit) state" where
  "modify f = State (\<lambda>s. ((), f s))"

lemma run_gets [simp, run_simps]: "run_state (gets f) s = (f s, s)"
  by (simp add: gets_def)

lemma run_modify [simp, run_simps]: "run_state (modify f) s = ((), f s)"
  by (simp add: modify_def)

lemma run_unit:
  obtains t where "run_state m s = ((), t)"
  by (cases "run_state m s") simp

text \<open>A \<open>for\<close> loop whose body only changes the state.\<close>

fun for_each :: "('a \<Rightarrow> ('s, unit) state) \<Rightarrow> 'a list \<Rightarrow> ('s, unit) state" where
  "for_each f [] = ret ()"
| "for_each f (x # xs) = do { f x; for_each f xs }"

section \<open>What a step leaves alone\<close>

definition keeps :: "('s \<Rightarrow> 'b) \<Rightarrow> ('s, 'a) state \<Rightarrow> bool" where
  "keeps f m \<longleftrightarrow> (\<forall>s. f (snd (run_state m s)) = f s)"

lemma keepsD: "keeps f m \<Longrightarrow> run_state m s = (x, s') \<Longrightarrow> f s' = f s"
  by (metis keeps_def snd_conv)

lemma keeps_ret [keeps, simp]: "keeps f (ret x)"
  by (simp add: keeps_def)

lemma keeps_gets [keeps, simp]: "keeps f (gets g)"
  by (simp add: keeps_def)

lemma keeps_modify: "(\<And>s. f (g s) = f s) \<Longrightarrow> keeps f (modify g)"
  by (simp add: keeps_def)

lemma keeps_bind [keeps]:
  assumes "keeps f m" "\<And>x. keeps f (k x)"
  shows "keeps f (State_Monad.bind m k)"
  unfolding keeps_def
proof
  fix s
  obtain x s1 where m: "run_state m s = (x, s1)" by fastforce
  have "f s1 = f s" using assms(1) m by (rule keepsD)
  moreover have "f (snd (run_state (k x) s1)) = f s1" using assms(2) by (simp add: keeps_def)
  ultimately show "f (snd (run_state (State_Monad.bind m k) s)) = f s" by (simp add: m)
qed

lemma keeps_if [keeps]: "keeps f a \<Longrightarrow> keeps f b \<Longrightarrow> keeps f (if c then a else b)"
  by simp

lemma keeps_option [keeps]:
  "keeps f a \<Longrightarrow> (\<And>x. keeps f (b x)) \<Longrightarrow> keeps f (case v of None \<Rightarrow> a | Some x \<Rightarrow> b x)"
  by (cases v) auto

lemma keeps_sum [keeps]:
  "(\<And>x. keeps f (a x)) \<Longrightarrow> (\<And>x. keeps f (b x)) \<Longrightarrow> keeps f (case v of Inl x \<Rightarrow> a x | Inr x \<Rightarrow> b x)"
  by (cases v) auto

lemma keeps_prod [keeps]: "(\<And>x y. keeps f (a x y)) \<Longrightarrow> keeps f (case v of (x, y) \<Rightarrow> a x y)"
  by (cases v) auto

lemma keeps_list [keeps]:
  "keeps f a \<Longrightarrow> (\<And>x xs. keeps f (b x xs)) \<Longrightarrow> keeps f (case v of [] \<Rightarrow> a | x # xs \<Rightarrow> b x xs)"
  by (cases v) auto

lemma keeps_for_each: "(\<And>x. keeps f (g x)) \<Longrightarrow> keeps f (for_each g xs)"
  by (induction xs) (auto intro!: keeps)

section \<open>Relations between the state before and after\<close>

text \<open>
  \<open>step_rel R m\<close>: the step \<open>m\<close> relates the states before and after it by \<open>R\<close>. For a preorder \<open>R\<close>
  (a set that only grows, a row that is never removed) this composes like the two predicates above.
\<close>

definition step_rel :: "('s \<Rightarrow> 's \<Rightarrow> bool) \<Rightarrow> ('s, 'a) state \<Rightarrow> bool" where
  "step_rel R m \<longleftrightarrow> (\<forall>s. R s (snd (run_state m s)))"

lemma step_relD: "step_rel R m \<Longrightarrow> run_state m s = (x, s') \<Longrightarrow> R s s'"
  by (metis step_rel_def snd_conv)

lemma step_rel_modify: "(\<And>s. R s (g s)) \<Longrightarrow> step_rel R (modify g)"
  by (simp add: step_rel_def)

locale step_preorder =
  fixes R :: "'s \<Rightarrow> 's \<Rightarrow> bool"
  assumes refl: "R s s"
    and trans: "R s t \<Longrightarrow> R t u \<Longrightarrow> R s u"
begin

lemma ret: "step_rel R (ret x)"
  by (simp add: step_rel_def refl)

lemma gets: "step_rel R (gets f)"
  by (simp add: step_rel_def refl)

lemma bind:
  assumes "step_rel R m" "\<And>x. step_rel R (k x)"
  shows "step_rel R (State_Monad.bind m k)"
  unfolding step_rel_def
proof
  fix s
  obtain x s1 where m: "run_state m s = (x, s1)" by fastforce
  have "R s s1" using assms(1) m by (rule step_relD)
  moreover have "R s1 (snd (run_state (k x) s1))" using assms(2) by (simp add: step_rel_def)
  ultimately show "R s (snd (run_state (State_Monad.bind m k) s))" by (simp add: m trans)
qed

lemma cond: "step_rel R a \<Longrightarrow> step_rel R b \<Longrightarrow> step_rel R (if c then a else b)"
  by simp

lemma option: "step_rel R a \<Longrightarrow> (\<And>x. step_rel R (b x)) \<Longrightarrow>
    step_rel R (case v of None \<Rightarrow> a | Some x \<Rightarrow> b x)"
  by (cases v) auto

lemma sum: "(\<And>x. step_rel R (a x)) \<Longrightarrow> (\<And>x. step_rel R (b x)) \<Longrightarrow>
    step_rel R (case v of Inl x \<Rightarrow> a x | Inr x \<Rightarrow> b x)"
  by (cases v) auto

lemma prod: "(\<And>x y. step_rel R (a x y)) \<Longrightarrow> step_rel R (case v of (x, y) \<Rightarrow> a x y)"
  by (cases v) auto

lemma outcome: "(\<And>x. step_rel R (a x)) \<Longrightarrow> step_rel R b \<Longrightarrow>
    step_rel R (case v of Ret x \<Rightarrow> a x | Panic \<Rightarrow> b)"
  by (cases v) auto

lemma for_each: "(\<And>x. x \<in> set xs \<Longrightarrow> step_rel R (f x)) \<Longrightarrow> step_rel R (for_each f xs)"
  by (induction xs) (auto intro!: ret bind)

lemmas rules = ret gets bind cond option sum prod outcome

text \<open>A step that leaves alone the part of the state the relation looks at.\<close>

lemma from_keeps:
  assumes "\<And>s t. f s = f t \<Longrightarrow> R s t" "keeps f m"
  shows "step_rel R m"
  using assms by (simp add: step_rel_def keeps_def)

lemma reachable:
  assumes "S\<^sup>*\<^sup>* s t" "\<And>s t. S s t \<Longrightarrow> R s t"
  shows "R s t"
  using assms(1) by induction (auto intro: refl trans assms(2))

end

lemma keeps_outcome [keeps]:
  "(\<And>x. keeps f (a x)) \<Longrightarrow> keeps f b \<Longrightarrow> keeps f (case v of Ret x \<Rightarrow> a x | Panic \<Rightarrow> b)"
  by (cases v) auto

end
