(* ===== verification/Numerals.thy ===== *)
theory Numerals
  imports Prelude
begin

text \<open>
  Numbers as text: the parts of the Rust standard library that print integers (\<open>{}\<close>, \<open>{:x}\<close>) and
  parse them (\<open>from_str_radix\<close>, \<open>str::parse\<close>), with the error kinds of \<open>ParseIntError\<close>, and the
  round trip between the two. A parser stops at the first character that is no digit or at the
  first digit that makes the value too large for the type, as the library's loop does.
\<close>

datatype ParseIntError = Empty | InvalidDigit | PosOverflow

section \<open>Digits\<close>

definition digit_char :: "nat \<Rightarrow> char" where
  "digit_char d = (if d < 10 then char_of (48 + d) else char_of (87 + d))"

definition digit_val :: "nat \<Rightarrow> char \<Rightarrow> nat option" where
  "digit_val radix c =
     (let n = of_char c :: nat;
          v = (if 48 \<le> n \<and> n \<le> 57 then n - 48
               else if 97 \<le> n \<and> n \<le> 122 then n - 87
               else if 65 \<le> n \<and> n \<le> 90 then n - 55
               else 36)
      in if v < radix then Some v else None)"

lemma digit_val_char:
  assumes "d < radix" and "radix \<le> 16"
  shows "digit_val radix (digit_char d) = Some d"
  using assms by (simp add: digit_val_def digit_char_def of_char_of Let_def)

section \<open>Printing\<close>

fun show_base :: "nat \<Rightarrow> nat \<Rightarrow> string" where
  "show_base b n =
     (if n < b \<or> b < 2 then [digit_char n] else show_base b (n div b) @ [digit_char (n mod b)])"

declare show_base.simps [simp del]

abbreviation show_nat :: "nat \<Rightarrow> string" where
  "show_nat n \<equiv> show_base 10 n"

abbreviation show_hex :: "nat \<Rightarrow> string" where
  "show_hex n \<equiv> show_base 16 n"

definition show_int :: "int \<Rightarrow> string" where
  "show_int i = (if i < 0 then CHR ''-'' # show_nat (nat (- i)) else show_nat (nat i))"

section \<open>Parsing\<close>

fun radix_loop :: "nat \<Rightarrow> nat \<Rightarrow> nat \<Rightarrow> string \<Rightarrow> ParseIntError + nat" where
  "radix_loop radix bound acc [] = Inr acc"
| "radix_loop radix bound acc (c # cs) =
     (case digit_val radix c of
        None \<Rightarrow> Inl InvalidDigit
      | Some d \<Rightarrow>
          if acc * radix + d < bound then radix_loop radix bound (acc * radix + d) cs
          else Inl PosOverflow)"

text \<open>A leading plus sign is accepted, a lone sign is not, and a minus sign is no digit.\<close>

definition parse_radix :: "nat \<Rightarrow> nat \<Rightarrow> string \<Rightarrow> ParseIntError + nat" where
  "parse_radix radix bound s =
     (case s of
        [] \<Rightarrow> Inl Empty
      | [c] \<Rightarrow> radix_loop radix bound 0 s
      | c # cs \<Rightarrow> radix_loop radix bound 0 (if c = CHR ''+'' then cs else s))"

definition from_str_radix :: "nat \<Rightarrow> string \<Rightarrow> ParseIntError + 'a::len word" where
  "from_str_radix radix s = map_sum id of_nat (parse_radix radix (2 ^ LENGTH('a)) s)"

definition ok :: "'e + 'a \<Rightarrow> 'a option" where
  "ok r = (case r of Inl _ \<Rightarrow> None | Inr x \<Rightarrow> Some x)"

lemma ok_simps [simp]: "ok (Inl e) = None" "ok (Inr x) = Some x"
  by (simp_all add: ok_def)

abbreviation parse_u64 :: "string \<Rightarrow> u64 option" where
  "parse_u64 s \<equiv> ok (from_str_radix 10 s)"

section \<open>Round trip\<close>

lemma radix_loop_append:
  "radix_loop r b acc (s @ t) =
     (case radix_loop r b acc s of Inl e \<Rightarrow> Inl e | Inr v \<Rightarrow> radix_loop r b v t)"
  by (induction s arbitrary: acc) (auto split: option.split)

lemma radix_loop_show_base:
  assumes "2 \<le> r" "r \<le> 16" "n < b"
  shows "radix_loop r b 0 (show_base r n) = Inr n"
  using assms(3)
proof (induction n rule: less_induct)
  case (less n)
  show ?case
  proof (cases "n < r")
    case True
    with assms less.prems show ?thesis
      by (subst show_base.simps) (simp add: digit_val_char)
  next
    case False
    then have div: "n div r < n" using assms by simp
    with less.prems have "radix_loop r b 0 (show_base r (n div r)) = Inr (n div r)"
      by (intro less.IH) auto
    moreover have "n mod r < r" using assms by simp
    ultimately show ?thesis
      using False assms less.prems
      by (subst show_base.simps) (simp add: radix_loop_append digit_val_char)
  qed
qed

lemma show_base_nonempty [simp]: "show_base b n \<noteq> []"
  by (subst show_base.simps) simp

lemma digit_char_not_special:
  "d < 16 \<Longrightarrow> digit_char d \<noteq> CHR ''+'' \<and> digit_char d \<noteq> CHR ''-'' \<and> \<not> is_space (digit_char d)
     \<and> digit_char d \<noteq> CHR ''x'' \<and> digit_char d \<noteq> CHR '',''"
proof -
  assume "d < 16"
  then have "(of_char (digit_char d) :: nat) \<in> {48..57} \<union> {97..102}"
    by (auto simp: digit_char_def of_char_of)
  then show ?thesis
    by (auto simp: is_space_def Let_def)
qed

lemma show_base_chars:
  assumes "2 \<le> r" "r \<le> 16" "c \<in> set (show_base r n)"
  shows "\<exists>d < r. c = digit_char d"
  using assms(3)
proof (induction n rule: less_induct)
  case (less n)
  show ?case
  proof (cases "n < r")
    case True
    with less.prems assms show ?thesis by (subst (asm) show_base.simps) auto
  next
    case False
    with less.prems assms have "c \<in> set (show_base r (n div r)) \<or> c = digit_char (n mod r)"
      by (subst (asm) show_base.simps) auto
    moreover have "n div r < n" "n mod r < r" using False assms by auto
    ultimately show ?thesis using less.IH by blast
  qed
qed

lemma show_base_no_special:
  assumes "2 \<le> r" "r \<le> 16" "c \<in> set (show_base r n)"
  shows "c \<noteq> CHR ''+'' \<and> c \<noteq> CHR ''-'' \<and> \<not> is_space c \<and> c \<noteq> CHR ''x'' \<and> c \<noteq> CHR '',''"
proof -
  from show_base_chars [OF assms] obtain d where "d < r" "c = digit_char d"
    by blast
  moreover from this assms(2) have "d < 16" by simp
  ultimately show ?thesis using digit_char_not_special [of d] by simp
qed

lemma parse_radix_show_base:
  assumes "2 \<le> r" "r \<le> 16" "n < b"
  shows "parse_radix r b (show_base r n) = Inr n"
proof (cases "show_base r n")
  case Nil
  then show ?thesis by simp
next
  case (Cons c cs)
  with show_base_no_special [OF assms(1,2), of c n] have "c \<noteq> CHR ''+''" by simp
  then show ?thesis
    using radix_loop_show_base [OF assms] Cons by (simp add: parse_radix_def split: list.split)
qed

lemma from_str_radix_show [simp]:
  assumes "2 \<le> r" "r \<le> 16"
  shows "from_str_radix r (show_base r (unat x)) = Inr (x :: 'a::len word)"
  using assms by (simp add: from_str_radix_def parse_radix_show_base unat_bound)

end
