(* ===== verification/Encoding.thy ===== *)
theory Encoding
  imports Prelude Numerals
begin

text \<open>
  Byte-level encodings of the treasury service: hexadecimal text, RLP, the decoding of event
  payloads (\<open>services/treasury/src/eth/encoding.rs\<close>), the body of an EIP-1559 transaction
  (\<open>eth/tx.rs\<close>) and the ABI call data (\<open>domain/abi.rs\<close>). The decoders that appear in the properties
  (\<open>rlp_item\<close>, \<open>abi_two_bytes\<close>) are the inverse reading of the Ethereum formats; the service has
  only the encoders.
\<close>

section \<open>Big-endian numbers\<close>

lemma unat_byte: "n < 256 \<Longrightarrow> unat (of_nat n :: byte) = n"
  by (simp add: unat_of_nat)

fun be_bytes :: "nat \<Rightarrow> nat \<Rightarrow> byte list" where
  "be_bytes 0 v = []"
| "be_bytes (Suc n) v = be_bytes n (v div 256) @ [of_nat v]"

definition be_value :: "byte list \<Rightarrow> nat" where
  "be_value bs = foldl (\<lambda>a b. a * 256 + unat b) 0 bs"

definition u64_to_be_bytes :: "u64 \<Rightarrow> byte list" where
  "u64_to_be_bytes x = be_bytes 8 (unat x)"

definition u256_to_be_bytes :: "u256 \<Rightarrow> byte list" where
  "u256_to_be_bytes x = be_bytes 32 (unat x)"

definition u64_from_be_bytes :: "byte list \<Rightarrow> u64" where
  "u64_from_be_bytes bs = of_nat (be_value bs)"

definition u256_from_be_bytes :: "byte list \<Rightarrow> u256" where
  "u256_from_be_bytes bs = of_nat (be_value bs)"

lemma length_be_bytes [simp]: "length (be_bytes n v) = n"
  by (induction n arbitrary: v) auto

lemma be_value_simps [simp]: "be_value [] = 0" "be_value (bs @ [b]) = be_value bs * 256 + unat b"
  by (simp_all add: be_value_def)

lemma be_value_be_bytes: "be_value (be_bytes n v) = v mod 256 ^ n"
proof (induction n arbitrary: v)
  case 0
  show ?case by simp
next
  case (Suc n)
  have "v mod 256 ^ Suc n = (v div 256) mod 256 ^ n * 256 + v mod 256"
    by (simp add: mod_mult2_eq mult.commute)
  with Suc show ?case by (simp add: unat_of_nat)
qed

lemma be_bytes_be_value: "be_bytes (length bs) (be_value bs) = bs"
proof (induction bs rule: rev_induct)
  case Nil
  show ?case by simp
next
  case (snoc b bs)
  have "unat b < 256" using unat_bound [of b] by simp
  then have "(be_value bs * 256 + unat b) div 256 = be_value bs" by simp
  moreover have "(of_nat (be_value bs * 256 + unat b) :: byte) = b"
  proof -
    have "(256 :: byte) = 0" by simp
    then show ?thesis
      by (simp only: of_nat_add of_nat_mult of_nat_numeral mult_zero_right add_0) simp
  qed
  ultimately show ?case using snoc by simp
qed

lemma be_value_bound: "be_value bs < 256 ^ length bs"
  using be_value_be_bytes [of "length bs" "be_value bs"] by (simp add: be_bytes_be_value) (metis mod_less_divisor zero_less_numeral zero_less_power)

lemma u64_be_roundtrip [simp]: "u64_from_be_bytes (u64_to_be_bytes x) = x"
  using unat_bound [of x]
  by (simp add: u64_from_be_bytes_def u64_to_be_bytes_def be_value_be_bytes)

lemma u256_be_roundtrip [simp]: "u256_from_be_bytes (u256_to_be_bytes x) = x"
  using unat_bound [of x]
  by (simp add: u256_from_be_bytes_def u256_to_be_bytes_def be_value_be_bytes)

lemma length_to_be_bytes [simp]:
  "length (u64_to_be_bytes x) = 8" "length (u256_to_be_bytes y) = 32"
  by (simp_all add: u64_to_be_bytes_def u256_to_be_bytes_def)

section \<open>Hexadecimal text\<close>

fun decode_pairs :: "string \<Rightarrow> byte list option" where
  "decode_pairs (a # b # s) =
     (case ok (from_str_radix 16 [a, b]) of
        None \<Rightarrow> None
      | Some x \<Rightarrow> map_option (Cons x) (decode_pairs s))"
| "decode_pairs s = Some []"

definition decode_hex :: "string \<Rightarrow> byte list option" where
  "decode_hex s0 =
     (let s = (case strip_prefix ''0x'' s0 of Some r \<Rightarrow> r | None \<Rightarrow> s0)
      in if length s mod 2 \<noteq> 0 then None else decode_pairs s)"

definition hex_byte :: "byte \<Rightarrow> string" where
  "hex_byte b = [digit_char (unat b div 16), digit_char (unat b mod 16)]"

definition bytes_to_hex :: "byte list \<Rightarrow> string" where
  "bytes_to_hex bs = concat (map hex_byte bs)"

definition hex_0x :: "byte list \<Rightarrow> string" where
  "hex_0x bs = ''0x'' @ bytes_to_hex bs"

definition encode_balance_of :: "byte list \<Rightarrow> string \<Rightarrow> string option" where
  "encode_balance_of selector address =
     (let addr_hex = (case strip_prefix ''0x'' address of Some r \<Rightarrow> r | None \<Rightarrow> address) in
      case decode_hex addr_hex of
        None \<Rightarrow> None
      | Some addr_bytes \<Rightarrow>
          if length addr_bytes \<noteq> 20 then None
          else Some (hex_0x (selector @ replicate 12 0 @ addr_bytes)))"

lemma decode_hex_byte: "ok (from_str_radix 16 (hex_byte b)) = Some (b :: byte)"
proof -
  have lt: "unat b div 16 < 16" "unat b mod 16 < 16"
    using unat_bound [of b] by auto
  have "unat b < 256" using unat_bound [of b] by simp
  then have "radix_loop 16 256 0 (hex_byte b) = Inr (unat b)"
    using lt by (simp add: hex_byte_def digit_val_char)
  moreover have "digit_char (unat b div 16) \<noteq> CHR ''+''"
    using digit_char_not_special [OF lt(1)] by simp
  ultimately show ?thesis
    by (simp add: from_str_radix_def parse_radix_def hex_byte_def)
qed

lemma decode_pairs_bytes_to_hex [simp]: "decode_pairs (bytes_to_hex bs) = Some bs"
proof (induction bs)
  case Nil
  show ?case by (simp add: bytes_to_hex_def)
next
  case (Cons b bs)
  then show ?case
    using decode_hex_byte [of b] by (simp add: bytes_to_hex_def hex_byte_def)
qed

lemma length_bytes_to_hex [simp]: "length (bytes_to_hex bs) = 2 * length bs"
  by (induction bs) (auto simp: bytes_to_hex_def hex_byte_def)

lemma strip_prefix_hex_0x [simp]: "strip_prefix ''0x'' (CHR ''0'' # CHR ''x'' # s) = Some s"
  by (simp add: strip_prefix_def starts_with_def)

lemma strip_prefix_bytes_to_hex [simp]: "strip_prefix ''0x'' (bytes_to_hex bs) = None"
proof (cases bs)
  case (Cons b bs')
  have "digit_char (unat b mod 16) \<noteq> CHR ''x''"
    using digit_char_not_special [of "unat b mod 16"] by simp
  then show ?thesis
    by (simp add: Cons bytes_to_hex_def hex_byte_def strip_prefix_def starts_with_def)
qed (simp add: bytes_to_hex_def strip_prefix_def starts_with_def)

lemma decode_hex_bytes_to_hex [simp]: "decode_hex (bytes_to_hex bs) = Some bs"
  by (simp add: decode_hex_def)

lemma decode_hex_hex_0x [simp]: "decode_hex (hex_0x bs) = Some bs"
  by (simp add: decode_hex_def hex_0x_def)

section \<open>RLP\<close>

text \<open>The position of the first non-zero byte; the encoders drop what stands before it.\<close>

definition trim_be :: "byte list \<Rightarrow> byte list" where
  "trim_be bs = dropWhile (\<lambda>b. b = 0) bs"

definition rlp_length_prefix :: "nat \<Rightarrow> nat \<Rightarrow> nat \<Rightarrow> byte list" where
  "rlp_length_prefix short long len =
     (if len \<le> 55 then [of_nat (short + len)]
      else (let lm = trim_be (be_bytes 8 len) in of_nat (long + length lm) # lm))"

definition rlp_encode_bytes :: "byte list \<Rightarrow> byte list" where
  "rlp_encode_bytes data =
     (if length data = 1 \<and> hd data < 0x80 then data
      else rlp_length_prefix 0x80 0xb7 (length data) @ data)"

definition rlp_encode_uint :: "u64 \<Rightarrow> byte list" where
  "rlp_encode_uint val =
     (if val = 0 then [0x80] else rlp_encode_bytes (trim_be (u64_to_be_bytes val)))"

definition rlp_encode_list :: "byte list list \<Rightarrow> byte list" where
  "rlp_encode_list items =
     (let payload = concat items in rlp_length_prefix 0xc0 0xf7 (length payload) @ payload)"

definition u256_to_trimmed_be :: "u256 \<Rightarrow> byte list" where
  "u256_to_trimmed_be val = (if val = 0 then [] else trim_be (u256_to_be_bytes val))"

definition build_tx_rlp ::
  "u64 \<Rightarrow> u64 \<Rightarrow> u64 \<Rightarrow> u64 \<Rightarrow> u64 \<Rightarrow> byte list \<Rightarrow> byte list \<Rightarrow> byte list \<Rightarrow> byte list" where
  "build_tx_rlp chain_id nonce max_priority_fee max_fee gas_limit to value data =
     rlp_encode_list
       [rlp_encode_uint chain_id, rlp_encode_uint nonce, rlp_encode_uint max_priority_fee,
        rlp_encode_uint max_fee, rlp_encode_uint gas_limit, rlp_encode_bytes to,
        rlp_encode_bytes value, rlp_encode_bytes data, rlp_encode_list []]"

section \<open>Event payloads\<close>

text \<open>\<open>std::str::from_utf8\<close>: the well-formed byte sequences.\<close>

definition is_cont :: "byte \<Rightarrow> bool" where
  "is_cont b = (0x80 \<le> b \<and> b \<le> 0xBF)"

fun utf8_valid :: "byte list \<Rightarrow> bool" where
  "utf8_valid [] = True"
| "utf8_valid [a] = (a < 0x80)"
| "utf8_valid [a, b] =
     (if a < 0x80 then utf8_valid [b] else 0xC2 \<le> a \<and> a \<le> 0xDF \<and> is_cont b)"
| "utf8_valid [a, b, c] =
     (if a < 0x80 then utf8_valid [b, c]
      else if 0xC2 \<le> a \<and> a \<le> 0xDF then is_cont b \<and> utf8_valid [c]
      else is_cont b \<and> is_cont c \<and>
        (a = 0xE0 \<and> 0xA0 \<le> b \<or> a = 0xED \<and> b \<le> 0x9F \<or> 0xE1 \<le> a \<and> a \<le> 0xEF \<and> a \<noteq> 0xED))"
| "utf8_valid (a # b # c # d # r) =
     (if a < 0x80 then utf8_valid (b # c # d # r)
      else if 0xC2 \<le> a \<and> a \<le> 0xDF then is_cont b \<and> utf8_valid (c # d # r)
      else if 0xE0 \<le> a \<and> a \<le> 0xEF then
        is_cont b \<and> is_cont c \<and>
        (a = 0xE0 \<and> 0xA0 \<le> b \<or> a = 0xED \<and> b \<le> 0x9F \<or> 0xE1 \<le> a \<and> a \<noteq> 0xED) \<and>
        utf8_valid (d # r)
      else
        is_cont b \<and> is_cont c \<and> is_cont d \<and>
        (a = 0xF0 \<and> 0x90 \<le> b \<or> a = 0xF4 \<and> b \<le> 0x8F \<or> 0xF1 \<le> a \<and> a \<le> 0xF3) \<and>
        utf8_valid r)"

definition text_of :: "byte list \<Rightarrow> string" where
  "text_of bs = map (\<lambda>b. char_of (unat b)) bs"

definition bytes_of :: "string \<Rightarrow> byte list" where
  "bytes_of s = map (\<lambda>c. of_nat (of_char c)) s"

fun split_on :: "char \<Rightarrow> string \<Rightarrow> string list" where
  "split_on sep [] = [[]]"
| "split_on sep (c # cs) =
     (if c = sep then [] # split_on sep cs
      else (case split_on sep cs of [] \<Rightarrow> [[c]] | w # ws \<Rightarrow> (c # w) # ws))"

text \<open>A slice \<open>data[a..b]\<close> with \<open>usize\<close> bounds panics when it is reversed or out of range.\<close>

definition slice_checked :: "u64 \<Rightarrow> u64 \<Rightarrow> 'a list \<Rightarrow> 'a list outcome" where
  "slice_checked a b xs =
     (if a \<le> b \<and> unat b \<le> length xs then Ret (slice (unat a) (unat b) xs) else Panic)"

text \<open>
  White space around a chain id is trimmed when it is ASCII; the payload is otherwise decoded as
  the code does, the \<open>usize\<close> sums wrapping.
\<close>

definition parse_chains_csv :: "string \<Rightarrow> u64 set" where
  "parse_chains_csv csv = set (filter_map (\<lambda>s. parse_u64 (trim s)) (split_on CHR '','' csv))"

definition decode_active_chains_from_event :: "string \<Rightarrow> u64 set option outcome" where
  "decode_active_chains_from_event hex_data =
     (case decode_hex hex_data of
        None \<Rightarrow> Ret None
      | Some data \<Rightarrow>
          if length data < 192 then Ret None
          else
            (let ptr = u64_from_be_bytes (slice 120 128 data) in
             if of_nat (length data) < ptr + 32 then Ret None
             else
               (case slice_checked (ptr + 24) (ptr + 32) data of
                  Panic \<Rightarrow> Panic
                | Ret lb \<Rightarrow>
                    (let len = u64_from_be_bytes lb in
                     if of_nat (length data) < ptr + 32 + len then Ret None
                     else
                       (case slice_checked (ptr + 32) (ptr + 32 + len) data of
                          Panic \<Rightarrow> Panic
                        | Ret body \<Rightarrow>
                            Ret (if utf8_valid body
                                 then Some (parse_chains_csv (text_of body)) else None))))))"

definition decode_indexed_u64_topic :: "string \<Rightarrow> u64 option" where
  "decode_indexed_u64_topic topic =
     (case decode_hex topic of
        None \<Rightarrow> None
      | Some data \<Rightarrow>
          if length data \<noteq> 32 then None else Some (u64_from_be_bytes (slice 24 32 data)))"

section \<open>ABI call data (abi.rs)\<close>

definition encode_release_hot_path :: "byte list \<Rightarrow> byte list \<Rightarrow> u256 \<Rightarrow> byte list \<Rightarrow> byte list" where
  "encode_release_hot_path selector recipient amount event_id =
     selector @ replicate 12 0 @ recipient @ u256_to_be_bytes amount @ event_id"

definition encode_rebalance :: "byte list \<Rightarrow> u64 \<Rightarrow> u256 \<Rightarrow> byte list" where
  "encode_rebalance selector dest_chain_id amount =
     selector @ replicate 24 0 @ u64_to_be_bytes dest_chain_id @ u256_to_be_bytes amount"

definition encode_bridge_reserve :: "byte list \<Rightarrow> u64 \<Rightarrow> u256 \<Rightarrow> byte list" where
  "encode_bridge_reserve selector dest_chain_id amount =
     selector @ replicate 24 0 @ u64_to_be_bytes dest_chain_id @ u256_to_be_bytes amount"

definition pad_len :: "nat \<Rightarrow> nat" where
  "pad_len n = (if n mod 32 = 0 then 0 else 32 - n mod 32)"

definition write_u256 :: "u64 \<Rightarrow> byte list" where
  "write_u256 val = replicate 24 0 @ u64_to_be_bytes val"

definition encode_bridge_in :: "byte list \<Rightarrow> byte list \<Rightarrow> byte list \<Rightarrow> byte list" where
  "encode_bridge_in selector message attestation =
     (let msg_pad = pad_len (length message);
          msg_offset = 64 :: u64;
          att_offset = msg_offset + 32 + of_nat (length message) + of_nat msg_pad
      in selector
         @ write_u256 msg_offset @ write_u256 att_offset
         @ write_u256 (of_nat (length message)) @ message @ replicate msg_pad 0
         @ write_u256 (of_nat (length attestation)) @ attestation
         @ replicate (pad_len (length attestation)) 0)"

section \<open>Reading RLP back\<close>

text \<open>
  One RLP item: its payload, whether it is a list, and what follows it. Only canonical encodings are
  read, as Ethereum nodes do: a single byte below 0x80 stands for itself, a payload of at most 55 bytes
  has the short prefix, and the length of a longer one has no leading zero byte.
\<close>

definition rlp_take :: "nat \<Rightarrow> byte list \<Rightarrow> (byte list \<times> byte list) option" where
  "rlp_take n bs = (if n \<le> length bs then Some (take n bs, drop n bs) else None)"

definition rlp_long :: "nat \<Rightarrow> byte list \<Rightarrow> (byte list \<times> byte list) option" where
  "rlp_long k bs =
     (case rlp_take k bs of
        None \<Rightarrow> None
      | Some (lm, r) \<Rightarrow> if hd lm = 0 \<or> be_value lm \<le> 55 then None else rlp_take (be_value lm) r)"

definition rlp_string :: "(byte list \<times> byte list) option \<Rightarrow> (bool \<times> byte list \<times> byte list) option" where
  "rlp_string x =
     (case x of
        None \<Rightarrow> None
      | Some (d, r) \<Rightarrow> if length d = 1 \<and> hd d < 0x80 then None else Some (False, d, r))"

definition rlp_item :: "byte list \<Rightarrow> (bool \<times> byte list \<times> byte list) option" where
  "rlp_item bs =
     (case bs of
        [] \<Rightarrow> None
      | b # r \<Rightarrow>
          (let n = unat b in
           if n < 0x80 then Some (False, [b], r)
           else if n \<le> 0xb7 then rlp_string (rlp_take (n - 0x80) r)
           else if n < 0xc0 then map_option (Pair False) (rlp_long (n - 0xb7) r)
           else if n \<le> 0xf7 then map_option (Pair True) (rlp_take (n - 0xc0) r)
           else map_option (Pair True) (rlp_long (n - 0xf7) r)))"

lemma be_value_replicate_0: "be_value (replicate n 0 @ bs) = be_value bs"
proof -
  have "foldl (\<lambda>a b. a * 256 + unat b) 0 (replicate n (0 :: byte)) = 0"
    by (induction n) auto
  then show ?thesis by (simp add: be_value_def)
qed

lemma be_value_zeros [simp]: "be_value (replicate n 0) = 0"
  using be_value_replicate_0 [of n "[]"] by simp

lemma be_value_trim_be [simp]: "be_value (trim_be bs) = be_value bs"
proof -
  have "takeWhile (\<lambda>b. b = 0) bs = replicate (length (takeWhile (\<lambda>b. b = 0) bs)) 0"
    by (intro replicate_eqI) (auto dest: set_takeWhileD)
  then have "bs = replicate (length (takeWhile (\<lambda>b. b = 0) bs)) 0 @ trim_be bs"
    unfolding trim_be_def by (metis takeWhile_dropWhile_id)
  then show ?thesis by (metis be_value_replicate_0)
qed

lemma length_trim_be: "length (trim_be bs) \<le> length bs"
  by (simp add: trim_be_def length_dropWhile_le)

lemma trim_be_nonempty: "be_value bs \<noteq> 0 \<Longrightarrow> trim_be bs \<noteq> []"
  by (metis be_value_trim_be be_value_simps(1))

lemma trim_be_hd: "trim_be bs \<noteq> [] \<Longrightarrow> hd (trim_be bs) \<noteq> 0"
  using hd_dropWhile [of "\<lambda>b. b = 0" bs] by (simp add: trim_be_def)

lemma rlp_take_append [simp]: "rlp_take (length xs) (xs @ ys) = Some (xs, ys)"
  by (simp add: rlp_take_def)

lemma rlp_long_append:
  assumes "n = length xs" "be_value lm = n" "hd lm \<noteq> 0" "55 < n"
  shows "rlp_long (length lm) (lm @ xs @ ys) = Some (xs, ys)"
  using assms by (simp add: rlp_long_def)

text \<open>The prefix of a payload of \<open>len\<close> bytes, read back in both of its forms.\<close>

lemma rlp_prefix_long:
  assumes "55 < len" "len < 2 ^ 64" "long \<in> {0xb7, 0xf7}"
  obtains k lm where "rlp_length_prefix short long len = of_nat (long + k) # lm"
    "length lm = k" "be_value lm = len" "1 \<le> k" "k \<le> 8" "hd lm \<noteq> 0"
proof -
  let ?lm = "trim_be (be_bytes 8 len)"
  have v: "be_value (be_bytes 8 len) = len" using assms by (simp add: be_value_be_bytes)
  then have "?lm \<noteq> []" using assms by (intro trim_be_nonempty) simp
  moreover have "length ?lm \<le> 8" using length_trim_be [of "be_bytes 8 len"] by simp
  moreover have "be_value ?lm = len" using v by simp
  moreover have "hd ?lm \<noteq> 0" using \<open>?lm \<noteq> []\<close> by (rule trim_be_hd)
  ultimately show thesis
    using assms by (intro that [of "length ?lm" ?lm])
      (auto simp: rlp_length_prefix_def Let_def Suc_le_eq)
qed

lemma rlp_item_prefix:
  assumes "length data < 2 ^ 64" "(short, long, l) \<in> {(0x80, 0xb7, False), (0xc0, 0xf7, True)}"
    "l \<or> \<not> (length data = 1 \<and> hd data < 0x80)"
  shows "rlp_item (rlp_length_prefix short long (length data) @ data @ rest) = Some (l, data, rest)"
proof (cases "length data \<le> 55")
  case True
  then have "unat (of_nat (short + length data) :: byte) = short + length data"
    using assms by (intro unat_byte) auto
  with True assms show ?thesis
    by (auto simp: rlp_item_def rlp_length_prefix_def rlp_string_def Let_def simp del: of_nat_add)
next
  case False
  then obtain k lm where p: "rlp_length_prefix short long (length data) = of_nat (long + k) # lm"
    "length lm = k" "be_value lm = length data" "1 \<le> k" "k \<le> 8" "hd lm \<noteq> 0"
    using assms rlp_prefix_long [of "length data" long short thesis] by auto
  then have u: "unat (of_nat (long + k) :: byte) = long + k"
    using assms by (intro unat_byte) auto
  have "rlp_long k (lm @ data @ rest) = Some (data, rest)"
    using p False rlp_long_append [OF refl, of lm data] by simp
  with p u assms show ?thesis
    by (auto simp: rlp_item_def Let_def simp del: of_nat_add)
qed

lemma rlp_item_encode_bytes [simp]:
  assumes "length data < 2 ^ 64"
  shows "rlp_item (rlp_encode_bytes data @ rest) = Some (False, data, rest)"
proof (cases "length data = 1 \<and> hd data < 0x80")
  case True
  then obtain b where "data = [b]" "b < 0x80" by (cases data) auto
  then show ?thesis
    by (simp add: rlp_item_def rlp_encode_bytes_def Let_def word_less_nat_alt)
next
  case False
  then show ?thesis
    using rlp_item_prefix [OF assms, of "0x80" "0xb7" False] by (auto simp: rlp_encode_bytes_def)
qed

lemma rlp_item_encode_list [simp]:
  assumes "length (concat items) < 2 ^ 64"
  shows "rlp_item (rlp_encode_list items @ rest) = Some (True, concat items, rest)"
  using rlp_item_prefix [OF assms, of "0xc0" "0xf7" True]
  by (simp add: rlp_encode_list_def Let_def)

definition uint_be :: "u64 \<Rightarrow> byte list" where
  "uint_be v = (if v = 0 then [] else trim_be (u64_to_be_bytes v))"

lemma rlp_encode_uint_eq: "rlp_encode_uint v = rlp_encode_bytes (uint_be v)"
  by (simp add: rlp_encode_uint_def uint_be_def rlp_encode_bytes_def rlp_length_prefix_def)

lemma length_uint_be: "length (uint_be v) \<le> 8"
  using length_trim_be [of "u64_to_be_bytes v"] by (simp add: uint_be_def)

lemma be_value_uint_be [simp]: "be_value (uint_be v) = unat v"
  using unat_bound [of v] by (simp add: uint_be_def u64_to_be_bytes_def be_value_be_bytes)

lemma rlp_item_encode_uint [simp]:
  "rlp_item (rlp_encode_uint v @ rest) = Some (False, uint_be v, rest)"
  using length_uint_be [of v] by (simp add: rlp_encode_uint_eq)

lemma length_rlp_prefix: "length (rlp_length_prefix s l n) \<le> 9"
  using length_trim_be [of "be_bytes 8 n"] by (simp add: rlp_length_prefix_def Let_def)

lemma length_rlp_encode_bytes: "length (rlp_encode_bytes d) \<le> 9 + length d"
  using length_rlp_prefix [of "0x80" "0xb7" "length d"] by (simp add: rlp_encode_bytes_def)

lemma length_rlp_encode_uint: "length (rlp_encode_uint v) \<le> 17"
  using length_rlp_encode_bytes [of "uint_be v"] length_uint_be [of v]
  by (simp add: rlp_encode_uint_eq)

fun rlp_items :: "nat \<Rightarrow> byte list \<Rightarrow> (bool \<times> byte list) list option" where
  "rlp_items 0 bs = (if bs = [] then Some [] else None)"
| "rlp_items (Suc n) bs =
     (case rlp_item bs of
        None \<Rightarrow> None
      | Some (l, d, r) \<Rightarrow> map_option (Cons (l, d)) (rlp_items n r))"

section \<open>Properties\<close>

text \<open>A number as RLP writes it: big-endian without leading zero bytes, zero as the empty string.\<close>

definition minimal_uint :: "u64 \<Rightarrow> byte list \<Rightarrow> bool" where
  "minimal_uint v d \<longleftrightarrow> be_value d = unat v \<and> (d \<noteq> [] \<longrightarrow> hd d \<noteq> 0)"

lemma minimal_uint_be: "minimal_uint v (uint_be v)"
  by (auto simp: minimal_uint_def) (simp add: uint_be_def trim_be_hd split: if_split_asm)

text \<open>
  C32. The body of a transaction is canonical RLP and can be read back: a decoder that accepts only
  canonical encodings reads one list with nine items, the chain id, the nonce, the two fees and
  the gas limit as big-endian numbers without leading zeros, the recipient, the value and the call
  data byte for byte, and the empty access list. (The byte strings together are shorter than
  \<open>2 ^ 63\<close>.)
\<close>

theorem build_tx_rlp_decodes:
  assumes "length to + length value + length data < 2 ^ 63"
  shows "\<exists>payload c n p f g.
    rlp_item (build_tx_rlp chain nonce prio fee gas to value data) = Some (True, payload, []) \<and>
    rlp_items 9 payload = Some
      [(False, c), (False, n), (False, p), (False, f), (False, g), (False, to), (False, value), (False, data), (True, [])] \<and>
    minimal_uint chain c \<and> minimal_uint nonce n \<and> minimal_uint prio p \<and> minimal_uint fee f \<and> minimal_uint gas g"
proof -
  let ?items = "[rlp_encode_uint chain, rlp_encode_uint nonce, rlp_encode_uint prio,
        rlp_encode_uint fee, rlp_encode_uint gas, rlp_encode_bytes to,
        rlp_encode_bytes value, rlp_encode_bytes data, rlp_encode_list []]"
  have nine: "(9 :: nat) = Suc (Suc (Suc (Suc (Suc (Suc (Suc (Suc (Suc 0))))))))" by simp
  have lt: "length to < 2 ^ 64" "length value < 2 ^ 64" "length data < 2 ^ 64"
    using assms by simp_all
  have small: "length (rlp_encode_list []) = 1"
    by (simp add: rlp_encode_list_def rlp_length_prefix_def)
  have "length (concat ?items) \<le> 5 * 17 + 27 + (length to + length value + length data) + 1"
    using length_rlp_encode_uint [of chain] length_rlp_encode_uint [of nonce]
      length_rlp_encode_uint [of prio] length_rlp_encode_uint [of fee] length_rlp_encode_uint [of gas]
      length_rlp_encode_bytes [of "to"] length_rlp_encode_bytes [of "value"]
      length_rlp_encode_bytes [of data] small by simp
  also have "\<dots> < 2 ^ 64" using assms by simp
  finally have "rlp_item (build_tx_rlp chain nonce prio fee gas to value data) =
      Some (True, concat ?items, [])"
    using rlp_item_encode_list [of ?items "[]"] by (simp add: build_tx_rlp_def)
  moreover have "rlp_items 9 (concat ?items) = Some
      [(False, uint_be chain), (False, uint_be nonce), (False, uint_be prio), (False, uint_be fee),
       (False, uint_be gas), (False, to), (False, value), (False, data), (True, [])]"
    using rlp_item_encode_list [of "[]" "[]"] lt unfolding nine by simp
  ultimately show ?thesis using minimal_uint_be by blast
qed

theorem build_tx_rlp_decodes_witness:
  "\<exists>payload c n p f g.
    rlp_item (build_tx_rlp 84532 7 1 11 120000 (replicate 20 17) [] [1]) = Some (True, payload, []) \<and>
    rlp_items 9 payload = Some
      [(False, c), (False, n), (False, p), (False, f), (False, g), (False, replicate 20 17), (False, []), (False, [1]), (True, [])] \<and>
    minimal_uint 84532 c \<and> minimal_uint 7 n \<and> minimal_uint 1 p \<and> minimal_uint 11 f \<and> minimal_uint 120000 g"
  by (rule build_tx_rlp_decodes) simp

text \<open>
  The call data of \<open>rebalance\<close>, \<open>bridgeReserve\<close> and \<open>releaseHotPath\<close> has the ABI layout the Bank
  contract reads: four selector bytes, then one 32-byte word per argument, from which the
  arguments are recovered.
\<close>

theorem abi_static_calls_decode:
  assumes "length selector = 4" "length recipient = 20" "length event_id = 32"
  shows "length (encode_rebalance selector chain amount) = 68 \<and>
    slice 0 4 (encode_rebalance selector chain amount) = selector \<and>
    be_value (slice 4 36 (encode_rebalance selector chain amount)) = unat chain \<and>
    be_value (slice 36 68 (encode_rebalance selector chain amount)) = unat amount \<and>
    encode_bridge_reserve selector chain amount = encode_rebalance selector chain amount \<and>
    length (encode_release_hot_path selector recipient amount event_id) = 100 \<and>
    slice 0 16 (encode_release_hot_path selector recipient amount event_id) = selector @ replicate 12 0 \<and>
    slice 16 36 (encode_release_hot_path selector recipient amount event_id) = recipient \<and>
    be_value (slice 36 68 (encode_release_hot_path selector recipient amount event_id)) = unat amount \<and>
    slice 68 100 (encode_release_hot_path selector recipient amount event_id) = event_id"
proof -
  have c: "be_value (replicate 24 0 @ u64_to_be_bytes chain) = unat chain"
    using unat_bound [of chain]
    by (simp add: be_value_replicate_0 u64_to_be_bytes_def be_value_be_bytes)
  have a: "be_value (u256_to_be_bytes amount) = unat amount"
    using unat_bound [of amount] by (simp add: u256_to_be_bytes_def be_value_be_bytes)
  show ?thesis
    using assms c a
    by (simp add: encode_rebalance_def encode_bridge_reserve_def encode_release_hot_path_def slice_def)
qed

theorem abi_static_calls_decode_witness:
  "length (replicate 4 (1 :: byte)) = 4 \<and>
   be_value (slice 4 36 (encode_rebalance (replicate 4 1) 84532 1000)) = 84532 \<and>
   be_value (slice 36 68 (encode_rebalance (replicate 4 1) 84532 1000)) = 1000"
  using abi_static_calls_decode [of "replicate 4 1" "replicate 20 2" "replicate 32 3" 84532 1000]
  by simp

text \<open>Reading two dynamic \<open>bytes\<close> arguments: follow the two offsets of the head.\<close>

definition abi_bytes_at :: "byte list \<Rightarrow> nat \<Rightarrow> byte list" where
  "abi_bytes_at args off = take (be_value (slice off (off + 32) args)) (drop (off + 32) args)"

definition abi_two_bytes :: "byte list \<Rightarrow> byte list \<times> byte list" where
  "abi_two_bytes calldata =
     (let args = drop 4 calldata
      in (abi_bytes_at args (be_value (slice 0 32 args)), abi_bytes_at args (be_value (slice 32 64 args))))"

lemma length_write_u256 [simp]: "length (write_u256 v) = 32"
  by (simp add: write_u256_def)

lemma be_value_write_u256 [simp]: "be_value (write_u256 v) = unat v"
  using unat_bound [of v]
  by (simp add: write_u256_def be_value_replicate_0 u64_to_be_bytes_def be_value_be_bytes)

text \<open>A length-prefixed argument that starts after \<open>pre\<close> is read back.\<close>

lemma abi_bytes_at_append:
  assumes "off = length pre" "length bs < 2 ^ 64"
  shows "abi_bytes_at (pre @ write_u256 (of_nat (length bs)) @ bs @ post) off = bs"
  using assms by (simp add: abi_bytes_at_def slice_def unat_of_nat)

text \<open>
  C33. The call data of \<open>bridgeIn(bytes,bytes)\<close> is well formed: it starts with the selector, following the
  two offsets of its head yields exactly the CCTP message and the attestation, and after the selector
  its length is a whole number of 32-byte words. (Message and attestation are shorter than \<open>2 ^ 63\<close>, the
  selector has four bytes.)
\<close>

theorem encode_bridge_in_decodes:
  assumes "length selector = 4" "length message < 2 ^ 63" "length attestation < 2 ^ 63"
  shows "take 4 (encode_bridge_in selector message attestation) = selector \<and>
    abi_two_bytes (encode_bridge_in selector message attestation) = (message, attestation) \<and>
    32 dvd length (encode_bridge_in selector message attestation) - 4"
proof -
  let ?mp = "pad_len (length message)"
  let ?off = "64 + 32 + of_nat (length message) + of_nat ?mp :: u64"
  let ?m = "write_u256 (of_nat (length message)) @ message @ replicate ?mp 0"
  let ?a = "write_u256 (of_nat (length attestation)) @ attestation @ replicate (pad_len (length attestation)) 0"
  let ?head = "write_u256 64 @ write_u256 ?off"
  have pad: "pad_len n \<le> 31" "32 dvd n + pad_len n" for n
    unfolding pad_len_def by presburger+
  have "?off = of_nat (96 + length message + ?mp)" by simp
  then have off: "unat ?off = length (?head @ ?m)"
    using assms pad(1) [of "length message"] by (simp only: unat_of_nat) simp
  have args: "drop 4 (encode_bridge_in selector message attestation) = ?head @ ?m @ ?a"
    using assms by (simp add: encode_bridge_in_def Let_def)
  have m: "abi_bytes_at (?head @ ?m @ ?a) 64 = message"
    using abi_bytes_at_append [of 64 ?head message "replicate ?mp 0 @ ?a"] assms by simp
  have a: "abi_bytes_at (?head @ ?m @ ?a) (unat ?off) = attestation"
    using abi_bytes_at_append [OF off, of attestation "replicate (pad_len (length attestation)) 0"] assms
    by simp
  have "abi_two_bytes (encode_bridge_in selector message attestation) = (message, attestation)"
    using m a unfolding abi_two_bytes_def args Let_def by (simp add: slice_def del: append_assoc)
  moreover have "length (encode_bridge_in selector message attestation) - 4 =
      128 + (length message + ?mp) + (length attestation + pad_len (length attestation))"
    using assms by (simp add: encode_bridge_in_def Let_def)
  moreover have "take 4 (encode_bridge_in selector message attestation) = selector"
    using assms by (simp add: encode_bridge_in_def Let_def)
  ultimately show ?thesis using pad(2) by (simp add: dvd_add)
qed

theorem encode_bridge_in_decodes_witness:
  "abi_two_bytes (encode_bridge_in [1, 2, 3, 4] [9, 8, 7] (replicate 65 5)) = ([9, 8, 7], replicate 65 5)"
  using encode_bridge_in_decodes [of "[1, 2, 3, 4]" "[9, 8, 7]" "replicate 65 5"] by simp

lemma decode_pairs_length: "decode_pairs s = Some bs \<Longrightarrow> length bs = length s div 2"
  by (induction s arbitrary: bs rule: decode_pairs.induct) (auto split: option.splits)

text \<open>
  Hexadecimal text is read back exactly, with or without the \<open>0x\<close> prefix, and everything
  \<open>decode_hex\<close> accepts has the right number of digits.
\<close>

theorem decode_hex_roundtrip:
  "decode_hex (bytes_to_hex bs) = Some bs \<and> decode_hex (hex_0x bs) = Some bs \<and>
   (\<forall>cs. decode_hex (hex_0x ds @ cs) = Some bs \<longrightarrow> length bs = length ds + length cs div 2)"
  by (auto simp: decode_hex_def hex_0x_def dest!: decode_pairs_length split: if_splits)

theorem decode_hex_roundtrip_witness:
  "decode_hex (hex_0x [0xde, 0xad] @ []) = Some [0xde, 0xad] \<and> length [0xde, 0xad :: byte] = 2"
  using decode_hex_roundtrip [of "[0xde, 0xad]" "[0xde, 0xad]"] by simp

text \<open>
  A signature half that starts with a zero byte is encoded with that byte: \<open>sign_eip1559_tx\<close>
  passes the 32 fixed bytes of \<open>r\<close> and \<open>s\<close> to \<open>rlp_encode_bytes\<close>, so the encoding is not the one of
  the number in minimal form, which \<open>u256_to_trimmed_be\<close> would give.
\<close>

theorem signature_half_not_minimal:
  assumes "length r = 32" "hd r = 0"
  shows "rlp_item (rlp_encode_bytes r) = Some (False, r, []) \<and>
    rlp_encode_bytes r \<noteq> rlp_encode_bytes (u256_to_trimmed_be (u256_from_be_bytes r))"
proof -
  let ?t = "u256_to_trimmed_be (u256_from_be_bytes r)"
  have self: "rlp_item (rlp_encode_bytes r) = Some (False, r, [])"
    using rlp_item_encode_bytes [of r "[]"] assms by simp
  have t: "?t = [] \<or> hd ?t \<noteq> 0"
    using hd_dropWhile [of "\<lambda>b. b = 0"] by (auto simp: u256_to_trimmed_be_def trim_be_def)
  have "length ?t \<le> 32"
    using length_trim_be [of "u256_to_be_bytes (u256_from_be_bytes r)"]
    by (simp add: u256_to_trimmed_be_def)
  then have "rlp_item (rlp_encode_bytes ?t) = Some (False, ?t, [])"
    using rlp_item_encode_bytes [of ?t "[]"] by simp
  moreover have "r \<noteq> ?t" using t assms by auto
  ultimately show ?thesis using self by auto
qed

theorem signature_half_not_minimal_witness:
  "rlp_encode_bytes (0 # replicate 31 1) \<noteq>
     rlp_encode_bytes (u256_to_trimmed_be (u256_from_be_bytes (0 # replicate 31 1)))"
  using signature_half_not_minimal [of "0 # replicate 31 1"] by simp

section \<open>The activation event\<close>

text \<open>A comma-separated list, as \<open>RouteReceiver\<close> publishes it.\<close>

fun csv_of :: "u64 list \<Rightarrow> string" where
  "csv_of [] = []"
| "csv_of [x] = show_nat (unat x)"
| "csv_of (x # y # xs) = show_nat (unat x) @ CHR '','' # csv_of (y # xs)"

lemma split_on_no_sep: "sep \<notin> set s \<Longrightarrow> split_on sep s = [s]"
  by (induction s) auto

lemma split_on_append: "sep \<notin> set s \<Longrightarrow> split_on sep (s @ sep # t) = s # split_on sep t"
  by (induction s) auto

lemma show_nat_props:
  "CHR '','' \<notin> set (show_nat n)" "trim (show_nat n) = show_nat n"
proof -
  have no: "c \<noteq> CHR '','' \<and> \<not> is_space c" if "c \<in> set (show_nat n)" for c
    using show_base_no_special [of 10 c n] that by simp
  then show "CHR '','' \<notin> set (show_nat n)" by blast
  have keep: "dropWhile is_space s = s" if "set s \<subseteq> set (show_nat n)" for s
    using that no by (cases s) auto
  show "trim (show_nat n) = show_nat n"
    by (simp add: trim_def keep)
qed

lemma filter_map_csv: "xs \<noteq> [] \<Longrightarrow>
    filter_map (\<lambda>s. parse_u64 (trim s)) (split_on CHR '','' (csv_of xs)) = xs"
  by (induction xs rule: csv_of.induct)
    (simp_all add: split_on_no_sep split_on_append show_nat_props)

lemma parse_chains_csv_of: "parse_chains_csv (csv_of xs) = set xs"
proof (cases "xs = []")
  case True
  then show ?thesis
    by (simp add: parse_chains_csv_def trim_def from_str_radix_def parse_radix_def)
next
  case False
  then show ?thesis by (simp add: parse_chains_csv_def filter_map_csv)
qed

lemma digit_char_ascii: "d < 10 \<Longrightarrow> (of_char (digit_char d) :: nat) < 128"
  by (simp add: digit_char_def of_char_of)

lemma csv_of_ascii: "c \<in> set (csv_of xs) \<Longrightarrow> (of_char c :: nat) < 128"
proof (induction xs rule: csv_of.induct)
  case (2 x)
  then show ?case using show_base_chars [of 10 c "unat x"] digit_char_ascii by auto
next
  case (3 x y xs)
  then show ?case using show_base_chars [of 10 c "unat x"] digit_char_ascii by auto
qed simp

lemma text_of_bytes_of [simp]: "text_of (bytes_of s) = s"
proof -
  have "char_of (unat (of_nat (of_char c) :: byte)) = c" for c :: char
  proof -
    have "(of_char c :: nat) < 256" by (rule nat_of_char_less_256)
    then show ?thesis by (simp add: unat_byte)
  qed
  then show ?thesis by (simp add: text_of_def bytes_of_def map_idI)
qed

lemma utf8_valid_ascii: "\<forall>b \<in> set bs. b < 0x80 \<Longrightarrow> utf8_valid bs"
  by (induction bs rule: utf8_valid.induct) auto

lemma utf8_valid_csv: "utf8_valid (bytes_of (csv_of xs))"
proof (rule utf8_valid_ascii, safe)
  fix b assume "b \<in> set (bytes_of (csv_of xs))"
  then obtain c where "c \<in> set (csv_of xs)" "b = of_nat (of_char c)"
    by (auto simp: bytes_of_def)
  with csv_of_ascii [of c xs] show "b < 0x80"
    by (simp add: word_less_nat_alt unat_byte)
qed

text \<open>
  An \<open>ActivationPublished\<close> payload with the list of active chains at any offset in range is
  decoded to exactly that set of chains.
\<close>

theorem decode_active_chains_correct:
  assumes "192 \<le> length data" "length data < 2 ^ 63"
    and "be_value (slice 120 128 data) = ptr" "ptr + 32 + length (csv_of ids) \<le> length data"
    and "be_value (slice (ptr + 24) (ptr + 32) data) = length (csv_of ids)"
    and "slice (ptr + 32) (ptr + 32 + length (csv_of ids)) data = bytes_of (csv_of ids)"
  shows "decode_active_chains_from_event (hex_0x data) = Ret (Some (set ids))"
proof -
  let ?n = "length (csv_of ids)"
  have u: "unat (of_nat m :: u64) = m" if "m < 2 ^ 64" for m
    using that by (simp add: unat_of_nat)
  have len: "unat (of_nat (length data) :: u64) = length data" using assms by (intro u) simp
  have a: "unat (of_nat ptr + 24 :: u64) = ptr + 24" "unat (of_nat ptr + 32 :: u64) = ptr + 32"
    "unat (of_nat ptr + 32 + of_nat ?n :: u64) = ptr + 32 + ?n"
    using u [of "ptr + 24"] u [of "ptr + 32"] u [of "ptr + 32 + ?n"] assms by simp_all
  have s1: "slice_checked (of_nat ptr + 24) (of_nat ptr + 32) data = Ret (slice (ptr + 24) (ptr + 32) data)"
    using a assms by (simp add: slice_checked_def word_le_nat_alt)
  have s2: "slice_checked (of_nat ptr + 32) (of_nat ptr + 32 + of_nat ?n) data = Ret (bytes_of (csv_of ids))"
    using a assms by (simp add: slice_checked_def word_le_nat_alt)
  have ptr: "u64_from_be_bytes (slice 120 128 data) = of_nat ptr"
    using assms by (simp add: u64_from_be_bytes_def)
  have n: "u64_from_be_bytes (slice (ptr + 24) (ptr + 32) data) = of_nat ?n"
    using assms by (simp add: u64_from_be_bytes_def)
  have no: "\<not> of_nat (length data) < (of_nat ptr + 32 :: u64)"
    "\<not> of_nat (length data) < (of_nat ptr + 32 + of_nat ?n :: u64)"
    using a len assms by (simp_all add: word_less_nat_alt)
  show ?thesis
    using assms(1) no s1 s2
    by (simp add: decode_active_chains_from_event_def Let_def ptr n utf8_valid_csv parse_chains_csv_of)
qed

definition sample_activation :: "byte list" where
  "sample_activation =
     replicate 127 0 @ [192] @ replicate 64 0 @ replicate 31 0 @ [7] @ bytes_of ''1337,10''"

theorem decode_active_chains_correct_witness:
  "decode_active_chains_from_event (hex_0x sample_activation) = Ret (Some {1337, 10})"
proof -
  have csv: "csv_of [1337, 10] = ''1337,10''" by code_simp
  have "length sample_activation = 231" by (simp add: sample_activation_def bytes_of_def)
  moreover have "slice 120 128 sample_activation = replicate 7 0 @ [192]"
    "slice 216 224 sample_activation = replicate 7 0 @ [7]"
    "slice 224 231 sample_activation = bytes_of ''1337,10''"
    by (simp_all add: sample_activation_def bytes_of_def slice_def)
  moreover have "be_value (replicate 7 0 @ [192]) = 192" "be_value (replicate 7 0 @ [7]) = 7"
    by simp_all
  ultimately show ?thesis
    using decode_active_chains_correct [of sample_activation 192 "[1337, 10]"]
    by (simp add: csv del: csv_of.simps)
qed

text \<open>
  A payload whose offset lies just below \<open>2^64\<close> makes the decoder panic: the sum \<open>ptr + 32\<close>
  wraps past the range check and the slice that follows is reversed.
\<close>

theorem decode_active_chains_panics:
  assumes "192 \<le> length data" "length data < 2 ^ 63"
    and "be_value (slice 120 128 data) = ptr" "2 ^ 64 - 32 \<le> ptr" "ptr < 2 ^ 64 - 24"
  shows "decode_active_chains_from_event (hex_0x data) = Panic"
proof -
  have p: "u64_from_be_bytes (slice 120 128 data) = of_nat ptr"
    using assms by (simp add: u64_from_be_bytes_def)
  have "(of_nat ptr + 32 :: u64) = of_nat (ptr + 32)" "(of_nat ptr + 24 :: u64) = of_nat (ptr + 24)"
    by simp_all
  then have w: "unat (of_nat ptr + 32 :: u64) = ptr + 32 - 2 ^ 64" "unat (of_nat ptr + 24 :: u64) = ptr + 24"
    using assms by (simp_all only: unat_of_nat) (simp_all add: mod_if)
  have len: "unat (of_nat (length data) :: u64) = length data"
    using assms by (simp add: unat_of_nat)
  have "\<not> of_nat (length data) < (of_nat ptr + 32 :: u64)"
    using w len assms by (simp add: word_less_nat_alt)
  moreover have "slice_checked (of_nat ptr + 24) (of_nat ptr + 32) data = Panic"
    using w assms by (simp add: slice_checked_def word_le_nat_alt)
  ultimately show ?thesis
    using assms(1) by (simp add: decode_active_chains_from_event_def Let_def p)
qed

theorem decode_active_chains_panics_witness:
  "decode_active_chains_from_event (hex_0x (replicate 120 0 @ [255, 255, 255, 255, 255, 255, 255, 224] @ replicate 64 0)) = Panic"
proof -
  let ?d = "replicate 120 0 @ [255, 255, 255, 255, 255, 255, 255, 224] @ replicate 64 0 :: byte list"
  have "slice 120 128 ?d = [255, 255, 255, 255, 255, 255, 255, 224]"
    by (simp add: slice_def)
  moreover have "be_value ([255, 255, 255, 255, 255, 255, 255, 224]) = 2 ^ 64 - 32"
    by (simp add: be_value_def)
  ultimately show ?thesis
    using decode_active_chains_panics [of ?d "2 ^ 64 - 32"] by simp
qed

end
