(* ===== verification/Domain.thy ===== *)
theory Domain
  imports Prelude Numerals
begin

text \<open>
  The pure domain layer of the treasury service (\<open>services/treasury/src/domain\<close>, without the
  rebalancing algorithm and the ABI helpers, which have theories of their own): status enums and
  their text form, the relay eligibility rule, the watcher's comparison of a release with its
  source event, balance aggregation, withdrawal routing and the activity feed.
\<close>

section \<open>Newtypes and status enums (newtypes.rs, status.rs)\<close>

type_synonym ChainId = u64
type_synonym OperationId = string
type_synonym TxHash = string
type_synonym EventHash = string
type_synonym B256 = "byte list"
type_synonym Address = "byte list"

datatype RelayStatus =
    RelayPending | RelayCompleted | RelayFailed
  | RelayRejectedInactiveChain | RelayRejectedInsufficientDepth

fun relay_status_str :: "RelayStatus \<Rightarrow> string" where
  "relay_status_str RelayPending = ''pending''"
| "relay_status_str RelayCompleted = ''completed''"
| "relay_status_str RelayFailed = ''failed''"
| "relay_status_str RelayRejectedInactiveChain = ''rejected_inactive_chain''"
| "relay_status_str RelayRejectedInsufficientDepth = ''rejected_insufficient_depth''"

datatype RebalanceStatus = RebalancePending | RebalanceSubmitted | RebalanceFailed

fun rebalance_status_str :: "RebalanceStatus \<Rightarrow> string" where
  "rebalance_status_str RebalancePending = ''pending''"
| "rebalance_status_str RebalanceSubmitted = ''submitted''"
| "rebalance_status_str RebalanceFailed = ''failed''"

datatype AlertType = Verified | Mismatch | SourceNotFound

fun alert_type_str :: "AlertType \<Rightarrow> string" where
  "alert_type_str Verified = ''Verified''"
| "alert_type_str Mismatch = ''Mismatch''"
| "alert_type_str SourceNotFound = ''SourceNotFound''"

section \<open>Relay eligibility (relay.rs)\<close>

datatype RelayDecision = Approved | RejectedInactiveChain | RejectedInsufficientDepth

fun as_relay_status :: "RelayDecision \<Rightarrow> RelayStatus option" where
  "as_relay_status Approved = None"
| "as_relay_status RejectedInactiveChain = Some RelayRejectedInactiveChain"
| "as_relay_status RejectedInsufficientDepth = Some RelayRejectedInsufficientDepth"

definition evaluate_relay_eligibility :: "bool \<Rightarrow> u256 \<Rightarrow> u256 \<Rightarrow> RelayDecision" where
  "evaluate_relay_eligibility chain_active pool_depth required_amount =
     (if \<not> chain_active then RejectedInactiveChain
      else if required_amount \<le> pool_depth then Approved
      else RejectedInsufficientDepth)"

lemma evaluate_relay_eligibility_Approved_iff:
  "evaluate_relay_eligibility act depth amt = Approved \<longleftrightarrow> act \<and> amt \<le> depth"
  by (simp add: evaluate_relay_eligibility_def)

section \<open>Events (events.rs)\<close>

record HotPathEvent =
  he_source_chain_id :: ChainId
  he_source_event_hash :: EventHash
  he_sender :: string
  he_recipient :: Address
  he_amount :: u256
  he_dest_chain_id :: ChainId
  he_event_id :: B256

record InitiatedEvent =
  ie_source_chain_id :: ChainId
  ie_source_tx_hash :: TxHash
  ie_recipient :: Address
  ie_amount :: u256

record ReleasedEvent =
  re_dest_chain_id :: ChainId
  re_dest_tx_hash :: TxHash
  re_transfer_id :: B256
  re_recipient :: Address
  re_amount :: u256

definition verify_against :: "ReleasedEvent \<Rightarrow> InitiatedEvent \<Rightarrow> AlertType" where
  "verify_against self initiated =
     (if re_amount self = ie_amount initiated \<and> re_recipient self = ie_recipient initiated
      then Verified else Mismatch)"

section \<open>Balance aggregation (balance.rs)\<close>

record ChainBalanceContribution =
  cb_amount :: u256
  cb_used_fallback :: bool

fun aggregate_loop :: "u256 \<times> bool \<Rightarrow> ChainBalanceContribution list \<Rightarrow> u256 \<times> bool" where
  "aggregate_loop (tot, degraded) [] = (tot, degraded)"
| "aggregate_loop (tot, degraded) (c # cs) =
     aggregate_loop (saturating_add tot (cb_amount c),
       if cb_used_fallback c then True else degraded) cs"

definition aggregate_balances :: "ChainBalanceContribution list \<Rightarrow> u256 \<times> bool" where
  "aggregate_balances contributions = aggregate_loop (0, False) contributions"

lemma aggregate_loop_eq:
  "aggregate_loop (t, g) cs = (t', g') \<Longrightarrow>
     unat t' = min (unat t + (\<Sum>c\<leftarrow>cs. unat (cb_amount c))) (2 ^ 256 - 1) \<and>
     g' = (g \<or> list_ex cb_used_fallback cs)"
proof (induction cs arbitrary: t g)
  case Nil
  then show ?case using unat_bound [of t] by simp
next
  case (Cons c cs)
  then have "unat t' = min (unat (saturating_add t (cb_amount c)) + (\<Sum>c\<leftarrow>cs. unat (cb_amount c))) (2 ^ 256 - 1)
      \<and> g' = ((if cb_used_fallback c then True else g) \<or> list_ex cb_used_fallback cs)"
    by (intro Cons.IH) simp
  then show ?case by (auto simp: word_nat)
qed

section \<open>Withdrawal routing (withdrawal\_routing.rs)\<close>

record ChainWithdrawalInput =
  wi_chain_id :: u64
  wi_balance_wei :: u256
  wi_reserve_depth_wei :: u256
  wi_active :: bool
  wi_decommissioned :: bool

record ChainWithdrawalEntry =
  we_chain_id :: u64
  we_balance_wei :: u256
  we_withdrawable_wei :: u256
  we_available :: bool
  we_reason :: "string option"

fun compute_withdrawal_routing :: "ChainWithdrawalInput list \<Rightarrow> ChainWithdrawalEntry list" where
  "compute_withdrawal_routing [] = []"
| "compute_withdrawal_routing (input # inputs) =
     (if wi_decommissioned input then compute_withdrawal_routing inputs
      else if \<not> wi_active input then
        \<lparr>we_chain_id = wi_chain_id input, we_balance_wei = wi_balance_wei input,
         we_withdrawable_wei = 0, we_available = False, we_reason = Some ''chain_inactive''\<rparr>
        # compute_withdrawal_routing inputs
      else if wi_balance_wei input = 0 then compute_withdrawal_routing inputs
      else
        (let withdrawable = min (wi_balance_wei input) (wi_reserve_depth_wei input) in
         (if withdrawable = 0 then
            \<lparr>we_chain_id = wi_chain_id input, we_balance_wei = wi_balance_wei input,
             we_withdrawable_wei = 0, we_available = False,
             we_reason = Some ''insufficient_reserve''\<rparr>
          else
            \<lparr>we_chain_id = wi_chain_id input, we_balance_wei = wi_balance_wei input,
             we_withdrawable_wei = withdrawable, we_available = True, we_reason = None\<rparr>)
         # compute_withdrawal_routing inputs))"

section \<open>Account events and the activity feed (repository.rs, activity.rs)\<close>

text \<open>
  An \<open>i64\<close> chain id, block number or time is kept as a word or as the integer it denotes; the cast
  \<open>as u64\<close> of a chain id is the identity on the word. Amounts are the decimal text of the row.
\<close>

record AccountEventRow =
  ae_chain_id :: u64
  ae_tx_hash :: string
  ae_log_index :: u32
  ae_event_kind :: string
  ae_address_from :: "string option"
  ae_address_to :: "string option"
  ae_amount_wei :: string
  ae_block_number :: u64
  ae_block_time_unix :: "int option"
  ae_correlation :: "string option"

record ActivityView =
  av_kind :: string
  av_direction :: string
  av_counterparty :: string
  av_chain_id :: u64
  av_amount_wei :: string
  av_status :: string
  av_tx_hash :: string
  av_occurred_at :: string

definition normalize_relay_status :: "string option \<Rightarrow> string" where
  "normalize_relay_status relay_status =
     (case relay_status of
        None \<Rightarrow> ''pending''
      | Some s \<Rightarrow>
          if s = ''completed'' then ''completed''
          else if s = ''failed'' \<or> s = ''rejected_inactive_chain'' \<or> s = ''rejected_insufficient_depth''
          then ''failed''
          else if starts_with s ''rejected'' then ''failed''
          else if s = ''pending'' then ''pending''
          else s)"

definition is_user :: "string option \<Rightarrow> string \<Rightarrow> bool" where
  "is_user a user_lower = (case a of None \<Rightarrow> False | Some x \<Rightarrow> eq_ignore_ascii_case x user_lower)"

definition view_of :: "AccountEventRow \<Rightarrow> string \<Rightarrow> string \<Rightarrow> string \<Rightarrow> string \<Rightarrow> ActivityView" where
  "view_of row kind direction counterparty status =
     \<lparr>av_kind = kind, av_direction = direction, av_counterparty = counterparty,
      av_chain_id = ae_chain_id row, av_amount_wei = ae_amount_wei row, av_status = status,
      av_tx_hash = ae_tx_hash row,
      av_occurred_at = (case ae_block_time_unix row of None \<Rightarrow> [] | Some ts \<Rightarrow> show_int ts)\<rparr>"

definition map_event_to_activity ::
  "AccountEventRow \<Rightarrow> string \<Rightarrow> string option \<Rightarrow> ActivityView option" where
  "map_event_to_activity row user relay_status =
     (let user_lower = to_lowercase user; kind = ae_event_kind row in
      if kind = ''deposited'' \<and> is_user (ae_address_to row) user_lower
      then Some (view_of row ''deposit'' ''incoming'' [] ''completed'')
      else if kind = ''withdrawn'' \<and> is_user (ae_address_from row) user_lower
      then Some (view_of row ''withdrawal'' ''outgoing'' [] ''completed'')
      else if kind = ''transfer'' then
        (case (ae_address_from row, ae_address_to row) of
           (Some frm, Some to) \<Rightarrow>
             if eq_ignore_ascii_case frm user_lower
             then Some (view_of row ''transfer'' ''outgoing'' to ''completed'')
             else if eq_ignore_ascii_case to user_lower
             then Some (view_of row ''transfer'' ''incoming'' frm ''completed'')
             else None
         | _ \<Rightarrow> None)
      else if kind = ''hot_path_initiated'' \<and> is_user (ae_address_from row) user_lower
      then Some (view_of row ''transfer'' ''outgoing'' (case_option [] id (ae_address_to row))
                   (normalize_relay_status relay_status))
      else if kind = ''hot_path_released'' \<and> is_user (ae_address_to row) user_lower
      then Some (view_of row ''transfer'' ''incoming'' [] ''completed'')
      else None)"

lemma is_user_lower [simp]: "is_user a (to_lowercase u) = is_user a u"
  by (simp add: is_user_def split: option.split)

text \<open>The arms of a guarded match, as one elimination rule.\<close>

lemma activity_cases:
  assumes "(if A then Some a else if B then Some b else if C then c else if D then Some d
      else if E then Some e else None) = Some v"
  obtains "A" "v = a" | "B" "v = b" | "C" "c = Some v" | "D" "v = d" | "E" "v = e"
  using assms by (auto split: if_split_asm)

section \<open>Properties\<close>

text \<open>
  The watcher's comparison accepts a release exactly when both the amount and the recipient
  are those of the source event; every other release is a mismatch, never \<open>SourceNotFound\<close>.
\<close>

theorem verify_against_iff:
  "(verify_against r i = Verified \<longleftrightarrow> re_amount r = ie_amount i \<and> re_recipient r = ie_recipient i)
   \<and> verify_against r i \<noteq> SourceNotFound"
  by (simp add: verify_against_def)

text \<open>
  The aggregated balance is the exact sum of the per-chain balances, capped at the largest
  \<open>U256\<close> instead of wrapping, and the response is degraded exactly when some chain used the
  indexed fallback.
\<close>

theorem aggregate_balances_correct:
  "unat (fst (aggregate_balances cs)) = min (\<Sum>c\<leftarrow>cs. unat (cb_amount c)) (2 ^ 256 - 1) \<and>
   snd (aggregate_balances cs) = list_ex cb_used_fallback cs"
  using aggregate_loop_eq [of 0 False cs "fst (aggregate_balances cs)" "snd (aggregate_balances cs)"]
  by (simp add: aggregate_balances_def)

lemma compute_withdrawal_routing_append:
  "compute_withdrawal_routing (xs @ ys) = compute_withdrawal_routing xs @ compute_withdrawal_routing ys"
  by (induction xs) (auto simp: Let_def)

text \<open>
  Every entry of the withdrawal routing comes from a chain that is not decommissioned; it is
  available exactly when something can be withdrawn, which needs an active chain, is the smaller
  of the user's balance and the reserve of that chain, and carries a reason exactly when it is
  not available.
\<close>

theorem withdrawal_entry_sound:
  "list_all (\<lambda>e. \<exists>i \<in> set inputs.
      we_chain_id e = wi_chain_id i \<and> \<not> wi_decommissioned i \<and> we_balance_wei e = wi_balance_wei i \<and>
      (we_available e \<longleftrightarrow> wi_active i \<and> 0 < min (wi_balance_wei i) (wi_reserve_depth_wei i)) \<and>
      we_withdrawable_wei e =
        (if wi_active i then min (wi_balance_wei i) (wi_reserve_depth_wei i) else 0) \<and>
      (we_reason e = None \<longleftrightarrow> we_available e))
    (compute_withdrawal_routing inputs)"
proof (induction inputs)
  case Nil
  show ?case by simp
next
  case (Cons i inputs)
  then show ?case
    by (auto simp: Let_def list_all_iff word_gt_0)
qed

text \<open>
  No chain with money to withdraw is lost: each chain that is neither decommissioned nor
  (active with a zero balance) has its entry in the routing.
\<close>

theorem withdrawal_entry_complete:
  assumes "i \<in> set inputs" "\<not> wi_decommissioned i" "wi_active i \<longrightarrow> wi_balance_wei i \<noteq> 0"
  shows "list_ex (\<lambda>e. we_chain_id e = wi_chain_id i \<and> we_balance_wei e = wi_balance_wei i)
    (compute_withdrawal_routing inputs)"
  using assms by (induction inputs) (auto simp: Let_def)

theorem withdrawal_entry_complete_witness:
  "list_ex (\<lambda>e. we_chain_id e = 1337 \<and> we_balance_wei e = 5000)
    (compute_withdrawal_routing
      [\<lparr>wi_chain_id = 1337, wi_balance_wei = 5000, wi_reserve_depth_wei = 2000,
        wi_active = True, wi_decommissioned = False\<rparr>])"
  using withdrawal_entry_complete
    [of "\<lparr>wi_chain_id = 1337, wi_balance_wei = 5000, wi_reserve_depth_wei = 2000,
        wi_active = True, wi_decommissioned = False\<rparr>"
       "[\<lparr>wi_chain_id = 1337, wi_balance_wei = 5000, wi_reserve_depth_wei = 2000,
        wi_active = True, wi_decommissioned = False\<rparr>]"]
  by simp

text \<open>
  The activity feed shows a row only to a party of it: an entry is outgoing when the user is
  the sender and incoming when the user is the recipient, and the case of the address does not
  matter.
\<close>

theorem map_event_to_activity_party:
  assumes "map_event_to_activity row user st = Some v"
  shows "(av_direction v = ''outgoing'' \<and> is_user (ae_address_from row) user \<or>
          av_direction v = ''incoming'' \<and> is_user (ae_address_to row) user) \<and>
    av_amount_wei v = ae_amount_wei row \<and> av_tx_hash v = ae_tx_hash row \<and>
    map_event_to_activity row (to_lowercase user) st = Some v"
proof -
  have lower: "map_event_to_activity row (to_lowercase user) st = Some v"
    using assms by (simp add: map_event_to_activity_def)
  have "\<exists>k d c t. v = view_of row k d c t \<and> (d = ''outgoing'' \<and> is_user (ae_address_from row) user \<or>
      d = ''incoming'' \<and> is_user (ae_address_to row) user)"
    using assms unfolding map_event_to_activity_def Let_def is_user_lower
    by (elim activity_cases) (auto simp: is_user_def split: option.split_asm if_split_asm)
  with lower show ?thesis by (auto simp: view_of_def)
qed

definition sample_row :: AccountEventRow where
  "sample_row = \<lparr>ae_chain_id = 84532, ae_tx_hash = ''0xaa'', ae_log_index = 0,
     ae_event_kind = ''deposited'', ae_address_from = None, ae_address_to = Some ''0xab'',
     ae_amount_wei = ''7'', ae_block_number = 1, ae_block_time_unix = Some 5, ae_correlation = None\<rparr>"

theorem map_event_to_activity_party_witness:
  "\<exists>v. map_event_to_activity sample_row ''0xAB'' None = Some v \<and> av_direction v = ''incoming''
     \<and> av_amount_wei v = ''7''"
proof -
  have e: "map_event_to_activity sample_row ''0xAB'' None =
      Some (view_of sample_row ''deposit'' ''incoming'' [] ''completed'')"
    by code_simp
  from map_event_to_activity_party [OF e] e show ?thesis
    by (simp add: view_of_def sample_row_def)
qed

end
