(* ===== verification/Rpc.thy ===== *)
theory Rpc
  imports Steps Numerals Encoding Domain
begin

text \<open>
  The Ethereum client of the treasury service: \<open>error.rs\<close>, \<open>eth/rpc.rs\<close>, \<open>eth/tx.rs\<close> and the parts of
  \<open>config.rs\<close> the modules read, over a model of the outside world.

  Everything outside the repository is a field of the record \<open>env\<close>: what an HTTP endpoint answers
  to the n-th interaction, whether the database answers then, how long an interaction takes, the
  hash function, the signature function, the text form of a JSON value, the big-integer parser, the
  iteration order of a hash map. The mutable world is the
  record \<open>sys\<close>: a millisecond clock, the number of interactions so far and the requests sent, in
  order. The modules extend it with their own state. An operation of the service is a step of the
  state monad over it; an operation that awaits several answers runs to its end, and the
  environment may answer every request differently.
\<close>

section \<open>JSON\<close>

datatype json =
    JNull | JBool bool | JNum nat | JStr string | JArr "json list" | JObj "(string \<times> json) list"

fun jget :: "json \<Rightarrow> string \<Rightarrow> json option" where
  "jget (JObj kvs) k = map_of kvs k"
| "jget _ k = None"

definition jindex :: "json \<Rightarrow> string \<Rightarrow> json" where
  "jindex j k = (case jget j k of Some v \<Rightarrow> v | None \<Rightarrow> JNull)"

fun as_str :: "json \<Rightarrow> string option" where
  "as_str (JStr s) = Some s"
| "as_str _ = None"

fun as_array :: "json \<Rightarrow> json list option" where
  "as_array (JArr xs) = Some xs"
| "as_array _ = None"

fun is_object :: "json \<Rightarrow> bool" where
  "is_object (JObj _) = True"
| "is_object _ = False"

section \<open>Errors (error.rs)\<close>

datatype TxError =
    Http string
  | MissingField string
  | HexParse ParseIntError
  | RpcError string
  | TxReverted string
  | TxTimeout string
  | Signing string
  | InvalidAddress
  | MissingKey
  | RebalanceCapExceeded
  | DestChainNotAllowlisted
  | PoolDepthInsufficient
  | RetryExhausted nat

section \<open>The outside world\<close>

record env =
  http_post :: "nat \<Rightarrow> string \<Rightarrow> json \<Rightarrow> string + json"
  http_get :: "nat \<Rightarrow> string \<Rightarrow> string + (bool \<times> (string + json))"
  db_up :: "nat \<Rightarrow> bool"
  latency :: "nat \<Rightarrow> nat"
  keccak256 :: "byte list \<Rightarrow> byte list"
  sign_prehash :: "byte list \<Rightarrow> byte list \<Rightarrow> string + (byte list \<times> byte list \<times> byte)"
  json_text :: "json \<Rightarrow> string"
  u256_from_str :: "string \<Rightarrow> u256 option"
  hash_order :: "(u64 \<times> u256) list \<Rightarrow> (u64 \<times> u256) list"

record sys =
  now_ms :: nat
  tick :: nat
  calls :: "(string \<times> json) list"

definition tick_on :: "env \<Rightarrow> nat \<Rightarrow> 'm sys_scheme \<Rightarrow> 'm sys_scheme" where
  "tick_on E d s = s\<lparr>now_ms := now_ms s + d + latency E (tick s), tick := Suc (tick s)\<rparr>"

definition post :: "env \<Rightarrow> string \<Rightarrow> json \<Rightarrow> ('m sys_scheme, string + json) state" where
  "post E url body = State (\<lambda>s. (http_post E (tick s) url body,
     (tick_on E 0 s)\<lparr>calls := calls s @ [(url, body)]\<rparr>))"

definition http_fetch ::
  "env \<Rightarrow> string \<Rightarrow> ('m sys_scheme, string + (bool \<times> (string + json))) state" where
  "http_fetch E url = State (\<lambda>s. (http_get E (tick s) url, tick_on E 0 s))"

text \<open>\<open>tokio::time::sleep\<close> takes at least the requested time.\<close>

definition sleep :: "env \<Rightarrow> nat \<Rightarrow> ('m sys_scheme, unit) state" where
  "sleep E ms = State (\<lambda>s. ((), tick_on E ms s))"

text \<open>One database statement: whether it succeeded.\<close>

definition db :: "env \<Rightarrow> ('m sys_scheme, bool) state" where
  "db E = State (\<lambda>s. (db_up E (tick s), tick_on E 0 s))"

lemma run_post [run_simps]: "run_state (post E url body) s =
    (http_post E (tick s) url body, (tick_on E 0 s)\<lparr>calls := calls s @ [(url, body)]\<rparr>)"
  by (simp add: post_def)

lemma run_sleep [run_simps]: "run_state (sleep E ms) s = ((), tick_on E ms s)"
  by (simp add: sleep_def)

lemma run_db [run_simps]: "run_state (db E) s = (db_up E (tick s), tick_on E 0 s)"
  by (simp add: db_def)

lemma tick_on_simps [simp]:
  "calls (tick_on E d s) = calls s" "tick (tick_on E d s) = Suc (tick s)"
  "now_ms (tick_on E d s) = now_ms s + d + latency E (tick s)"
  "sys.more (tick_on E d s) = sys.more s"
  by (simp_all add: tick_on_def)

section \<open>JSON-RPC requests (rpc.rs)\<close>

definition rpc_body :: "string \<Rightarrow> json list \<Rightarrow> json" where
  "rpc_body meth params =
     JObj [(''jsonrpc'', JStr ''2.0''), (''method'', JStr meth), (''params'', JArr params), (''id'', JNum 1)]"

definition eth_call_body :: "string \<Rightarrow> string \<Rightarrow> json" where
  "eth_call_body to data =
     rpc_body ''eth_call'' [JObj [(''to'', JStr to), (''data'', JStr data)], JStr ''latest'']"

definition result_str :: "string + json \<Rightarrow> string option" where
  "result_str r = (case r of Inl _ \<Rightarrow> None | Inr resp \<Rightarrow> as_str (jindex resp ''result''))"

record RpcLog =
  transaction_hash :: string
  block_number :: string
  log_index :: string
  topics :: "string list"
  log_data :: string

text \<open>
  Deserialisation of a log: absent fields take their default, a field of the wrong type fails,
  \<open>data\<close> is required; a log may also come as the sequence of its five fields.
\<close>

definition opt_str :: "json option \<Rightarrow> string option" where
  "opt_str v = (case v of None \<Rightarrow> Some [] | Some j \<Rightarrow> as_str j)"

definition str_list :: "json option \<Rightarrow> string list option" where
  "str_list v =
     (case v of
        None \<Rightarrow> Some []
      | Some j \<Rightarrow> (case as_array j of None \<Rightarrow> None | Some xs \<Rightarrow> collect_option (map as_str xs)))"

definition make_log ::
  "json option \<Rightarrow> json option \<Rightarrow> json option \<Rightarrow> json option \<Rightarrow> json option \<Rightarrow> RpcLog option" where
  "make_log th bn li tp d =
     (case (opt_str th, opt_str bn, opt_str li, str_list tp, Option.bind d as_str) of
        (Some h, Some b, Some l, Some ts, Some dat) \<Rightarrow>
          Some \<lparr>transaction_hash = h, block_number = b, log_index = l, topics = ts, log_data = dat\<rparr>
      | _ \<Rightarrow> None)"

fun log_of_json :: "json \<Rightarrow> RpcLog option" where
  "log_of_json (JObj kvs) =
     make_log (map_of kvs ''transactionHash'') (map_of kvs ''blockNumber'') (map_of kvs ''logIndex'')
       (map_of kvs ''topics'') (map_of kvs ''data'')"
| "log_of_json (JArr [a, b, c, d, e]) = make_log (Some a) (Some b) (Some c) (Some d) (Some e)"
| "log_of_json _ = None"

definition logs_of_json :: "json \<Rightarrow> RpcLog list" where
  "logs_of_json j =
     (case as_array j of
        None \<Rightarrow> []
      | Some xs \<Rightarrow> (case collect_option (map log_of_json xs) of None \<Rightarrow> [] | Some ls \<Rightarrow> ls))"

definition fetch_block_number :: "env \<Rightarrow> string \<Rightarrow> ('m sys_scheme, u64 option) state" where
  "fetch_block_number E rpc_url = do {
     r \<leftarrow> post E rpc_url (rpc_body ''eth_blockNumber'' []);
     ret (case result_str r of
            None \<Rightarrow> None
          | Some hex \<Rightarrow> ok (from_str_radix 16 (trim_0x hex)))
   }"

definition hex_u64 :: "u64 \<Rightarrow> string" where
  "hex_u64 n = ''0x'' @ show_hex (unat n)"

definition get_logs_body :: "string \<Rightarrow> json \<Rightarrow> u64 \<Rightarrow> u64 \<Rightarrow> json" where
  "get_logs_body address topic from_block to_block =
     rpc_body ''eth_getLogs''
       [JObj [(''address'', JStr address), (''topics'', JArr [topic]),
              (''fromBlock'', JStr (hex_u64 from_block)), (''toBlock'', JStr (hex_u64 to_block))]]"

definition fetch_logs ::
  "env \<Rightarrow> string \<Rightarrow> string \<Rightarrow> string \<Rightarrow> u64 \<Rightarrow> u64 \<Rightarrow> ('m sys_scheme, RpcLog list) state" where
  "fetch_logs E rpc_url address topic from_block to_block = do {
     r \<leftarrow> post E rpc_url (get_logs_body address (JStr topic) from_block to_block);
     ret (case r of Inl _ \<Rightarrow> [] | Inr resp \<Rightarrow> logs_of_json (jindex resp ''result''))
   }"

definition fetch_logs_any ::
  "env \<Rightarrow> string \<Rightarrow> string \<Rightarrow> string list \<Rightarrow> u64 \<Rightarrow> u64 \<Rightarrow> ('m sys_scheme, RpcLog list) state" where
  "fetch_logs_any E rpc_url address ts from_block to_block =
     (if ts = [] then ret []
      else do {
        r \<leftarrow> post E rpc_url (get_logs_body address (JArr (map JStr ts)) from_block to_block);
        ret (case r of Inl _ \<Rightarrow> [] | Inr resp \<Rightarrow> logs_of_json (jindex resp ''result''))
      })"

definition parse_hex_u64 :: "string \<Rightarrow> u64 option" where
  "parse_hex_u64 hex = (if hex = [] then None else ok (from_str_radix 16 (trim_0x hex)))"

definition fetch_block_timestamp :: "env \<Rightarrow> string \<Rightarrow> u64 \<Rightarrow> ('m sys_scheme, int option) state" where
  "fetch_block_timestamp E rpc_url block = do {
     r \<leftarrow> post E rpc_url (rpc_body ''eth_getBlockByNumber'' [JStr (hex_u64 block), JBool False]);
     ret (case r of
            Inl _ \<Rightarrow> None
          | Inr resp \<Rightarrow>
              (case as_str (jindex (jindex resp ''result'') ''timestamp'') of
                 None \<Rightarrow> None
               | Some ts_hex \<Rightarrow>
                   map_option (\<lambda>ts. sint (ts :: u64)) (ok (from_str_radix 16 (trim_0x ts_hex)))))
   }"

definition word_result :: "string + json \<Rightarrow> byte list option" where
  "word_result r =
     (case result_str r of
        None \<Rightarrow> None
      | Some hex \<Rightarrow>
          (case decode_hex hex of
             None \<Rightarrow> None
           | Some bytes \<Rightarrow> if length bytes < 32 then None else Some (take 32 bytes)))"

definition fetch_address_view ::
  "env \<Rightarrow> string \<Rightarrow> string \<Rightarrow> byte list \<Rightarrow> ('m sys_scheme, string option) state" where
  "fetch_address_view E rpc_url contract_addr selector = do {
     r \<leftarrow> post E rpc_url (eth_call_body contract_addr (hex_0x selector));
     ret (map_option (\<lambda>w. hex_0x (slice 12 32 w)) (word_result r))
   }"

definition fetch_balance_of ::
  "env \<Rightarrow> string \<Rightarrow> string \<Rightarrow> string \<Rightarrow> byte list \<Rightarrow> ('m sys_scheme, u256 option) state" where
  "fetch_balance_of E rpc_url token_addr user_addr selector =
     (case encode_balance_of selector user_addr of
        None \<Rightarrow> ret None
      | Some call_data \<Rightarrow> do {
          r \<leftarrow> post E rpc_url (eth_call_body token_addr call_data);
          ret (map_option u256_from_be_bytes (word_result r))
        })"

definition fetch_u256_view ::
  "env \<Rightarrow> string \<Rightarrow> string \<Rightarrow> byte list \<Rightarrow> ('m sys_scheme, u256 option) state" where
  "fetch_u256_view E rpc_url contract_addr selector = do {
     r \<leftarrow> post E rpc_url (eth_call_body contract_addr (hex_0x selector));
     ret (map_option u256_from_be_bytes (word_result r))
   }"

definition fetch_pool_depth ::
  "env \<Rightarrow> string \<Rightarrow> string \<Rightarrow> byte list \<Rightarrow> ('m sys_scheme, u256 option) state" where
  "fetch_pool_depth E rpc_url bank_addr selector = fetch_u256_view E rpc_url bank_addr selector"

definition fetch_max_rebalance_amount ::
  "env \<Rightarrow> string \<Rightarrow> string \<Rightarrow> byte list \<Rightarrow> ('m sys_scheme, u256 option) state" where
  "fetch_max_rebalance_amount E rpc_url bank_addr selector = fetch_u256_view E rpc_url bank_addr selector"

definition fetch_reserve_depth ::
  "env \<Rightarrow> string \<Rightarrow> string \<Rightarrow> byte list \<Rightarrow> ('m sys_scheme, u256 option) state" where
  "fetch_reserve_depth E rpc_url bank_addr selector = fetch_u256_view E rpc_url bank_addr selector"

definition quantity :: "string \<Rightarrow> string + json \<Rightarrow> TxError + u64" where
  "quantity field r =
     (case r of
        Inl e \<Rightarrow> Inl (Http e)
      | Inr resp \<Rightarrow>
          (case as_str (jindex resp ''result'') of
             None \<Rightarrow> Inl (MissingField field)
           | Some hex \<Rightarrow> map_sum HexParse id (from_str_radix 16 (trim_0x hex))))"

definition fetch_nonce :: "env \<Rightarrow> string \<Rightarrow> Address \<Rightarrow> ('m sys_scheme, TxError + u64) state" where
  "fetch_nonce E rpc_url addr = do {
     r \<leftarrow> post E rpc_url (rpc_body ''eth_getTransactionCount'' [JStr (hex_0x addr), JStr ''pending'']);
     ret (quantity ''nonce'' r)
   }"

definition fetch_gas_params :: "env \<Rightarrow> string \<Rightarrow> ('m sys_scheme, TxError + (u64 \<times> u64)) state" where
  "fetch_gas_params E rpc_url = do {
     r \<leftarrow> post E rpc_url (rpc_body ''eth_gasPrice'' []);
     ret (map_sum id (\<lambda>gp. let tip = gp div 10 in (gp + tip, tip)) (quantity ''gasPrice'' r))
   }"

definition send_body :: "string \<Rightarrow> json" where
  "send_body raw_hex = rpc_body ''eth_sendRawTransaction'' [JStr raw_hex]"

definition send_raw_transaction ::
  "env \<Rightarrow> string \<Rightarrow> string \<Rightarrow> ('m sys_scheme, TxError + string) state" where
  "send_raw_transaction E rpc_url raw_hex = do {
     r \<leftarrow> post E rpc_url (send_body raw_hex);
     ret (case r of
            Inl e \<Rightarrow> Inl (Http e)
          | Inr resp \<Rightarrow>
              (case jget resp ''error'' of
                 Some err \<Rightarrow> Inl (RpcError (''eth_sendRawTransaction: '' @ json_text E err))
               | None \<Rightarrow>
                   (case as_str (jindex resp ''result'') of
                      Some h \<Rightarrow> Inr h
                    | None \<Rightarrow> Inl (MissingField ''tx hash''))))
   }"

section \<open>Waiting for a receipt\<close>

text \<open>
  The loop polls until the receipt carries a final status or the deadline has passed. Each round
  sleeps at least half a second, so the distance to the deadline is a termination measure.
\<close>

definition receipt_body :: "string \<Rightarrow> json" where
  "receipt_body tx_hash = rpc_body ''eth_getTransactionReceipt'' [JStr tx_hash]"

definition receipt_status :: "json \<Rightarrow> string option" where
  "receipt_status resp =
     (let receipt = jindex resp ''result''
      in if is_object receipt then Option.bind (jget receipt ''status'') as_str else None)"

function receipt_loop ::
  "env \<Rightarrow> string \<Rightarrow> string \<Rightarrow> nat \<Rightarrow> 'm sys_scheme \<Rightarrow> (TxError + json) \<times> 'm sys_scheme" where
  "receipt_loop E rpc_url tx_hash deadline s =
     (if deadline < now_ms s then (Inl (TxTimeout tx_hash), s)
      else
        (case run_state (post E rpc_url (receipt_body tx_hash)) s of
           (Inl e, s1) \<Rightarrow> (Inl (Http e), s1)
         | (Inr resp, s1) \<Rightarrow>
             if receipt_status resp = Some ''0x1'' then (Inr (jindex resp ''result''), s1)
             else if receipt_status resp = Some ''0x0'' then (Inl (TxReverted tx_hash), s1)
             else receipt_loop E rpc_url tx_hash deadline (snd (run_state (sleep E 500) s1))))"
  by pat_completeness auto
termination
  by (relation "measure (\<lambda>(E, u, h, deadline, s). Suc deadline - now_ms s)")
    (auto simp: post_def sleep_def)

declare receipt_loop.simps [simp del]

definition wait_for_receipt ::
  "env \<Rightarrow> string \<Rightarrow> string \<Rightarrow> nat \<Rightarrow> ('m sys_scheme, TxError + unit) state" where
  "wait_for_receipt E rpc_url tx_hash timeout = State (\<lambda>s.
     apfst (map_sum id (\<lambda>_. ())) (receipt_loop E rpc_url tx_hash (now_ms s + timeout) s))"

definition receipt_logs :: "json \<Rightarrow> json list" where
  "receipt_logs receipt =
     (case Option.bind (jget receipt ''logs'') as_array of Some ls \<Rightarrow> ls | None \<Rightarrow> [])"

definition wait_for_receipt_logs ::
  "env \<Rightarrow> string \<Rightarrow> string \<Rightarrow> nat \<Rightarrow> ('m sys_scheme, TxError + json list) state" where
  "wait_for_receipt_logs E rpc_url tx_hash timeout = State (\<lambda>s.
     apfst (map_sum id receipt_logs) (receipt_loop E rpc_url tx_hash (now_ms s + timeout) s))"

section \<open>Signing (tx.rs)\<close>

definition sign_eip1559_tx ::
  "env \<Rightarrow> u64 \<Rightarrow> u64 \<Rightarrow> u64 \<Rightarrow> u64 \<Rightarrow> u64 \<Rightarrow> byte list \<Rightarrow> byte list \<Rightarrow> byte list \<Rightarrow> byte list
     \<Rightarrow> TxError + string" where
  "sign_eip1559_tx E chain_id nonce max_priority_fee max_fee gas_limit to val call_data signing_key =
     (let to_sign = 2 # build_tx_rlp chain_id nonce max_priority_fee max_fee gas_limit to val call_data
      in case sign_prehash E signing_key (keccak256 E to_sign) of
           Inl e \<Rightarrow> Inl (Signing e)
         | Inr (r_bytes, s_bytes, v) \<Rightarrow>
             Inr (hex_0x (2 # rlp_encode_list
               [rlp_encode_uint chain_id, rlp_encode_uint nonce, rlp_encode_uint max_priority_fee,
                rlp_encode_uint max_fee, rlp_encode_uint gas_limit, rlp_encode_bytes to,
                rlp_encode_bytes val, rlp_encode_bytes call_data, rlp_encode_list [],
                rlp_encode_uint (ucast v), rlp_encode_bytes r_bytes, rlp_encode_bytes s_bytes])))"

section \<open>Event logs of the Bank\<close>

text \<open>The log of \<open>HotPathInitiated\<close>, by the ABI: two indexed addresses, four words of data.\<close>

definition initiated_log ::
  "string \<Rightarrow> TxHash \<Rightarrow> byte list \<Rightarrow> byte list \<Rightarrow> u256 \<Rightarrow> u64 \<Rightarrow> byte list \<Rightarrow> u256 \<Rightarrow> RpcLog" where
  "initiated_log topic tx sender to amount dest event_hash fee =
     \<lparr>transaction_hash = tx, block_number = [], log_index = [],
      topics = [topic, hex_0x (replicate 12 0 @ sender), hex_0x (replicate 12 0 @ to)],
      log_data = hex_0x (u256_to_be_bytes amount @ (replicate 24 0 @ u64_to_be_bytes dest) @
        event_hash @ u256_to_be_bytes fee)\<rparr>"

text \<open>The log of \<open>HotPathReleased\<close>: the recipient and the source event hash indexed, one word of data.\<close>

definition released_log :: "string \<Rightarrow> TxHash \<Rightarrow> byte list \<Rightarrow> byte list \<Rightarrow> u256 \<Rightarrow> RpcLog" where
  "released_log topic tx to event_hash amount =
     \<lparr>transaction_hash = tx, block_number = [], log_index = [],
      topics = [topic, hex_0x (replicate 12 0 @ to), hex_0x event_hash],
      log_data = hex_0x (u256_to_be_bytes amount)\<rparr>"

end
