(* ===== verification/Signer.thy ===== *)
theory Signer
  imports Rpc
begin

text \<open>
  What the four transaction-sending modules of the treasury service (hot path, watcher, cold path,
  reserve path) have in common: the configuration they read, their private nonce cache, and the
  sequence nonce, gas price, address, signature, cache update, send, which each module's
  \<open>submit_..._once\<close> spells out with its own gas limit, value and call data, and the retry loop
  around it. The record \<open>signer\<close> extends the world with the module's nonce cache; each module's
  own record extends \<open>signer\<close>.
\<close>

section \<open>Configuration (config.rs)\<close>

text \<open>
  A \<open>HashMap\<close> read by iteration is an association list, in an arbitrary but fixed order, with
  distinct keys; the fields only start-up reads (ports, key paths, poll intervals)
  are in \<open>boot_config\<close> of theory \<open>Startup\<close>.
\<close>

record Config =
  rpc_urls :: "(u64 \<times> string) list"
  contract_addresses :: "(u64 \<times> string) list"
  route_receiver_address :: string
  watcher_rpc_urls :: "(u64 \<times> string) list option"
  cold_path_min_bps :: u32
  cold_path_target_bps :: u32
  cold_path_max_wei :: string
  ccip_fee_wei :: string
  index_from_blocks :: "(u64 \<times> u64) list option"
  user_service_addr :: "string option"
  decommission_admin_token :: "string option"
  decommission_orchestrator_token :: "string option"
  decommission_index_head_tolerance_blocks :: u64
  decommission_dust_tolerance_wei :: string
  reserve_path_min_bps :: u32
  reserve_path_max_wei :: string
  reserve_bridge_fee_wei :: string
  reserve_path_stuck_timeout_secs :: u64
  reserve_bridge_addresses :: "(u64 \<times> string) list option"
  cctp_domains :: "(u64 \<times> u32) list option"
  circle_attestation_api_url :: string

definition chain_entries ::
  "(u64 \<times> string) list \<Rightarrow> (u64 \<times> string) list \<Rightarrow> (ChainId \<times> string \<times> string) list" where
  "chain_entries urls addrs =
     filter_map (\<lambda>(chain_id, rpc_url).
       map_option (\<lambda>addr. (chain_id, rpc_url, addr)) (map_of addrs chain_id)) urls"

section \<open>Nonces\<close>

record signer = sys +
  nonce_cache :: "ChainId \<rightharpoonup> u64"

definition get_nonce ::
  "env \<Rightarrow> string \<Rightarrow> ChainId \<Rightarrow> Address \<Rightarrow> ('m signer_scheme, TxError + u64) state" where
  "get_nonce E rpc_url chain_id addr = do {
     cache \<leftarrow> gets nonce_cache;
     (case cache chain_id of
        Some n \<Rightarrow> ret (Inr n)
      | None \<Rightarrow> fetch_nonce E rpc_url addr)
   }"

definition cache_nonce :: "ChainId \<Rightarrow> u64 \<Rightarrow> ('m signer_scheme, unit) state" where
  "cache_nonce chain_id n = modify (\<lambda>s. s\<lparr>nonce_cache := (nonce_cache s)(chain_id \<mapsto> n)\<rparr>)"

definition flush_nonce :: "ChainId \<Rightarrow> ('m signer_scheme, unit) state" where
  "flush_nonce chain_id = modify (\<lambda>s. s\<lparr>nonce_cache := (nonce_cache s)(chain_id := None)\<rparr>)"

section \<open>One submission\<close>

definition address_bytes :: "string \<Rightarrow> TxError + byte list" where
  "address_bytes addr =
     (case decode_hex addr of
        None \<Rightarrow> Inl InvalidAddress
      | Some b \<Rightarrow> if length b = 20 then Inr b else Inl InvalidAddress)"

definition submit_tx ::
  "env \<Rightarrow> string \<Rightarrow> string \<Rightarrow> ChainId \<Rightarrow> byte list \<Rightarrow> Address \<Rightarrow> u64 \<Rightarrow> byte list \<Rightarrow> byte list
     \<Rightarrow> ('m signer_scheme, TxError + string) state" where
  "submit_tx E rpc_url contract chain_id signing_key addr gas_limit val call_data = do {
     n \<leftarrow> get_nonce E rpc_url chain_id addr;
     (case n of
        Inl e \<Rightarrow> ret (Inl e)
      | Inr nonce \<Rightarrow> do {
          g \<leftarrow> fetch_gas_params E rpc_url;
          (case g of
             Inl e \<Rightarrow> ret (Inl e)
           | Inr (max_fee, max_priority_fee) \<Rightarrow>
               (case address_bytes contract of
                  Inl e \<Rightarrow> ret (Inl e)
                | Inr to \<Rightarrow>
                    (case sign_eip1559_tx E chain_id nonce max_priority_fee max_fee gas_limit to val
                            call_data signing_key of
                       Inl e \<Rightarrow> ret (Inl e)
                     | Inr raw_hex \<Rightarrow> do {
                         cache_nonce chain_id (nonce + 1);
                         send_raw_transaction E rpc_url raw_hex
                       })))
        })
   }"

section \<open>The retry loop\<close>

text \<open>
  \<open>for attempt in 1..=MAX\<close>: a failed attempt flushes the cached nonce; between attempts the task
  sleeps, one second first and twice as long each time.
\<close>

fun retry_loop ::
  "env \<Rightarrow> ChainId \<Rightarrow> ('m signer_scheme, TxError + 'a) state \<Rightarrow> nat \<Rightarrow> nat
     \<Rightarrow> ('m signer_scheme, 'a option) state" where
  "retry_loop E chain_id act 0 delay = ret None"
| "retry_loop E chain_id act (Suc left) delay = do {
     r \<leftarrow> act;
     (case r of
        Inr x \<Rightarrow> ret (Some x)
      | Inl e \<Rightarrow> do {
          flush_nonce chain_id;
          (if 0 < left then sleep E delay else ret ());
          retry_loop E chain_id act left (delay * 2)
        })
   }"

definition with_retry ::
  "env \<Rightarrow> ChainId \<Rightarrow> ('m signer_scheme, TxError + 'a) state \<Rightarrow> nat
     \<Rightarrow> ('m signer_scheme, TxError + 'a) state" where
  "with_retry E chain_id act max_retries = do {
     r \<leftarrow> retry_loop E chain_id act max_retries 1000;
     ret (case r of Some x \<Rightarrow> Inr x | None \<Rightarrow> Inl (RetryExhausted max_retries))
   }"

section \<open>Message ids in receipt logs (abi.rs)\<close>

definition log_topics :: "json \<Rightarrow> json list option" where
  "log_topics log = as_array (jindex log ''topics'')"

definition nth_str :: "nat \<Rightarrow> json list \<Rightarrow> string option" where
  "nth_str i xs = (if i < length xs then as_str (xs ! i) else None)"

definition topic0_matches :: "string \<Rightarrow> json list \<Rightarrow> bool" where
  "topic0_matches event_topic ts =
     (case nth_str 0 ts of None \<Rightarrow> False | Some t \<Rightarrow> eq_ignore_ascii_case t event_topic)"

definition topic1_id :: "json list \<Rightarrow> string option" where
  "topic1_id ts =
     (case nth_str 1 ts of None \<Rightarrow> None | Some t \<Rightarrow> if length t = 66 then Some t else None)"

fun first_some :: "('a \<Rightarrow> 'b option) \<Rightarrow> 'a list \<Rightarrow> 'b option" where
  "first_some f [] = None"
| "first_some f (x # xs) = (case f x of Some y \<Rightarrow> Some y | None \<Rightarrow> first_some f xs)"

definition matching_id :: "string \<Rightarrow> json \<Rightarrow> string option" where
  "matching_id event_topic log =
     (case log_topics log of
        None \<Rightarrow> None
      | Some ts \<Rightarrow> if topic0_matches event_topic ts then topic1_id ts else None)"

definition event_topic :: "env \<Rightarrow> string \<Rightarrow> string" where
  "event_topic E sig = hex_0x (keccak256 E (bytes_of sig))"

definition selector :: "env \<Rightarrow> string \<Rightarrow> byte list" where
  "selector E sig = take 4 (keccak256 E (bytes_of sig))"

definition extract_reserve_bridge_initiated_message_id :: "env \<Rightarrow> json list \<Rightarrow> string option" where
  "extract_reserve_bridge_initiated_message_id E logs =
     first_some (matching_id
       (event_topic E ''ReserveBridgeInitiated(bytes32,uint64,uint256,bytes32)'')) logs"

definition extract_ccip_message_id :: "env \<Rightarrow> json list \<Rightarrow> string option" where
  "extract_ccip_message_id E logs =
     (case first_some (matching_id (event_topic E ''RebalanceInitiated(bytes32,uint64,uint256)'')) logs of
        Some i \<Rightarrow> Some i
      | None \<Rightarrow>
          first_some (\<lambda>log. case log_topics log of None \<Rightarrow> None | Some ts \<Rightarrow> topic1_id ts) logs)"

end
