(* ===== verification/Effects.thy ===== *)
theory Effects
  imports Signer
begin

text \<open>
  How an operation may change the world, compositionally. Beside \<open>keeps f m\<close> of \<open>Steps\<close> (the step \<open>m\<close>
  does not change the part \<open>f\<close> of the state), \<open>emits Q n m\<close>: \<open>m\<close> only appends requests to the trace, at most \<open>n\<close> of
  them submit a raw transaction, and each of those satisfies \<open>Q\<close>. Both are closed under the
  monad's operations; the collections \<open>keeps\<close> and \<open>emits\<close> hold the facts for the Ethereum client and
  for the shared submission and retry code, so that a module's claims follow by composition.
\<close>

named_theorems emits \<open>requests an operation sends\<close>

section \<open>Definitions\<close>

definition is_send :: "string \<times> json \<Rightarrow> bool" where
  "is_send c = (jget (snd c) ''method'' = Some (JStr ''eth_sendRawTransaction''))"

definition sends :: "'m sys_scheme \<Rightarrow> (string \<times> json) list" where
  "sends s = filter is_send (calls s)"

definition emits ::
  "(string \<times> json \<Rightarrow> bool) \<Rightarrow> nat \<Rightarrow> ('m sys_scheme, 'a) state \<Rightarrow> bool" where
  "emits Q n m \<longleftrightarrow> (\<forall>s. \<exists>new. calls (snd (run_state m s)) = calls s @ new \<and>
     length (filter is_send new) \<le> n \<and> list_all (\<lambda>c. is_send c \<longrightarrow> Q c) new)"

section \<open>Composition\<close>

lemma emitsI:
  assumes "\<And>s. \<exists>new. calls (snd (run_state m s)) = calls s @ new \<and>
     length (filter is_send new) \<le> n \<and> list_all (\<lambda>c. is_send c \<longrightarrow> Q c) new"
  shows "emits Q n m"
  using assms by (simp add: emits_def)

lemma emitsD:
  assumes "emits Q n m" "run_state m s = (x, s')"
  shows "\<exists>new. calls s' = calls s @ new \<and> length (filter is_send new) \<le> n \<and>
    list_all (\<lambda>c. is_send c \<longrightarrow> Q c) new"
  using assms(1) [unfolded emits_def, THEN spec, of s] assms(2) by simp

lemma emits_mono: "emits Q n m \<Longrightarrow> n \<le> n' \<Longrightarrow> emits Q n' m"
  unfolding emits_def by (meson le_trans)

lemma emits_0: "emits Q 0 m \<Longrightarrow> emits Q' 0 m"
  unfolding emits_def by (fastforce simp: list_all_iff filter_empty_conv)

lemma emits_keeps_calls: "keeps calls m \<Longrightarrow> emits Q n m"
  by (auto simp: emits_def keeps_def)

lemma emits_ret [simp]: "emits Q n (ret x)"
  by (rule emits_keeps_calls) simp

lemma emits_gets [simp]: "emits Q n (gets f)"
  by (rule emits_keeps_calls) simp

lemma emits_bind:
  assumes "emits Q a m" "\<And>x. emits Q b (k x)" "a + b \<le> n"
  shows "emits Q n (State_Monad.bind m k)"
proof (rule emitsI)
  fix s
  obtain x s1 where m: "run_state m s = (x, s1)" by fastforce
  from emitsD [OF assms(1) m] obtain u where u: "calls s1 = calls s @ u" "length (filter is_send u) \<le> a"
    "list_all (\<lambda>c. is_send c \<longrightarrow> Q c) u" by blast
  from emitsD [OF assms(2) surjective_pairing, of x s1] obtain v where
    v: "calls (snd (run_state (k x) s1)) = calls s1 @ v"
    "length (filter is_send v) \<le> b" "list_all (\<lambda>c. is_send c \<longrightarrow> Q c) v" by blast
  show "\<exists>new. calls (snd (run_state (State_Monad.bind m k) s)) = calls s @ new \<and>
      length (filter is_send new) \<le> n \<and> list_all (\<lambda>c. is_send c \<longrightarrow> Q c) new"
    using u v assms(3) by (intro exI [of _ "u @ v"]) (simp add: m)
qed

text \<open>Two instances that leave no arithmetic to the caller.\<close>

lemma emits_then: "emits Q 0 m \<Longrightarrow> (\<And>x. emits Q n (k x)) \<Longrightarrow> emits Q n (State_Monad.bind m k)"
  by (rule emits_bind) auto

lemma emits_first: "emits Q n m \<Longrightarrow> (\<And>x. emits Q 0 (k x)) \<Longrightarrow> emits Q n (State_Monad.bind m k)"
  by (rule emits_bind) auto

lemma emits_if: "emits Q n a \<Longrightarrow> emits Q n b \<Longrightarrow> emits Q n (if c then a else b)"
  by simp

lemma emits_option:
  "emits Q n a \<Longrightarrow> (\<And>x. v = Some x \<Longrightarrow> emits Q n (b x)) \<Longrightarrow>
     emits Q n (case v of None \<Rightarrow> a | Some x \<Rightarrow> b x)"
  by (cases v) auto

lemma emits_sum:
  "(\<And>x. emits Q n (a x)) \<Longrightarrow> (\<And>x. v = Inr x \<Longrightarrow> emits Q n (b x)) \<Longrightarrow>
     emits Q n (case v of Inl x \<Rightarrow> a x | Inr x \<Rightarrow> b x)"
  by (cases v) auto

lemma emits_prod: "(\<And>x y. emits Q n (a x y)) \<Longrightarrow> emits Q n (case v of (x, y) \<Rightarrow> a x y)"
  by (cases v) auto

lemma emits_modify: "(\<And>s. calls (g s) = calls s) \<Longrightarrow> emits Q n (modify g)"
  by (intro emits_keeps_calls keeps_modify)

lemma emits_for_each_0: "(\<And>x. emits Q 0 (g x)) \<Longrightarrow> emits Q 0 (for_each g xs)"
  by (induction xs) (auto intro!: emits_then)

lemmas emits_case = emits_if emits_option emits_sum emits_prod

lemma emits_outcome:
  "(\<And>x. emits Q n (a x)) \<Longrightarrow> emits Q n b \<Longrightarrow> emits Q n (case v of Ret x \<Rightarrow> a x | Panic \<Rightarrow> b)"
  by (cases v) auto

text \<open>Requests a step adds: at most \<open>n\<close> submissions, each satisfying \<open>Q\<close>.\<close>

definition adds :: "'m sys_scheme \<Rightarrow> nat \<Rightarrow> (string \<times> json \<Rightarrow> bool) \<Rightarrow> 'm sys_scheme \<Rightarrow> bool" where
  "adds s n Q s' \<longleftrightarrow> (\<exists>new. calls s' = calls s @ new \<and> length (filter is_send new) \<le> n \<and>
     (\<forall>c\<in>set new. is_send c \<longrightarrow> Q c))"

lemma adds_refl: "calls s' = calls s \<Longrightarrow> adds s n Q s'"
  by (simp add: adds_def)

lemma adds_trans: "adds s a Q t \<Longrightarrow> adds t b Q u \<Longrightarrow> adds s (a + b) Q u"
  unfolding adds_def by (elim exE, rule_tac x = "new @ newa" in exI) auto

lemma adds_mono: "adds s a Q t \<Longrightarrow> a \<le> b \<Longrightarrow> (\<And>c. Q c \<Longrightarrow> Q' c) \<Longrightarrow> adds s b Q' t"
  unfolding adds_def by (meson le_trans)

lemma emits_adds:
  assumes "emits Q n m" "run_state m s = (x, s')"
  shows "adds s n Q s'"
  using emitsD [OF assms] by (simp add: adds_def list_all_iff)

lemma adds_subst: "adds s n Q t \<Longrightarrow> calls s' = calls s \<Longrightarrow> calls t' = calls t \<Longrightarrow> adds s' n Q t'"
  by (simp add: adds_def)

text \<open>Without a bound on the number of submissions the same is a preorder.\<close>

definition only_sends :: "(string \<times> json \<Rightarrow> bool) \<Rightarrow> 'm sys_scheme \<Rightarrow> 'm sys_scheme \<Rightarrow> bool" where
  "only_sends Q s t \<longleftrightarrow> (\<exists>new. calls t = calls s @ new \<and> (\<forall>c\<in>set new. is_send c \<longrightarrow> Q c))"

interpretation sending: step_preorder "only_sends Q"
proof unfold_locales
  fix s t u :: "'m sys_scheme"
  show "only_sends Q s s" by (simp add: only_sends_def)
  assume "only_sends Q s t" "only_sends Q t u"
  then obtain v w where "calls t = calls s @ v" "calls u = calls t @ w"
    "\<forall>c\<in>set v. is_send c \<longrightarrow> Q c" "\<forall>c\<in>set w. is_send c \<longrightarrow> Q c"
    unfolding only_sends_def by blast
  then show "only_sends Q s u" unfolding only_sends_def by (intro exI [of _ "v @ w"]) auto
qed

lemma emits_sending: "emits Q n m \<Longrightarrow> step_rel (only_sends Q) m"
  unfolding step_rel_def only_sends_def emits_def list_all_iff by blast

lemma only_sends_mono: "(\<And>c. Q c \<Longrightarrow> Q' c) \<Longrightarrow> step_rel (only_sends Q) m \<Longrightarrow> step_rel (only_sends Q') m"
  unfolding step_rel_def only_sends_def by blast

lemma quiet_sending: "keeps calls m \<Longrightarrow> step_rel (only_sends Q) m"
  by (rule emits_sending [OF emits_keeps_calls])

section \<open>The Ethereum client\<close>

lemma is_send_rpc_body [simp]:
  "is_send (url, rpc_body meth params) \<longleftrightarrow> meth = ''eth_sendRawTransaction''"
  by (simp add: is_send_def rpc_body_def)

lemma is_send_eth_call [simp]: "\<not> is_send (url, eth_call_body to data)"
  by (simp add: eth_call_body_def)

lemma keeps_post [keeps]: "keeps sys.more (post E url body)"
  by (simp add: keeps_def run_post)

lemma emits_post: "\<not> is_send (url, body) \<Longrightarrow> emits Q n (post E url body)"
  by (simp add: emits_def run_post)

lemma emits_post_send: "Q (url, body) \<Longrightarrow> emits Q 1 (post E url body)"
  by (simp add: emits_def run_post)

lemma keeps_sleep [keeps]: "keeps sys.more (sleep E d)" "keeps calls (sleep E d)"
  by (simp_all add: keeps_def run_sleep)

lemma keeps_db [keeps]: "keeps sys.more (db E)" "keeps calls (db E)"
  by (simp_all add: keeps_def run_db)

lemma emits_sleep [emits, simp]: "emits Q n (sleep E d)"
  by (rule emits_keeps_calls) (rule keeps)

lemma emits_db [emits, simp]: "emits Q n (db E)"
  by (rule emits_keeps_calls) (rule keeps)

lemmas fetch_defs =
  fetch_block_number_def fetch_logs_def fetch_logs_any_def fetch_block_timestamp_def
  fetch_address_view_def fetch_u256_view_def fetch_pool_depth_def fetch_max_rebalance_amount_def
  fetch_reserve_depth_def fetch_nonce_def fetch_gas_params_def fetch_balance_of_def

lemma fetch_keeps [keeps]:
  "keeps sys.more (fetch_block_number E u)"
  "keeps sys.more (fetch_logs E u a t b c)"
  "keeps sys.more (fetch_logs_any E u a ts b c)"
  "keeps sys.more (fetch_block_timestamp E u n)"
  "keeps sys.more (fetch_address_view E u a sel)"
  "keeps sys.more (fetch_u256_view E u a sel)"
  "keeps sys.more (fetch_pool_depth E u a sel)"
  "keeps sys.more (fetch_max_rebalance_amount E u a sel)"
  "keeps sys.more (fetch_reserve_depth E u a sel)"
  "keeps sys.more (fetch_nonce E u addr)"
  "keeps sys.more (fetch_gas_params E u)"
  "keeps sys.more (fetch_balance_of E u a h sel)"
  unfolding fetch_defs by (intro keeps)+

lemma fetch_emits [emits]:
  "emits Q 0 (fetch_block_number E u)"
  "emits Q 0 (fetch_logs E u a t b c)"
  "emits Q 0 (fetch_logs_any E u a ts b c)"
  "emits Q 0 (fetch_block_timestamp E u n)"
  "emits Q 0 (fetch_address_view E u a sel)"
  "emits Q 0 (fetch_u256_view E u a sel)"
  "emits Q 0 (fetch_pool_depth E u a sel)"
  "emits Q 0 (fetch_max_rebalance_amount E u a sel)"
  "emits Q 0 (fetch_reserve_depth E u a sel)"
  "emits Q 0 (fetch_nonce E u addr)"
  "emits Q 0 (fetch_gas_params E u)"
  "emits Q 0 (fetch_balance_of E u a h sel)"
  unfolding fetch_defs get_logs_body_def
  by (intro emits_then emits_post emits_ret emits_case; simp)+

lemma send_keeps [keeps]: "keeps sys.more (send_raw_transaction E u raw)"
  unfolding send_raw_transaction_def by (intro keeps)

lemma send_emits [emits]: "Q (u, send_body raw) \<Longrightarrow> emits Q 1 (send_raw_transaction E u raw)"
  unfolding send_raw_transaction_def
  by (intro emits_first emits_post_send emits_ret)

lemma receipt_loop_frame:
  "sys.more (snd (receipt_loop E u h d s)) = sys.more s \<and>
   (\<exists>new. calls (snd (receipt_loop E u h d s)) = calls s @ new \<and> filter is_send new = [])"
proof (induction E u h d s rule: receipt_loop.induct)
  case (1 E u h d s)
  have ns: "\<not> is_send (u, receipt_body h)" by (simp add: receipt_body_def)
  obtain r s1 where p: "run_state (post E u (receipt_body h)) s = (r, s1)" by fastforce
  then have s1: "sys.more s1 = sys.more s" "calls s1 = calls s @ [(u, receipt_body h)]"
    by (auto simp: run_post)
  show ?case
  proof (cases "d < now_ms s")
    case True
    then show ?thesis by (subst receipt_loop.simps, subst (2) receipt_loop.simps) simp
  next
    case False
    show ?thesis
    proof (cases "\<exists>resp. r = Inr resp \<and> receipt_status resp \<noteq> Some ''0x1'' \<and> receipt_status resp \<noteq> Some ''0x0''")
      case True
      let ?s2 = "snd (run_state (sleep E 500) s1)"
      have e: "receipt_loop E u h d s = receipt_loop E u h d ?s2"
        using False True p by (subst receipt_loop.simps) auto
      have s2: "sys.more ?s2 = sys.more s1" "calls ?s2 = calls s1" by (simp_all add: run_sleep)
      have "sys.more (snd (receipt_loop E u h d ?s2)) = sys.more ?s2 \<and>
         (\<exists>new. calls (snd (receipt_loop E u h d ?s2)) = calls ?s2 @ new \<and> filter is_send new = [])"
        using "1.IH" [OF False p [symmetric]] True by auto
      then show ?thesis using s1 s2 ns unfolding e by auto
    next
      case False2: False
      then have "snd (receipt_loop E u h d s) = s1"
        using False p by (subst receipt_loop.simps) (auto split: sum.split)
      then show ?thesis using s1 ns by auto
    qed
  qed
qed

lemma receipt_loop_more [simp]: "sys.more (snd (receipt_loop E u h d s)) = sys.more s"
  using receipt_loop_frame by blast

lemma receipt_loop_emits:
  "\<exists>new. calls (snd (receipt_loop E u h d s)) = calls s @ new \<and>
      length (filter is_send new) \<le> n \<and> list_all (\<lambda>c. is_send c \<longrightarrow> Q c) new"
proof -
  from receipt_loop_frame obtain new where
    "calls (snd (receipt_loop E u h d s)) = calls s @ new" "filter is_send new = []" by blast
  then show ?thesis by (intro exI [of _ new]) (auto simp: list_all_iff filter_empty_conv)
qed

lemma wait_keeps [keeps]:
  "keeps sys.more (wait_for_receipt E u h t)" "keeps sys.more (wait_for_receipt_logs E u h t)"
  by (simp_all add: keeps_def wait_for_receipt_def wait_for_receipt_logs_def)

lemma wait_emits [emits]:
  "emits Q n (wait_for_receipt E u h t)" "emits Q n (wait_for_receipt_logs E u h t)"
  unfolding emits_def wait_for_receipt_def wait_for_receipt_logs_def
  by (auto intro!: receipt_loop_emits)

section \<open>Projections of the extended records\<close>

text \<open>A component that depends on the extension of \<open>sys\<close> (or of \<open>signer\<close>) only.\<close>

definition beyond_sys :: "('m sys_scheme \<Rightarrow> 'b) \<Rightarrow> bool" where
  "beyond_sys f \<longleftrightarrow> (\<forall>s t. sys.more s = sys.more t \<longrightarrow> f s = f t)"

lemma keeps_beyond_sys: "beyond_sys f \<Longrightarrow> keeps sys.more m \<Longrightarrow> keeps f m"
  unfolding beyond_sys_def keeps_def by blast

lemma beyond_sys_nonce_cache: "beyond_sys nonce_cache"
  and beyond_sys_signer_more: "beyond_sys signer.more"
  unfolding beyond_sys_def
  subgoal by (intro allI impI, case_tac s, case_tac t, simp)
  subgoal by (intro allI impI, case_tac s, case_tac t, simp)
  done

definition beyond_signer :: "('m signer_scheme \<Rightarrow> 'b) \<Rightarrow> bool" where
  "beyond_signer f \<longleftrightarrow> (\<forall>s t. signer.more s = signer.more t \<longrightarrow> f s = f t)"

lemma keeps_beyond_signer: "beyond_signer f \<Longrightarrow> keeps signer.more m \<Longrightarrow> keeps f m"
  unfolding beyond_signer_def keeps_def by blast

lemmas keeps_signer_more [keeps] =
  keeps_post [THEN keeps_beyond_sys [OF beyond_sys_signer_more]]
  keeps_sleep(1) [THEN keeps_beyond_sys [OF beyond_sys_signer_more]]
  keeps_db(1) [THEN keeps_beyond_sys [OF beyond_sys_signer_more]]
  fetch_keeps [THEN keeps_beyond_sys [OF beyond_sys_signer_more]]
  send_keeps [THEN keeps_beyond_sys [OF beyond_sys_signer_more]]
  wait_keeps [THEN keeps_beyond_sys [OF beyond_sys_signer_more]]

section \<open>Submission and retry\<close>

lemma get_nonce_keeps [keeps]:
  "keeps sys.more (get_nonce E u c a)" "keeps signer.more (get_nonce E u c a)"
  unfolding get_nonce_def by (intro keeps)+

lemma get_nonce_emits [emits]: "emits Q 0 (get_nonce E u c a)"
  unfolding get_nonce_def by (intro emits_then emits_case emits_ret emits_gets emits)

lemma cache_keeps [keeps]:
  "keeps signer.more (cache_nonce c n)" "keeps calls (cache_nonce c n)"
  "keeps signer.more (flush_nonce c)" "keeps calls (flush_nonce c)"
  unfolding cache_nonce_def flush_nonce_def by (intro keeps_modify; simp)+

lemma cache_emits [emits]: "emits Q n (cache_nonce c k)" "emits Q n (flush_nonce c)"
  by (intro emits_keeps_calls keeps)+

lemma submit_tx_keeps [keeps]:
  "keeps signer.more (submit_tx E u contract c key addr gas val data)"
  unfolding submit_tx_def
  by (intro keeps)

definition signed_for ::
  "env \<Rightarrow> string \<Rightarrow> string \<Rightarrow> ChainId \<Rightarrow> byte list \<Rightarrow> u64 \<Rightarrow> byte list \<Rightarrow> byte list \<Rightarrow> string \<times> json \<Rightarrow> bool" where
  "signed_for E url contract chain_id signing_key gas_limit val call_data c \<longleftrightarrow>
     fst c = url \<and>
     (\<exists>nonce prio fee to raw. address_bytes contract = Inr to \<and>
        sign_eip1559_tx E chain_id nonce prio fee gas_limit to val call_data signing_key = Inr raw \<and>
        snd c = send_body raw)"

lemma submit_tx_emits [emits]:
  "emits (signed_for E u contract c key gas val data) 1 (submit_tx E u contract c key addr gas val data)"
  unfolding submit_tx_def
  by (intro emits_then emits_case emits_ret emits cache_emits send_emits)
    (auto simp: signed_for_def)

text \<open>
  The other direction: when the node answers the nonce and the gas price queries, the contract
  address is well formed and the key signs, a submission does send its transaction.
\<close>

definition can_submit :: "env \<Rightarrow> string \<Rightarrow> string \<Rightarrow> byte list \<Rightarrow> Address \<Rightarrow> bool" where
  "can_submit E rpc contract key addr \<longleftrightarrow>
     (\<exists>to. address_bytes contract = Inr to) \<and>
     (\<forall>n. \<exists>v. quantity ''nonce'' (http_post E n rpc
        (rpc_body ''eth_getTransactionCount'' [JStr (hex_0x addr), JStr ''pending''])) = Inr v) \<and>
     (\<forall>n. \<exists>v. quantity ''gasPrice'' (http_post E n rpc (rpc_body ''eth_gasPrice'' [])) = Inr v) \<and>
     (\<forall>h. \<exists>sig. sign_prehash E key h = Inr sig)"

definition sent :: "'m sys_scheme \<Rightarrow> (string \<times> json \<Rightarrow> bool) \<Rightarrow> 'm sys_scheme \<Rightarrow> bool" where
  "sent s Q s' \<longleftrightarrow> (\<exists>new. calls s' = calls s @ new \<and> (\<exists>c\<in>set new. is_send c \<and> Q c))"

lemma sent_adds: "sent s Q t \<Longrightarrow> adds t n P u \<Longrightarrow> sent s Q u"
  unfolding sent_def adds_def by auto

lemma adds_sent: "adds s n P t \<Longrightarrow> sent t Q u \<Longrightarrow> sent s Q u"
  unfolding sent_def adds_def by auto

lemma sign_total:
  assumes "\<forall>h. \<exists>sig. sign_prehash E key h = Inr sig"
  obtains raw where "sign_eip1559_tx E c n p f g to v d key = Inr raw"
proof -
  obtain r t v' where "sign_prehash E key (keccak256 E (2 # build_tx_rlp c n p f g to v d)) = Inr (r, t, v')"
    using assms by (metis prod_cases3)
  then show ?thesis using that by (simp add: sign_eip1559_tx_def Let_def)
qed

lemma submit_tx_sends:
  assumes "can_submit E u contract key addr"
  shows "sent s (signed_for E u contract c key gas val data)
    (snd (run_state (submit_tx E u contract c key addr gas val data) s))"
proof -
  obtain to where to: "address_bytes contract = Inr to" using assms by (auto simp: can_submit_def)
  obtain n s1 where n: "run_state (get_nonce E u c addr) s = (Inr n, s1)"
    using assms unfolding can_submit_def get_nonce_def fetch_nonce_def
    by (cases "nonce_cache s c") (simp_all add: run_post, metis)
  obtain f p s2 where g: "run_state (fetch_gas_params E u) s1 = (Inr (f, p), s2)"
    using assms unfolding can_submit_def fetch_gas_params_def
    by (simp add: run_post Let_def) (metis map_sum.simps(2))
  obtain raw where raw: "sign_eip1559_tx E c n p f gas to val data key = Inr raw"
    using assms sign_total unfolding can_submit_def by blast
  let ?s3 = "snd (run_state (cache_nonce c (n + 1)) s2)"
  have "snd (run_state (submit_tx E u contract c key addr gas val data) s) =
      snd (run_state (send_raw_transaction E u raw) ?s3)"
    by (simp add: submit_tx_def n g to raw split_beta)
  moreover have "sent ?s3 (signed_for E u contract c key gas val data)
      (snd (run_state (send_raw_transaction E u raw) ?s3))"
    using to raw by (auto simp: sent_def send_raw_transaction_def run_post signed_for_def send_body_def)
  moreover have "adds s 0 (\<lambda>_. True) s1" using get_nonce_emits n by (rule emits_adds)
  moreover have "adds s1 0 (\<lambda>_. True) s2" using fetch_emits(11) g by (rule emits_adds)
  moreover have "adds s2 0 (\<lambda>_. True) ?s3" by (rule emits_adds [OF cache_emits(1) surjective_pairing])
  ultimately show ?thesis by (metis adds_sent)
qed

lemma retry_keeps [keeps]:
  assumes "keeps signer.more act"
  shows "keeps signer.more (retry_loop E c act n d)"
proof (induction n arbitrary: d)
  case (Suc n)
  show ?case
    unfolding retry_loop.simps by (intro keeps assms Suc)
qed simp

lemma retry_emits:
  assumes "emits Q 1 act"
  shows "emits Q n (retry_loop E c act n d)"
proof (induction n arbitrary: d)
  case (Suc n)
  show ?case
    unfolding retry_loop.simps
    by (rule emits_bind [where a = 1 and b = n])
      (auto intro!: Suc assms [unfolded One_nat_def] emits_then emits_case cache_emits)
qed simp

lemma retry_sends:
  assumes "emits Q 1 act" "sent s Q (snd (run_state act s))" "0 < n"
  shows "sent s Q (snd (run_state (retry_loop E c act n d) s))"
proof -
  obtain k where k: "n = Suc k" using assms(3) by (cases n) auto
  obtain r s1 where r: "run_state act s = (r, s1)" by fastforce
  have s1: "sent s Q s1" using assms(2) r by simp
  show ?thesis
  proof (cases r)
    case (Inr x)
    then show ?thesis using s1 k r by simp
  next
    case (Inl e)
    have "emits Q k (State_Monad.bind (flush_nonce c) (\<lambda>_. State_Monad.bind
        (if 0 < k then sleep E d else ret ()) (\<lambda>_. retry_loop E c act k (d * 2))))"
      by (intro emits_then emits_if cache_emits emits_sleep emits_ret retry_emits assms(1))
    from emits_adds [OF this surjective_pairing, of s1] sent_adds [OF s1] show ?thesis
      using Inl k r by simp
  qed
qed

lemma with_retry_keeps [keeps]: "keeps signer.more act \<Longrightarrow> keeps signer.more (with_retry E c act n)"
  unfolding with_retry_def by (intro keeps)

lemma with_retry_emits: "emits Q 1 act \<Longrightarrow> emits Q n (with_retry E c act n)"
  unfolding with_retry_def by (intro emits_first retry_emits emits_ret)

lemma with_retry_error:
  "run_state (with_retry E c act n) s = (Inl e, s') \<Longrightarrow> e = RetryExhausted n"
  by (auto simp: with_retry_def split: prod.splits option.splits)

section \<open>Handlers that run once per key\<close>

text \<open>
  A handler first asks the database whether its key is recorded and does nothing if it is. What the
  hot path and the watcher rely on, and what follows from it: a recorded key costs one query and
  nothing else, and during a database outage the handler runs again.
\<close>

locale once_store =
  fixes seen :: "env \<Rightarrow> 'k \<Rightarrow> ('m sys_scheme, bool) state"
    and row :: "'m sys_scheme \<Rightarrow> 'k \<Rightarrow> 'r option"
  assumes run_seen: "run_state (seen E k) s = (db_up E (tick s) \<and> row s k \<noteq> None, tick_on E 0 s)"
begin

lemma recorded_noop:
  assumes "row s k \<noteq> None" "db_up E (tick s)"
  shows "run_state (State_Monad.bind (seen E k) (\<lambda>b. if b then ret () else body)) s = ((), tick_on E 0 s)"
  using assms by (simp add: run_seen)

lemma otherwise_runs:
  assumes "row s k = None \<or> \<not> db_up E (tick s)"
  shows "run_state (State_Monad.bind (seen E k) (\<lambda>b. if b then ret () else body)) s =
    run_state body (tick_on E 0 s)"
  using assms by (auto simp: run_seen)

end

section \<open>A world for concrete runs\<close>

text \<open>
  The witnesses run the modules in this world: a node that gives one fixed answer to each JSON-RPC
  method, a database that is always reachable and a toy signature. \<open>start\<close> is the state of the world
  at the start.
\<close>

definition method_of :: "json \<Rightarrow> string" where
  "method_of body = (case Option.bind (jget body ''method'') as_str of Some m \<Rightarrow> m | None \<Rightarrow> [])"

definition sample_env :: "(string \<Rightarrow> json) \<Rightarrow> env" where
  "sample_env answer =
     \<lparr>http_post = (\<lambda>n url body. Inr (JObj [(''result'', answer (method_of body))])),
      http_get = (\<lambda>n url. Inl ''unreachable''),
      db_up = (\<lambda>n. True), latency = (\<lambda>n. 0),
      keccak256 = (\<lambda>bs. replicate 32 (of_nat (length bs))),
      sign_prehash = (\<lambda>key h. Inr (replicate 32 1, replicate 32 2, 0)),
      json_text = (\<lambda>j. []), u256_from_str = (\<lambda>s. ok (from_str_radix 10 s)), hash_order = id\<rparr>"

lemma sample_db_up [simp]: "db_up (sample_env a) n"
  by (simp add: sample_env_def)

lemma sample_db_always: "\<forall>n. db_up (sample_env f) n"
  by (simp add: sample_env_def)

definition sample_config :: Config where
  "sample_config =
     \<lparr>rpc_urls = [(1, ''a''), (2, ''b'')],
      contract_addresses = [(1, hex_0x (replicate 20 1)), (2, hex_0x (replicate 20 2))],
      route_receiver_address = hex_0x (replicate 20 9), watcher_rpc_urls = None,
      cold_path_min_bps = 8000, cold_path_target_bps = 0, cold_path_max_wei = [], ccip_fee_wei = ''0'',
      index_from_blocks = None, user_service_addr = None, decommission_admin_token = None,
      decommission_orchestrator_token = None, decommission_index_head_tolerance_blocks = 10,
      decommission_dust_tolerance_wei = [], reserve_path_min_bps = 8000, reserve_path_max_wei = [],
      reserve_bridge_fee_wei = ''0'', reserve_path_stuck_timeout_secs = 1800,
      reserve_bridge_addresses = None, cctp_domains = None, circle_attestation_api_url = []\<rparr>"

definition quantity_answer :: "string \<Rightarrow> json" where
  "quantity_answer m = JStr ''0x10''"

lemma parse_0x10: "from_str_radix 16 (trim_0x ''0x10'') = Inr (16 :: u64)"
proof -
  have "show_hex (unat (16 :: u64)) = ''10''" by simp code_simp
  then show ?thesis using from_str_radix_show [of 16 "16 :: u64"] by simp
qed

lemma sample_can_submit:
  assumes "length a = 20"
  shows "can_submit (sample_env quantity_answer) u (hex_0x a) key addr"
  using assms
  by (simp add: can_submit_def address_bytes_def sample_env_def quantity_answer_def quantity_def
      jindex_def parse_0x10 del: trim_0x.simps)

end
