(* ===== verification/Route.thy ===== *)
theory Route
  imports Effects
begin

text \<open>
  The view of the RouteReceiver contract that the hot path, the cold path and the reserve path each
  keep: the active set of the latest \<open>ActivationPublished\<close> event and the chains finalised as
  decommissioned. The three modules hold separate copies of this state and run the same loop
  \<open>poll_route_receiver_loop\<close>; the hot path's copy scans from its last block without the clamp to
  2000 blocks that the other two apply, which is the argument \<open>clamp\<close> here. One round of the loop is
  one step; the loop ends only by a panic, the value \<open>Panic\<close>.
\<close>

section \<open>State\<close>

record router = signer +
  active_chains :: "ChainId set"
  decommissioned_chains :: "ChainId set"
  relayer_key :: "byte list option"
  relayer_address :: "Address option"
  route_last_block :: u64

text \<open>The active set before the first activation event: every configured chain.\<close>

definition initial_active :: "Config \<Rightarrow> ChainId set" where
  "initial_active cfg = set (map fst (rpc_urls cfg))"

definition is_chain_active :: "'m router_scheme \<Rightarrow> ChainId \<Rightarrow> bool" where
  "is_chain_active s chain_id \<longleftrightarrow> chain_id \<in> active_chains s \<and> chain_id \<notin> decommissioned_chains s"

definition is_chain_decommissioned :: "'m router_scheme \<Rightarrow> ChainId \<Rightarrow> bool" where
  "is_chain_decommissioned s chain_id \<longleftrightarrow> chain_id \<in> decommissioned_chains s"

section \<open>One round of the loop\<close>

definition MAX_BLOCK_RANGE :: u64 where
  "MAX_BLOCK_RANGE = 2000"

definition clamp_from :: "u64 \<Rightarrow> u64 \<Rightarrow> u64" where
  "clamp_from scan_from to_block = max scan_from (saturating_sub to_block MAX_BLOCK_RANGE)"

fun apply_activations :: "RpcLog list \<Rightarrow> ('m router_scheme, unit outcome) state" where
  "apply_activations [] = ret (Ret ())"
| "apply_activations (log # logs) =
     (case decode_active_chains_from_event (log_data log) of
        Panic \<Rightarrow> ret Panic
      | Ret None \<Rightarrow> apply_activations logs
      | Ret (Some ids) \<Rightarrow> do {
          modify (\<lambda>s. s\<lparr>active_chains := ids\<rparr>);
          apply_activations logs
        })"

fun apply_decommissions :: "RpcLog list \<Rightarrow> ('m router_scheme, unit) state" where
  "apply_decommissions [] = ret ()"
| "apply_decommissions (log # logs) =
     (if length (topics log) < 2 then apply_decommissions logs
      else
        (case decode_indexed_u64_topic (topics log ! 1) of
           None \<Rightarrow> apply_decommissions logs
         | Some chain \<Rightarrow> do {
             modify (\<lambda>s. s\<lparr>decommissioned_chains := insert chain (decommissioned_chains s)\<rparr>);
             modify (\<lambda>s. s\<lparr>active_chains := active_chains s - {chain}\<rparr>);
             apply_decommissions logs
           }))"

definition activation_topic :: "env \<Rightarrow> string" where
  "activation_topic E =
     event_topic E ''ActivationPublished(string,string,string,uint256,string,string,uint256)''"

definition decommission_finalized_topic :: "env \<Rightarrow> string" where
  "decommission_finalized_topic E = event_topic E ''ChainDecommissionFinalized(uint256)''"

definition route_round :: "env \<Rightarrow> Config \<Rightarrow> bool \<Rightarrow> ('m router_scheme, unit outcome) state" where
  "route_round E cfg clamp =
     (case rpc_urls cfg of
        [] \<Rightarrow> ret (Ret ())
      | (_, rpc_url) # _ \<Rightarrow> do {
          b \<leftarrow> fetch_block_number E rpc_url;
          (case b of
             None \<Rightarrow> ret (Ret ())
           | Some to_block \<Rightarrow> do {
               last_block \<leftarrow> gets route_last_block;
               let frm = (if last_block = 0 then to_block else last_block);
               let scan_from = (if clamp then clamp_from frm to_block else frm);
               logs \<leftarrow> fetch_logs E rpc_url (route_receiver_address cfg) (activation_topic E)
                         scan_from to_block;
               r \<leftarrow> apply_activations logs;
               (case r of
                  Panic \<Rightarrow> ret Panic
                | Ret _ \<Rightarrow> do {
                    decommission_logs \<leftarrow> fetch_logs E rpc_url (route_receiver_address cfg)
                      (decommission_finalized_topic E) scan_from to_block;
                    apply_decommissions decommission_logs;
                    modify (\<lambda>s. s\<lparr>route_last_block := to_block + 1\<rparr>);
                    ret (Ret ())
                  })
             })
        })"

section \<open>Facts\<close>

lemma apply_activations_keeps:
  "keeps calls (apply_activations logs)" "keeps decommissioned_chains (apply_activations logs)"
  by (induction logs)
    (auto intro!: keeps keeps_modify keeps_outcome keeps_option split: outcome.split option.split)

lemma apply_decommissions_keeps: "keeps calls (apply_decommissions logs)"
  by (induction logs) (auto intro!: keeps keeps_modify split: option.split)

interpretation decommission_grows:
  step_preorder "\<lambda>s t :: 'm router_scheme. decommissioned_chains s \<subseteq> decommissioned_chains t"
  by unfold_locales auto

lemma beyond_sys_router:
  "beyond_sys (decommissioned_chains :: 'm router_scheme \<Rightarrow> _)"
  "beyond_sys (active_chains :: 'm router_scheme \<Rightarrow> _)"
  "beyond_sys (router.more :: 'm router_scheme \<Rightarrow> _)"
  unfolding beyond_sys_def
  subgoal by (intro allI impI, case_tac s, case_tac t, simp)
  subgoal by (intro allI impI, case_tac s, case_tac t, simp)
  subgoal by (intro allI impI, case_tac s, case_tac t, simp)
  done

lemma apply_decommissions_grows:
  "step_rel (\<lambda>s t. decommissioned_chains s \<subseteq> decommissioned_chains t) (apply_decommissions logs)"
  by (induction logs)
    (auto intro!: decommission_grows.rules step_rel_modify split: option.split)

lemma apply_activations_grows:
  "step_rel (\<lambda>s t. decommissioned_chains s \<subseteq> decommissioned_chains t) (apply_activations logs)"
  by (rule decommission_grows.from_keeps [OF _ apply_activations_keeps(2)]) simp

lemma decommission_kept:
  fixes m :: "('m router_scheme, 'a) state"
  assumes "keeps sys.more m"
  shows "step_rel (\<lambda>s t. decommissioned_chains s \<subseteq> decommissioned_chains t) m"
  by (rule decommission_grows.from_keeps [OF _ keeps_beyond_sys [OF beyond_sys_router(1) assms]]) simp

lemma route_round_grows:
  "step_rel (\<lambda>s t. decommissioned_chains s \<subseteq> decommissioned_chains t) (route_round E cfg clamp)"
  unfolding route_round_def Let_def
  by (auto intro!: decommission_grows.rules fetch_keeps [THEN decommission_kept] apply_activations_grows
      apply_decommissions_grows step_rel_modify split: list.split)

lemma apply_emits: "emits Q n (apply_activations logs)" "emits Q n (apply_decommissions logs)"
  by (intro emits_keeps_calls apply_activations_keeps apply_decommissions_keeps)+

lemma route_round_emits: "emits Q 0 (route_round E cfg clamp)"
  unfolding route_round_def Let_def
  by (auto intro!: emits_then emits_case emits_outcome emits emits_modify apply_emits split: list.split)

text \<open>What the two passes over the logs compute.\<close>

definition activation_sets :: "RpcLog list \<Rightarrow> ChainId set list" where
  "activation_sets logs = filter_map (\<lambda>log.
     case decode_active_chains_from_event (log_data log) of Ret r \<Rightarrow> r | Panic \<Rightarrow> None) logs"

definition decommission_ids :: "RpcLog list \<Rightarrow> ChainId list" where
  "decommission_ids logs = filter_map (\<lambda>log.
     if length (topics log) < 2 then None else decode_indexed_u64_topic (topics log ! 1)) logs"

lemma last_fold: "last (a # xs) = fold (\<lambda>x _. x) xs a"
  by (induction xs arbitrary: a) auto

lemma apply_activations_run:
  "fst (run_state (apply_activations logs) s) = Ret () \<Longrightarrow>
     snd (run_state (apply_activations logs) s) =
       s\<lparr>active_chains := last (active_chains s # activation_sets logs)\<rparr>"
  unfolding last_fold
  by (induction logs arbitrary: s)
    (simp_all add: activation_sets_def split: outcome.split_asm option.split_asm)

lemma apply_decommissions_run:
  "snd (run_state (apply_decommissions logs) s) =
     s\<lparr>decommissioned_chains := decommissioned_chains s \<union> set (decommission_ids logs),
       active_chains := active_chains s - set (decommission_ids logs)\<rparr>"
  by (induction logs arbitrary: s)
    (simp_all add: decommission_ids_def Diff_insert2 [symmetric] split: option.split)

lemma apply_keeps_more:
  "keeps router.more (apply_activations logs)" "keeps router.more (apply_decommissions logs)"
  by (induction logs) (auto intro!: keeps keeps_modify split: outcome.split option.split)

lemmas fetch_keeps_router = fetch_keeps [THEN keeps_beyond_sys [OF beyond_sys_router(3)]]

lemma route_round_keeps: "keeps router.more (route_round E cfg clamp)"
  unfolding route_round_def Let_def
  by (auto intro!: keeps keeps_modify apply_keeps_more fetch_keeps_router split: list.split)

end
