(* ===== verification/Table.thy ===== *)
theory Table
  imports Prelude
begin

text \<open>
  Database tables with a unique text key. A table is the list of its rows in insertion order
  (the \<open>BIGSERIAL\<close> order). Two statements of the repositories act on a keyed table:
  \<open>INSERT ... ON CONFLICT (key) DO NOTHING\<close> and \<open>UPDATE ... WHERE key = k\<close>. The locale states what
  the services rely on and derives what follows from it for any such table; each repository
  theory interprets it on its own statements.
\<close>

definition find_row :: "('r \<Rightarrow> 'k) \<Rightarrow> 'k \<Rightarrow> 'r list \<Rightarrow> 'r option" where
  "find_row key k t = find (\<lambda>r. key r = k) t"

definition insert_row :: "('r \<Rightarrow> 'k) \<Rightarrow> 'r \<Rightarrow> 'r list \<Rightarrow> 'r list" where
  "insert_row key r t = (if key r \<in> key ` set t then t else t @ [r])"

definition update_rows :: "('r \<Rightarrow> 'k) \<Rightarrow> 'k \<Rightarrow> ('r \<Rightarrow> 'r) \<Rightarrow> 'r list \<Rightarrow> 'r list" where
  "update_rows key k f t = map (\<lambda>r. if key r = k then f r else r) t"

definition unique_key :: "('r \<Rightarrow> 'k) \<Rightarrow> 'r list \<Rightarrow> bool" where
  "unique_key key t = distinct (map key t)"

lemma find_row_None_iff: "find_row key k t = None \<longleftrightarrow> k \<notin> key ` set t"
  by (auto simp: find_row_def find_None_iff)

lemma find_row_Some_key: "find_row key k t = Some r \<Longrightarrow> key r = k \<and> r \<in> set t"
  by (auto simp: find_row_def find_Some_iff)

lemma find_row_append:
  "find_row key k (t @ u) = (case find_row key k t of None \<Rightarrow> find_row key k u | Some r \<Rightarrow> Some r)"
  by (induction t) (auto simp: find_row_def)

lemma find_row_single: "find_row key k [r] = (if key r = k then Some r else None)"
  by (simp add: find_row_def)

lemma find_row_insert_row:
  "find_row key k (insert_row key r t) =
     (case find_row key k t of Some old \<Rightarrow> Some old | None \<Rightarrow> if key r = k then Some r else None)"
proof (cases "key r \<in> key ` set t")
  case True
  then have "find_row key (key r) t \<noteq> None" by (simp add: find_row_None_iff)
  with True show ?thesis by (auto simp: insert_row_def split: option.split)
next
  case False
  then have "insert_row key r t = t @ [r]" by (simp add: insert_row_def)
  then show ?thesis
    by (simp add: find_row_append find_row_single split: option.split)
qed

lemma find_row_update_rows:
  assumes "\<And>r. key (f r) = key r"
  shows "find_row key k (update_rows key j f t) =
    (if k = j then map_option f (find_row key k t) else find_row key k t)"
  using assms by (induction t) (auto simp: update_rows_def find_row_def)

lemma unique_key_insert_row: "unique_key key t \<Longrightarrow> unique_key key (insert_row key r t)"
  by (auto simp: unique_key_def insert_row_def)

lemma unique_key_update_rows:
  assumes "\<And>r. key (f r) = key r"
  shows "unique_key key (update_rows key k f t) = unique_key key t"
proof -
  have "map key (update_rows key k f t) = map key t"
    using assms by (simp add: update_rows_def)
  then show ?thesis by (simp add: unique_key_def)
qed

lemma unique_key_eq: "unique_key key xs \<Longrightarrow> a \<in> set xs \<Longrightarrow> b \<in> set xs \<Longrightarrow> key a = key b \<Longrightarrow> a = b"
  unfolding unique_key_def by (metis distinct_map inj_onD)

lemma find_row_unique: "unique_key key xs \<Longrightarrow> a \<in> set xs \<Longrightarrow> find_row key (key a) xs = Some a"
  using find_row_None_iff [of key "key a" xs] find_row_Some_key [of key "key a" xs]
  by (cases "find_row key (key a) xs") (auto dest: unique_key_eq)

lemma unique_key_filter: "unique_key key xs \<Longrightarrow> unique_key key (filter P xs)"
  by (simp add: unique_key_def distinct_map_filter)

section \<open>The interface\<close>

locale keyed_table =
  fixes key :: "'r \<Rightarrow> 'k"
    and lookup :: "'k \<Rightarrow> 't \<Rightarrow> 'r option"
    and insert_new :: "'r \<Rightarrow> 't \<Rightarrow> 't"
    and wf :: "'t \<Rightarrow> bool"
  assumes lookup_insert: "lookup k (insert_new r t) =
      (case lookup k t of Some old \<Rightarrow> Some old | None \<Rightarrow> if key r = k then Some r else None)"
    and wf_insert: "wf t \<Longrightarrow> wf (insert_new r t)"
begin

lemma insert_keeps: "lookup k t = Some old \<Longrightarrow> lookup k (insert_new r t) = Some old"
  by (simp add: lookup_insert)

lemma insert_fresh: "lookup (key r) t = None \<Longrightarrow> lookup (key r) (insert_new r t) = Some r"
  by (simp add: lookup_insert)

lemma insert_other: "key r \<noteq> k \<Longrightarrow> lookup k (insert_new r t) = lookup k t"
  by (simp add: lookup_insert split: option.split)

lemma insert_recorded: "lookup (key r) (insert_new r t) \<noteq> None"
  by (simp add: lookup_insert split: option.split)

lemma first_insert_wins:
  assumes "lookup (key r) t = None"
  shows "lookup (key r) (fold insert_new rs (insert_new r t)) = Some r"
proof -
  have "lookup k (fold insert_new rs u) = Some old" if "lookup k u = Some old" for k u old
    using that by (induction rs arbitrary: u) (auto simp: insert_keeps)
  then show ?thesis using insert_fresh [OF assms] by blast
qed

lemma wf_fold: "wf t \<Longrightarrow> wf (fold insert_new rs t)"
  by (induction rs arbitrary: t) (auto simp: wf_insert)

end

text \<open>A table whose rows can also be changed in place, without changing their key.\<close>

locale mutable_table = keyed_table +
  fixes modify :: "'k \<Rightarrow> ('r \<Rightarrow> 'r) \<Rightarrow> 't \<Rightarrow> 't"
  assumes lookup_modify: "(\<And>r. key (f r) = key r) \<Longrightarrow>
      lookup k (modify j f t) = (if k = j then map_option f (lookup k t) else lookup k t)"
    and wf_modify: "(\<And>r. key (f r) = key r) \<Longrightarrow> wf t \<Longrightarrow> wf (modify j f t)"
begin

lemma modify_absent: "(\<And>r. key (f r) = key r) \<Longrightarrow> lookup k t = None \<Longrightarrow> lookup k (modify j f t) = None"
  by (auto simp: lookup_modify)

lemma modify_after_insert:
  assumes "\<And>r. key (f r) = key r" "lookup (key r) t = None"
  shows "lookup (key r) (modify (key r) f (insert_new r t)) = Some (f r)"
  using assms by (simp add: lookup_modify insert_fresh)

end

interpretation row_list: mutable_table key "find_row key" "insert_row key" "unique_key key" "update_rows key"
  for key :: "'r \<Rightarrow> 'k"
  by unfold_locales
    (auto simp: find_row_insert_row find_row_update_rows unique_key_insert_row unique_key_update_rows)

end
