(* ===== verification/UserDb.thy ===== *)
theory UserDb
  imports Steps Table
begin

text \<open>
  The user service below its gRPC handlers: the validated value types (\<open>domain/validation.rs\<close>), the
  entities and errors (\<open>domain/entities.rs\<close>, \<open>domain/errors.rs\<close>), and the PostgreSQL repositories
  (\<open>db/mod.rs\<close>, \<open>db/users.rs\<close>, \<open>db/credentials.rs\<close>) over the tables of the migrations.

  Handlers run concurrently. One SQL statement is atomic; before each statement the other handlers
  (or other instances of the service) may have changed the tables, which is the function \<open>others\<close> of
  the environment, applied to the tables as they are then. What the claims rely on about \<open>others\<close> is what they
  guarantee themselves: the relation \<open>evolves\<close> and the invariant \<open>wf_tables\<close>. A statement that
  fails leaves the tables alone.
\<close>

section \<open>Validation (validation.rs)\<close>

datatype TempoAddress = TempoAddress (addr_str: string)

datatype Username = Username (name_str: string)

datatype DomainError =
    LastActiveCredential
  | CredentialNotFound
  | UserNotFound
  | AlreadyExists
  | InvalidTempoAddress
  | InvalidUsername
  | UsernameTaken
  | Infrastructure string

definition in_range :: "char \<Rightarrow> char \<Rightarrow> char \<Rightarrow> bool" where
  "in_range a b c \<longleftrightarrow> (of_char a :: nat) \<le> of_char c \<and> (of_char c :: nat) \<le> of_char b"

definition is_hex_char :: "char \<Rightarrow> bool" where
  "is_hex_char c \<longleftrightarrow> in_range CHR ''0'' CHR ''9'' c \<or> in_range CHR ''a'' CHR ''f'' c \<or> in_range CHR ''A'' CHR ''F'' c"

definition is_letter :: "char \<Rightarrow> bool" where
  "is_letter c \<longleftrightarrow> in_range CHR ''a'' CHR ''z'' c \<or> in_range CHR ''A'' CHR ''Z'' c"

text \<open>\<open>^0x[0-9a-fA-F]{40}$\<close>\<close>

definition valid_tempo_address :: "string \<Rightarrow> bool" where
  "valid_tempo_address s \<longleftrightarrow> take 2 s = ''0x'' \<and> length s = 42 \<and> list_all is_hex_char (drop 2 s)"

text \<open>\<open>^[a-zA-Z][a-zA-Z0-9_]{2,19}$\<close>\<close>

definition valid_username :: "string \<Rightarrow> bool" where
  "valid_username s =
     (case s of
        [] \<Rightarrow> False
      | c # rest \<Rightarrow> is_letter c \<and> 2 \<le> length rest \<and> length rest \<le> 19 \<and>
          list_all (\<lambda>d. is_letter d \<or> in_range CHR ''0'' CHR ''9'' d \<or> d = CHR ''_'') rest)"

definition tempo_address_try_from :: "string \<Rightarrow> DomainError + TempoAddress" where
  "tempo_address_try_from s = (if valid_tempo_address s then Inr (TempoAddress s) else Inl InvalidTempoAddress)"

definition username_try_from :: "string \<Rightarrow> DomainError + Username" where
  "username_try_from s = (if valid_username s then Inr (Username s) else Inl InvalidUsername)"

section \<open>Entities (entities.rs)\<close>

type_synonym Uuid = "128 word"
type_synonym DateTime = nat

datatype UserStatus = Active | Inactive

fun user_status_str :: "UserStatus \<Rightarrow> string" where
  "user_status_str Active = ''active''"
| "user_status_str Inactive = ''inactive''"

definition user_status_from_str :: "string \<Rightarrow> string + UserStatus" where
  "user_status_from_str s =
     (if s = ''active'' then Inr Active
      else if s = ''inactive'' then Inr Inactive
      else Inl (''unknown user status: '' @ s))"

definition status_or_active :: "string \<Rightarrow> UserStatus" where
  "status_or_active s = (case user_status_from_str s of Inr v \<Rightarrow> v | Inl _ \<Rightarrow> Active)"

record User =
  us_id :: Uuid
  us_display_name :: string
  us_username :: "Username option"
  us_status :: UserStatus
  us_created_at :: DateTime
  us_updated_at :: DateTime

record Credential =
  cd_id :: Uuid
  cd_user_id :: Uuid
  cd_credential_id :: "byte list"
  cd_public_key :: "byte list"
  cd_tempo_address :: TempoAddress
  cd_revoked_at :: "DateTime option"
  cd_created_at :: DateTime

definition user_new :: "Uuid \<Rightarrow> string option \<Rightarrow> DateTime \<Rightarrow> User" where
  "user_new id' display_name now =
     \<lparr>us_id = id', us_display_name = (case display_name of Some n \<Rightarrow> n | None \<Rightarrow> []), us_username = None,
      us_status = Active, us_created_at = now, us_updated_at = now\<rparr>"

text \<open>The row id and the time come from the random source and the clock.\<close>

definition credential_new ::
  "Uuid \<Rightarrow> DateTime \<Rightarrow> Uuid \<Rightarrow> byte list \<Rightarrow> byte list \<Rightarrow> string \<Rightarrow> DomainError + Credential" where
  "credential_new fresh now user_id credential_id public_key tempo_address =
     (case tempo_address_try_from tempo_address of
        Inl e \<Rightarrow> Inl e
      | Inr addr \<Rightarrow> Inr \<lparr>cd_id = fresh, cd_user_id = user_id, cd_credential_id = credential_id,
          cd_public_key = public_key, cd_tempo_address = addr, cd_revoked_at = None, cd_created_at = now\<rparr>)"

definition user_add_credential ::
  "Uuid \<Rightarrow> DateTime \<Rightarrow> User \<Rightarrow> byte list \<Rightarrow> byte list \<Rightarrow> string \<Rightarrow> DomainError + Credential" where
  "user_add_credential fresh now user credential_id public_key tempo_address =
     credential_new fresh now (us_id user) credential_id public_key tempo_address"

definition credential_is_active :: "Credential \<Rightarrow> bool" where
  "credential_is_active c \<longleftrightarrow> cd_revoked_at c = None"

record CredentialAuthLookup =
  ca_user_id :: Uuid
  ca_display_name :: string
  ca_username :: "Username option"
  ca_status :: UserStatus
  ca_tempo_address :: TempoAddress
  ca_public_key :: "byte list"
  ca_revoked :: bool

record UserWithCredential =
  uc_user_id :: Uuid
  uc_display_name :: string
  uc_username :: "Username option"
  uc_status :: UserStatus
  uc_created_at :: DateTime
  uc_tempo_address :: TempoAddress

section \<open>Tables\<close>

record UserRow =
  ur_id :: Uuid
  ur_display_name :: string
  ur_username :: "string option"
  ur_status :: string
  ur_home_chain :: "int option"
  ur_created_at :: DateTime
  ur_updated_at :: DateTime

record CredentialRow =
  cr_id :: Uuid
  cr_user_id :: Uuid
  cr_credential_id :: "byte list"
  cr_public_key :: "byte list"
  cr_tempo_address :: string
  cr_revoked_at :: "DateTime option"
  cr_created_at :: DateTime

record home_chain_audit_row =
  ha_tempo_address :: string
  ha_previous_chain :: "int option"
  ha_new_chain :: int
  ha_operator :: string
  ha_reason :: string
  ha_created_at :: DateTime

record tables =
  users :: "UserRow list"
  credentials :: "CredentialRow list"
  home_chain_audit :: "home_chain_audit_row list"

definition user_of_row :: "UserRow \<Rightarrow> User" where
  "user_of_row row =
     \<lparr>us_id = ur_id row, us_display_name = ur_display_name row,
      us_username = map_option Username (ur_username row), us_status = status_or_active (ur_status row),
      us_created_at = ur_created_at row, us_updated_at = ur_updated_at row\<rparr>"

definition credential_of_row :: "CredentialRow \<Rightarrow> Credential" where
  "credential_of_row row =
     \<lparr>cd_id = cr_id row, cd_user_id = cr_user_id row, cd_credential_id = cr_credential_id row,
      cd_public_key = cr_public_key row, cd_tempo_address = TempoAddress (cr_tempo_address row),
      cd_revoked_at = cr_revoked_at row, cd_created_at = cr_created_at row\<rparr>"

definition user_with_credential :: "CredentialRow \<times> UserRow \<Rightarrow> UserWithCredential" where
  "user_with_credential p = (case p of (c, u) \<Rightarrow>
     \<lparr>uc_user_id = ur_id u, uc_display_name = ur_display_name u,
      uc_username = map_option Username (ur_username u), uc_status = status_or_active (ur_status u),
      uc_created_at = ur_created_at u, uc_tempo_address = TempoAddress (cr_tempo_address c)\<rparr>)"

definition credential_auth_lookup :: "CredentialRow \<times> UserRow \<Rightarrow> CredentialAuthLookup" where
  "credential_auth_lookup p = (case p of (c, u) \<Rightarrow>
     \<lparr>ca_user_id = ur_id u, ca_display_name = ur_display_name u,
      ca_username = map_option Username (ur_username u), ca_status = status_or_active (ur_status u),
      ca_tempo_address = TempoAddress (cr_tempo_address c), ca_public_key = cr_public_key c,
      ca_revoked = (cr_revoked_at c \<noteq> None)\<rparr>)"

section \<open>The database\<close>

text \<open>
  The environment of the service: what the other handlers did before the n-th statement, whether
  that statement fails for an operational reason, the generated ids and times, the row that
  \<open>LIMIT 1\<close> picks, and the text forms of the \<open>uuid\<close>, \<open>base64\<close> and \<open>chrono\<close> crates.
\<close>

record uenv =
  others :: "nat \<Rightarrow> tables \<Rightarrow> tables"
  stmt_error :: "nat \<Rightarrow> string option"
  random_uuid :: "nat \<Rightarrow> Uuid"
  now_at :: "nat \<Rightarrow> DateTime"
  limit_1 :: "nat \<Rightarrow> nat"
  parse_uuid :: "string \<Rightarrow> Uuid option"
  show_uuid :: "Uuid \<Rightarrow> string"
  url_safe_no_pad :: "byte list \<Rightarrow> string"
  rfc3339 :: "DateTime \<Rightarrow> string"

record users_db =
  statements :: nat
  tables :: tables

datatype SqlxError = UniqueViolation | ForeignKeyViolation | OtherError string

definition sqlx_to_domain :: "SqlxError \<Rightarrow> DomainError" where
  "sqlx_to_domain e =
     (case e of
        UniqueViolation \<Rightarrow> AlreadyExists
      | ForeignKeyViolation \<Rightarrow> UserNotFound
      | OtherError msg \<Rightarrow> Infrastructure msg)"

text \<open>
  One statement: the others first, who cannot change the rows the transaction holds locked; then it
  fails, or runs \<open>f\<close> on the tables with the statement's number.
\<close>

definition held :: "CredentialRow list \<Rightarrow> tables \<Rightarrow> tables" where
  "held locked t = t\<lparr>credentials := map (\<lambda>c.
     case find_row cr_id (cr_id c) locked of Some l \<Rightarrow> l | None \<Rightarrow> c) (credentials t)\<rparr>"

definition locked_statement ::
  "uenv \<Rightarrow> CredentialRow list \<Rightarrow> (nat \<Rightarrow> tables \<Rightarrow> (SqlxError + 'a) \<times> tables)
     \<Rightarrow> (users_db, SqlxError + 'a) state" where
  "locked_statement E locked f = State (\<lambda>s.
     (let n = statements s; t = held locked (others E n (tables s));
          r = (case stmt_error E n of Some msg \<Rightarrow> (Inl (OtherError msg), t) | None \<Rightarrow> f n t)
      in (fst r, s\<lparr>statements := Suc n, tables := snd r\<rparr>)))"

definition statement ::
  "uenv \<Rightarrow> (nat \<Rightarrow> tables \<Rightarrow> (SqlxError + 'a) \<times> tables) \<Rightarrow> (users_db, SqlxError + 'a) state" where
  "statement E f = locked_statement E [] f"

definition query :: "uenv \<Rightarrow> (nat \<Rightarrow> tables \<Rightarrow> 'a) \<Rightarrow> (users_db, DomainError + 'a) state" where
  "query E f = do {
     r \<leftarrow> statement E (\<lambda>n t. (Inr (f n t), t));
     ret (map_sum sqlx_to_domain id r)
   }"

definition pick :: "uenv \<Rightarrow> nat \<Rightarrow> 'a list \<Rightarrow> 'a option" where
  "pick E n rows = (if rows = [] then None else Some (rows ! (limit_1 E n mod length rows)))"

definition joined :: "tables \<Rightarrow> (CredentialRow \<times> UserRow) list" where
  "joined t = [(c, u). c \<leftarrow> credentials t, u \<leftarrow> users t, ur_id u = cr_user_id c]"

section \<open>The user repository (users.rs)\<close>

definition user_insert :: "uenv \<Rightarrow> string option \<Rightarrow> (users_db, DomainError + Uuid) state" where
  "user_insert E display_name = do {
     let name = (case display_name of Some n \<Rightarrow> n | None \<Rightarrow> []);
     r \<leftarrow> statement E (\<lambda>n t.
        if random_uuid E n \<in> ur_id ` set (users t) then (Inl UniqueViolation, t)
        else (Inr (random_uuid E n), t\<lparr>users := users t @
          [\<lparr>ur_id = random_uuid E n, ur_display_name = name, ur_username = None, ur_status = ''active'',
            ur_home_chain = None, ur_created_at = now_at E n, ur_updated_at = now_at E n\<rparr>]\<rparr>));
     ret (map_sum sqlx_to_domain id r)
   }"

definition user_get_by_id :: "uenv \<Rightarrow> Uuid \<Rightarrow> (users_db, DomainError + User option) state" where
  "user_get_by_id E id' = query E (\<lambda>n t. map_option user_of_row (find_row ur_id id' (users t)))"

definition user_update_display_name :: "uenv \<Rightarrow> Uuid \<Rightarrow> string \<Rightarrow> (users_db, DomainError + unit) state" where
  "user_update_display_name E id' name = do {
     r \<leftarrow> statement E (\<lambda>n t. (Inr (), t\<lparr>users := update_rows ur_id id'
        (\<lambda>u. u\<lparr>ur_display_name := name, ur_updated_at := now_at E n\<rparr>) (users t)\<rparr>));
     ret (map_sum sqlx_to_domain id r)
   }"

text \<open>The unique index on \<open>LOWER(username)\<close>: no other row may have the name in any case.\<close>

definition username_used :: "Uuid \<Rightarrow> string \<Rightarrow> tables \<Rightarrow> bool" where
  "username_used id' name t \<longleftrightarrow>
     list_ex (\<lambda>u. ur_id u \<noteq> id' \<and> map_option to_lowercase (ur_username u) = Some (to_lowercase name)) (users t)"

definition user_set_username :: "uenv \<Rightarrow> Uuid \<Rightarrow> Username \<Rightarrow> (users_db, DomainError + unit) state" where
  "user_set_username E id' username = do {
     r \<leftarrow> statement E (\<lambda>n t.
        if id' \<in> ur_id ` set (users t) \<and> username_used id' (name_str username) t then (Inl UniqueViolation, t)
        else (Inr (), t\<lparr>users := update_rows ur_id id'
          (\<lambda>u. u\<lparr>ur_username := Some (name_str username), ur_updated_at := now_at E n\<rparr>) (users t)\<rparr>));
     ret (case r of
        Inl UniqueViolation \<Rightarrow> Inl UsernameTaken
      | Inl e \<Rightarrow> Inl (sqlx_to_domain e)
      | Inr x \<Rightarrow> Inr x)
   }"

definition user_get_by_username :: "uenv \<Rightarrow> Username \<Rightarrow> (users_db, DomainError + User option) state" where
  "user_get_by_username E username = query E (\<lambda>n t. map_option user_of_row
     (find (\<lambda>u. map_option to_lowercase (ur_username u) = Some (to_lowercase (name_str username))) (users t)))"

definition active_with :: "string \<Rightarrow> CredentialRow \<Rightarrow> bool" where
  "active_with addr c \<longleftrightarrow> cr_tempo_address c = addr \<and> cr_revoked_at c = None"

definition get_home_chain_by_tempo_address ::
  "uenv \<Rightarrow> TempoAddress \<Rightarrow> (users_db, DomainError + int option) state" where
  "get_home_chain_by_tempo_address E addr = do {
     r \<leftarrow> query E (\<lambda>n t. pick E n [ur_home_chain u. (c, u) \<leftarrow> joined t, active_with (addr_str addr) c]);
     ret (case r of
        Inl e \<Rightarrow> Inl e
      | Inr None \<Rightarrow> Inr None
      | Inr (Some None) \<Rightarrow> Inr None
      | Inr (Some (Some v)) \<Rightarrow> Inr (Some v))
   }"

text \<open>The scalar subquery of the two updates: the owner of the address' unrevoked credential.\<close>

definition owner :: "uenv \<Rightarrow> nat \<Rightarrow> string \<Rightarrow> tables \<Rightarrow> Uuid option" where
  "owner E n addr t = pick E n (map cr_user_id (filter (active_with addr) (credentials t)))"

definition set_home_chain_if_unset ::
  "uenv \<Rightarrow> TempoAddress \<Rightarrow> int \<Rightarrow> (users_db, DomainError + unit) state" where
  "set_home_chain_if_unset E addr chain_id = do {
     r \<leftarrow> statement E (\<lambda>n t. (Inr (), t\<lparr>users := map (\<lambda>u.
        if Some (ur_id u) = owner E n (addr_str addr) t \<and> ur_home_chain u = None
        then u\<lparr>ur_home_chain := Some chain_id, ur_updated_at := now_at E n\<rparr> else u) (users t)\<rparr>));
     ret (map_sum sqlx_to_domain id r)
   }"

text \<open>
  The transaction reads the previous chain without a lock, so the row may change before the update;
  the update, the audit row and the commit then take effect together.
\<close>

definition set_home_chain_for_decommission ::
  "uenv \<Rightarrow> TempoAddress \<Rightarrow> int \<Rightarrow> string \<Rightarrow> (users_db, DomainError + unit) state" where
  "set_home_chain_for_decommission E addr chain_id operator = do {
     p \<leftarrow> query E (\<lambda>n t. pick E n [ur_home_chain u. (c, u) \<leftarrow> joined t, active_with (addr_str addr) c]);
     (case p of
        Inl e \<Rightarrow> ret (Inl e)
      | Inr previous \<Rightarrow> do {
          r \<leftarrow> statement E (\<lambda>n t.
             if \<not> list_ex (\<lambda>u. Some (ur_id u) = owner E n (addr_str addr) t) (users t)
             then (Inr False, t)
             else (Inr True, t\<lparr>users := map (\<lambda>u. if Some (ur_id u) = owner E n (addr_str addr) t
                 then u\<lparr>ur_home_chain := Some chain_id, ur_updated_at := now_at E n\<rparr> else u) (users t),
               home_chain_audit := home_chain_audit t @
                 [\<lparr>ha_tempo_address = addr_str addr, ha_previous_chain = Option.bind previous id,
                   ha_new_chain = chain_id, ha_operator = operator, ha_reason = ''chain_decommission'',
                   ha_created_at = now_at E n\<rparr>]\<rparr>));
          ret (case r of
             Inl e \<Rightarrow> Inl (sqlx_to_domain e)
           | Inr False \<Rightarrow> Inl UserNotFound
           | Inr True \<Rightarrow> Inr ())
        })
   }"

section \<open>The credential repository (credentials.rs)\<close>

text \<open>Unique indexes are checked when the row is inserted, the foreign key at the end of the statement.\<close>

definition credential_insert ::
  "uenv \<Rightarrow> Uuid \<Rightarrow> byte list \<Rightarrow> byte list \<Rightarrow> TempoAddress \<Rightarrow> (users_db, DomainError + Uuid) state" where
  "credential_insert E user_id credential_id public_key addr = do {
     r \<leftarrow> statement E (\<lambda>n t.
        if random_uuid E n \<in> cr_id ` set (credentials t) \<or>
           credential_id \<in> cr_credential_id ` set (credentials t) \<or>
           addr_str addr \<in> cr_tempo_address ` set (credentials t)
        then (Inl UniqueViolation, t)
        else if user_id \<notin> ur_id ` set (users t) then (Inl ForeignKeyViolation, t)
        else (Inr (random_uuid E n), t\<lparr>credentials := credentials t @
          [\<lparr>cr_id = random_uuid E n, cr_user_id = user_id, cr_credential_id = credential_id,
            cr_public_key = public_key, cr_tempo_address = addr_str addr, cr_revoked_at = None,
            cr_created_at = now_at E n\<rparr>]\<rparr>));
     ret (map_sum sqlx_to_domain id r)
   }"

definition credential_get_user_by_address ::
  "uenv \<Rightarrow> TempoAddress \<Rightarrow> (users_db, DomainError + UserWithCredential option) state" where
  "credential_get_user_by_address E addr = query E (\<lambda>n t. map_option user_with_credential
     (find (\<lambda>(c, u). active_with (addr_str addr) c) (joined t)))"

definition credential_get_user_by_credential_id ::
  "uenv \<Rightarrow> byte list \<Rightarrow> (users_db, DomainError + CredentialAuthLookup option) state" where
  "credential_get_user_by_credential_id E credential_id = query E (\<lambda>n t. map_option credential_auth_lookup
     (find (\<lambda>(c, u). cr_credential_id c = credential_id) (joined t)))"

definition credential_get_user_by_username ::
  "uenv \<Rightarrow> Username \<Rightarrow> (users_db, DomainError + UserWithCredential option) state" where
  "credential_get_user_by_username E username = query E (\<lambda>n t. map_option user_with_credential
     (pick E n (filter (\<lambda>(c, u). map_option to_lowercase (ur_username u) =
        Some (to_lowercase (name_str username)) \<and> cr_revoked_at c = None) (joined t))))"

definition credential_list :: "uenv \<Rightarrow> Uuid \<Rightarrow> bool \<Rightarrow> (users_db, DomainError + Credential list) state" where
  "credential_list E user_id active_only = query E (\<lambda>n t. map credential_of_row
     (sort_key cr_created_at (filter (\<lambda>c. cr_user_id c = user_id \<and>
        (active_only \<longrightarrow> cr_revoked_at c = None)) (credentials t))))"

text \<open>
  \<open>SELECT ... FOR UPDATE\<close> locks the rows it returns until the transaction ends: whatever the others
  do before the update, these rows are as they were.
\<close>

definition active_of :: "Uuid \<Rightarrow> tables \<Rightarrow> CredentialRow list" where
  "active_of user_id t = filter (\<lambda>c. cr_user_id c = user_id \<and> cr_revoked_at c = None) (credentials t)"

definition revocable :: "Uuid \<Rightarrow> byte list \<Rightarrow> CredentialRow \<Rightarrow> bool" where
  "revocable user_id credential_id c \<longleftrightarrow>
     cr_user_id c = user_id \<and> cr_credential_id c = credential_id \<and> cr_revoked_at c = None"

definition credential_revoke :: "uenv \<Rightarrow> Uuid \<Rightarrow> byte list \<Rightarrow> (users_db, DomainError + unit) state" where
  "credential_revoke E user_id credential_id = do {
     a \<leftarrow> query E (\<lambda>n t. active_of user_id t);
     (case a of
        Inl e \<Rightarrow> ret (Inl e)
      | Inr active \<Rightarrow>
          if length active = 1 then ret (Inl LastActiveCredential)
          else do {
            r \<leftarrow> locked_statement E active (\<lambda>n t.
               if \<not> list_ex (revocable user_id credential_id) (credentials t) then (Inr False, t)
               else (Inr True, t\<lparr>credentials := map (\<lambda>c. if revocable user_id credential_id c
                   then c\<lparr>cr_revoked_at := Some (now_at E n)\<rparr> else c) (credentials t)\<rparr>));
            ret (case r of
               Inl e \<Rightarrow> Inl (sqlx_to_domain e)
             | Inr False \<Rightarrow> Inl CredentialNotFound
             | Inr True \<Rightarrow> Inr ())
          })
   }"

end
