(* ===== verification/UserInvariant.thy ===== *)
theory UserInvariant
  imports UserDb
begin

text \<open>
  What the repositories of the user service guarantee about the tables, and rely on from each other:
  the invariant \<open>wf_tables\<close> and the relation \<open>evolves\<close>. Every repository operation keeps both,
  provided everything that runs concurrently does; \<open>sound_ops\<close> collects these facts for the handlers.
\<close>

named_theorems sound_ops \<open>repository operations that keep the invariant and only evolve the tables\<close>

section \<open>Definitions\<close>

text \<open>
  \<open>wf_tables\<close>: keys are unique, every credential belongs to a user, addresses and usernames are
  valid texts, and usernames differ in more than case.
\<close>

definition lower_names :: "tables \<Rightarrow> string list" where
  "lower_names t = filter_map (\<lambda>u. map_option to_lowercase (ur_username u)) (users t)"

definition valid_user :: "UserRow \<Rightarrow> bool" where
  "valid_user u \<longleftrightarrow> (case ur_username u of None \<Rightarrow> True | Some n \<Rightarrow> valid_username n) \<and>
     ur_status u \<in> {''active'', ''inactive''}"

definition valid_credential :: "tables \<Rightarrow> CredentialRow \<Rightarrow> bool" where
  "valid_credential t c \<longleftrightarrow> cr_user_id c \<in> ur_id ` set (users t) \<and> valid_tempo_address (cr_tempo_address c)"

definition wf_tables :: "tables \<Rightarrow> bool" where
  "wf_tables t \<longleftrightarrow> unique_key ur_id (users t) \<and> unique_key cr_id (credentials t) \<and>
     unique_key cr_credential_id (credentials t) \<and> unique_key cr_tempo_address (credentials t) \<and>
     distinct (lower_names t) \<and> list_all valid_user (users t) \<and> list_all (valid_credential t) (credentials t)"

text \<open>
  \<open>evolves\<close>: how the tables may change. No user or credential disappears, a credential keeps all its
  data, a revocation is final, a home chain once set stays set, a user with an active credential
  keeps one, and audit rows are only appended.
\<close>

definition same_credential :: "CredentialRow \<Rightarrow> CredentialRow \<Rightarrow> bool" where
  "same_credential c c' \<longleftrightarrow> cr_id c' = cr_id c \<and> cr_user_id c' = cr_user_id c \<and>
     cr_credential_id c' = cr_credential_id c \<and> cr_public_key c' = cr_public_key c \<and>
     cr_tempo_address c' = cr_tempo_address c \<and> cr_created_at c' = cr_created_at c \<and>
     (cr_revoked_at c \<noteq> None \<longrightarrow> cr_revoked_at c' = cr_revoked_at c)"

definition same_user :: "UserRow \<Rightarrow> UserRow \<Rightarrow> bool" where
  "same_user u u' \<longleftrightarrow> ur_id u' = ur_id u \<and> ur_created_at u' = ur_created_at u \<and>
     (ur_home_chain u \<noteq> None \<longrightarrow> ur_home_chain u' \<noteq> None)"

definition evolves :: "tables \<Rightarrow> tables \<Rightarrow> bool" where
  "evolves t t' \<longleftrightarrow>
     (\<forall>u\<in>set (users t). \<exists>u'\<in>set (users t'). same_user u u') \<and>
     (\<forall>c\<in>set (credentials t). \<exists>c'\<in>set (credentials t'). same_credential c c') \<and>
     (\<forall>i. active_of i t \<noteq> [] \<longrightarrow> active_of i t' \<noteq> []) \<and>
     (\<exists>new. home_chain_audit t' = home_chain_audit t @ new)"

definition sound :: "tables \<Rightarrow> tables \<Rightarrow> bool" where
  "sound t t' \<longleftrightarrow> (wf_tables t \<longrightarrow> wf_tables t' \<and> evolves t t')"

section \<open>Soundness is a preorder\<close>

lemma same_credential_refl [simp]: "same_credential c c"
  by (simp add: same_credential_def)

lemma same_credential_trans: "same_credential a b \<Longrightarrow> same_credential b c \<Longrightarrow> same_credential a c"
  by (simp add: same_credential_def)

lemma same_user_refl [simp]: "same_user u u"
  by (simp add: same_user_def)

lemma same_user_trans: "same_user a b \<Longrightarrow> same_user b c \<Longrightarrow> same_user a c"
  by (auto simp: same_user_def)

lemma evolves_users:
  assumes "credentials t' = credentials t" "\<And>u. u \<in> set (users t) \<Longrightarrow> \<exists>u'\<in>set (users t'). same_user u u'"
    "\<exists>new. home_chain_audit t' = home_chain_audit t @ new"
  shows "evolves t t'"
proof -
  have "\<exists>c'\<in>set (credentials t'). same_credential c c'" if "c \<in> set (credentials t)" for c
    using that assms(1) by (intro bexI [of _ c]) simp_all
  moreover have "active_of i t' = active_of i t" for i using assms(1) by (simp add: active_of_def)
  ultimately show ?thesis using assms(2,3) by (simp add: evolves_def)
qed

lemma evolves_refl [simp]: "evolves t t"
proof (rule evolves_users)
  show "\<exists>u'\<in>set (users t). same_user u u'" if "u \<in> set (users t)" for u
    using that by (intro bexI [of _ u]) simp_all
qed simp_all

lemma evolves_trans:
  assumes "evolves a b" "evolves b c"
  shows "evolves a c"
proof -
  have "\<exists>u''\<in>set (users c). same_user u u''" if "u \<in> set (users a)" for u
    using assms that unfolding evolves_def by (meson same_user_trans)
  moreover have "\<exists>r''\<in>set (credentials c). same_credential r r''" if "r \<in> set (credentials a)" for r
    using assms that unfolding evolves_def by (meson same_credential_trans)
  moreover have "\<exists>new. home_chain_audit c = home_chain_audit a @ new"
    using assms unfolding evolves_def by auto
  ultimately show ?thesis using assms unfolding evolves_def by blast
qed

lemma sound_refl [simp]: "sound t t"
  by (simp add: sound_def)

lemma sound_trans: "sound a b \<Longrightarrow> sound b c \<Longrightarrow> sound a c"
  unfolding sound_def using evolves_trans by blast

abbreviation db_sound :: "users_db \<Rightarrow> users_db \<Rightarrow> bool" where
  "db_sound s s' \<equiv> sound (tables s) (tables s')"

interpretation db_evolution: step_preorder db_sound
  by unfold_locales (auto intro: sound_trans)

text \<open>What is relied on about the other handlers.\<close>

definition reliable :: "uenv \<Rightarrow> bool" where
  "reliable E \<longleftrightarrow> (\<forall>n t. sound t (others E n t))"

lemma held_Nil [simp]: "held [] t = t"
  by (simp add: held_def find_row_def)

lemma statement_sound:
  assumes "reliable E" "\<And>n t. wf_tables t \<Longrightarrow> sound t (snd (f n t))"
  shows "step_rel db_sound (statement E f)"
  unfolding step_rel_def
proof
  fix s :: users_db
  let ?t = "others E (statements s) (tables s)"
  have "sound (tables s) ?t" using assms(1) by (simp add: reliable_def)
  moreover have "sound ?t (snd (f (statements s) ?t))" using assms(2) by (auto simp: sound_def)
  ultimately show "db_sound s (snd (run_state (statement E f) s))"
    by (auto simp: statement_def locked_statement_def Let_def split: option.split intro: sound_trans)
qed

lemma query_sound [sound_ops]: "reliable E \<Longrightarrow> step_rel db_sound (query E f)"
  unfolding query_def by (intro db_evolution.rules statement_sound) simp_all

section \<open>Changes of user rows\<close>

lemma lower_names_alt: "lower_names t = filter_map (map_option to_lowercase) (map ur_username (users t))"
proof -
  have "filter_map (\<lambda>u. map_option to_lowercase (ur_username u)) xs =
      filter_map (map_option to_lowercase) (map ur_username xs)" for xs
    by (induction xs) (auto split: option.split)
  then show ?thesis unfolding lower_names_def .
qed

lemma users_map_sound:
  assumes "users t' = map g (users t)" "credentials t' = credentials t"
    "\<exists>new. home_chain_audit t' = home_chain_audit t @ new"
    "\<And>u. u \<in> set (users t) \<Longrightarrow> same_user u (g u)"
    "wf_tables t \<Longrightarrow> distinct (lower_names t') \<and> list_all valid_user (users t')"
  shows "sound t t'"
  unfolding sound_def
proof
  assume wf: "wf_tables t"
  have ids: "map ur_id (users t') = map ur_id (users t)"
    using assms(1,4) by (simp add: same_user_def)
  then have "ur_id ` set (users t') = ur_id ` set (users t)" by (metis list.set_map)
  then have "list_all (valid_credential t') (credentials t')"
    using wf assms(2) by (simp add: wf_tables_def valid_credential_def list_all_iff)
  then have "wf_tables t'"
    using wf assms(2) assms(5) [OF wf] ids by (simp add: wf_tables_def unique_key_def)
  moreover have "evolves t t'"
    using assms(1-4) by (intro evolves_users) auto
  ultimately show "wf_tables t' \<and> evolves t t'" ..
qed

definition touches_little :: "UserRow \<Rightarrow> UserRow \<Rightarrow> bool" where
  "touches_little u u' \<longleftrightarrow> same_user u u' \<and> ur_username u' = ur_username u \<and> ur_status u' = ur_status u"

lemma users_update_sound:
  assumes "\<And>u. touches_little u (g u)"
  shows "sound t (t\<lparr>users := map g (users t), home_chain_audit := home_chain_audit t @ new\<rparr>)"
proof (rule users_map_sound [where g = g])
  let ?t = "t\<lparr>users := map g (users t), home_chain_audit := home_chain_audit t @ new\<rparr>"
  assume wf: "wf_tables t"
  have "map ur_username (users ?t) = map ur_username (users t)"
    using assms by (simp add: touches_little_def)
  then have "distinct (lower_names ?t)" using wf by (simp only: wf_tables_def lower_names_alt)
  moreover have "list_all valid_user (users ?t)"
    using wf assms by (simp add: wf_tables_def list_all_iff valid_user_def touches_little_def)
  ultimately show "distinct (lower_names ?t) \<and> list_all valid_user (users ?t)" ..
qed (use assms in \<open>simp_all add: touches_little_def\<close>)

lemmas users_update_only = users_update_sound [where new = "[]", simplified]

lemma new_user_sound:
  assumes "ur_id u \<notin> ur_id ` set (users t)" "ur_username u = None" "ur_status u = ''active''"
  shows "sound t (t\<lparr>users := users t @ [u]\<rparr>)"
  unfolding sound_def
proof
  let ?t = "t\<lparr>users := users t @ [u]\<rparr>"
  assume wf: "wf_tables t"
  have "lower_names ?t = lower_names t" using assms(2) by (simp add: lower_names_def)
  moreover have "list_all (valid_credential ?t) (credentials t)"
    using wf by (auto simp: wf_tables_def list_all_iff valid_credential_def)
  moreover have "valid_user u" using assms by (simp add: valid_user_def)
  ultimately have "wf_tables ?t"
    using wf assms(1) by (simp add: wf_tables_def unique_key_def)
  moreover have "evolves t ?t"
  proof (rule evolves_users)
    show "\<exists>u'\<in>set (users ?t). same_user v u'" if "v \<in> set (users t)" for v
      using that by (intro bexI [of _ v]) simp_all
  qed simp_all
  ultimately show "wf_tables ?t \<and> evolves t ?t" ..
qed

lemma user_insert_sound [sound_ops]:
  assumes "reliable E"
  shows "step_rel db_sound (user_insert E display_name)"
  unfolding user_insert_def Let_def
  by (intro db_evolution.rules statement_sound assms) (simp add: new_user_sound)

lemma user_update_display_name_sound [sound_ops]:
  assumes "reliable E"
  shows "step_rel db_sound (user_update_display_name E i name)"
  unfolding user_update_display_name_def update_rows_def
  by (intro db_evolution.rules statement_sound assms, unfold snd_conv, rule users_update_only)
    (simp add: touches_little_def same_user_def)

lemma set_home_chain_if_unset_sound [sound_ops]:
  assumes "reliable E"
  shows "step_rel db_sound (set_home_chain_if_unset E addr chain)"
  unfolding set_home_chain_if_unset_def
  by (intro db_evolution.rules statement_sound assms, unfold snd_conv, rule users_update_only)
    (simp add: touches_little_def same_user_def)

lemma home_chain_override_sound:
  "sound t (t\<lparr>users := map (\<lambda>u. if P u then u\<lparr>ur_home_chain := Some chain, ur_updated_at := now\<rparr> else u) (users t),
     home_chain_audit := home_chain_audit t @ [a]\<rparr>)"
  by (rule users_update_sound) (simp add: touches_little_def same_user_def)

lemma set_home_chain_for_decommission_sound [sound_ops]:
  assumes "reliable E"
  shows "step_rel db_sound (set_home_chain_for_decommission E addr chain operator)"
  unfolding set_home_chain_for_decommission_def
  by (intro db_evolution.rules statement_sound query_sound assms) (simp add: home_chain_override_sound)

text \<open>A name no other row has keeps the names distinct.\<close>

lemma distinct_names_update:
  assumes "distinct (map ur_id us)" "distinct (filter_map (\<lambda>u. map_option to_lowercase (ur_username u)) us)"
    "\<forall>u\<in>set us. ur_id u \<noteq> i \<longrightarrow> map_option to_lowercase (ur_username u) \<noteq> Some (to_lowercase n)"
  shows "distinct (filter_map (\<lambda>u. map_option to_lowercase (ur_username u))
    (map (\<lambda>u. if ur_id u = i then u\<lparr>ur_username := Some n, ur_updated_at := now\<rparr> else u) us))"
  using assms
proof (induction us)
  case (Cons u us)
  let ?low = "\<lambda>u. map_option to_lowercase (ur_username u)"
    and ?g = "\<lambda>u. if ur_id u = i then u\<lparr>ur_username := Some n, ur_updated_at := now\<rparr> else u"
  have IH: "distinct (filter_map ?low (map ?g us))" using Cons by (auto split: option.splits)
  have sub: "set (filter_map ?low (map ?g us)) \<subseteq> set (filter_map ?low us) \<union> {to_lowercase n}"
    by (auto simp: set_filter_map split: if_splits)
  show ?case
  proof (cases "ur_id u = i")
    case True
    then have "\<forall>v\<in>set us. ur_id v \<noteq> i" using Cons.prems(1) by (auto simp: image_iff)
    moreover from this have "map ?g us = us" by (intro map_idI) simp
    moreover have "to_lowercase n \<notin> set (filter_map ?low us)"
      using Cons.prems(3) calculation(1) by (auto simp: set_filter_map)
    ultimately show ?thesis using True IH by simp
  next
    case False
    show ?thesis
    proof (cases "ur_username u")
      case (Some w)
      then have "to_lowercase w \<notin> set (filter_map ?low us)" "to_lowercase w \<noteq> to_lowercase n"
        using Cons.prems(2,3) False by auto
      then show ?thesis using Some False IH sub by auto
    qed (use False IH in simp)
  qed
qed simp

lemma rename_sound:
  assumes "valid_username n" "\<not> username_used i n t"
  shows "sound t (t\<lparr>users := update_rows ur_id i (\<lambda>u. u\<lparr>ur_username := Some n, ur_updated_at := now\<rparr>) (users t)\<rparr>)"
    (is "sound t ?t")
proof (rule users_map_sound [where g = "\<lambda>u. if ur_id u = i then u\<lparr>ur_username := Some n, ur_updated_at := now\<rparr> else u"])
  assume wf: "wf_tables t"
  have "distinct (lower_names ?t)"
    using wf assms(2) distinct_names_update [of "users t" i n now]
    by (auto simp: lower_names_def update_rows_def wf_tables_def unique_key_def username_used_def list_ex_iff)
  moreover have "list_all valid_user (users ?t)"
    using wf assms(1) by (auto simp: wf_tables_def list_all_iff valid_user_def update_rows_def)
  ultimately show "distinct (lower_names ?t) \<and> list_all valid_user (users ?t)" ..
qed (simp_all add: update_rows_def same_user_def)

lemma update_absent:
  assumes "i \<notin> ur_id ` set us"
  shows "update_rows ur_id i f us = us"
proof -
  have "\<forall>u\<in>set us. ur_id u \<noteq> i" using assms by auto
  then show ?thesis unfolding update_rows_def by (intro map_idI) simp
qed

lemma user_set_username_sound [sound_ops]:
  assumes "reliable E" "valid_username (name_str username)"
  shows "step_rel db_sound (user_set_username E i username)"
  unfolding user_set_username_def
  apply (intro db_evolution.rules statement_sound assms(1))
  subgoal for n t
    by (cases "i \<in> ur_id ` set (users t)") (simp_all add: rename_sound assms(2) update_absent)
  done

section \<open>Changes of credentials\<close>

lemma evolves_credentials:
  assumes "users t' = users t" "home_chain_audit t' = home_chain_audit t"
    "\<And>c. c \<in> set (credentials t) \<Longrightarrow> \<exists>c'\<in>set (credentials t'). same_credential c c'"
    "\<And>i. active_of i t \<noteq> [] \<Longrightarrow> active_of i t' \<noteq> []"
  shows "evolves t t'"
proof -
  have "\<exists>u'\<in>set (users t'). same_user u u'" if "u \<in> set (users t)" for u
    using that assms(1) by (intro bexI [of _ u]) simp_all
  then show ?thesis using assms by (simp add: evolves_def)
qed

lemma new_credential_sound:
  assumes "cr_id c \<notin> cr_id ` set (credentials t)" "cr_credential_id c \<notin> cr_credential_id ` set (credentials t)"
    "cr_tempo_address c \<notin> cr_tempo_address ` set (credentials t)" "valid_credential t c"
  shows "sound t (t\<lparr>credentials := credentials t @ [c]\<rparr>)"
  unfolding sound_def
proof
  let ?t = "t\<lparr>credentials := credentials t @ [c]\<rparr>"
  assume wf: "wf_tables t"
  have "lower_names ?t = lower_names t" by (simp add: lower_names_def)
  moreover have "list_all (valid_credential ?t) (credentials ?t)"
    using wf assms(4) by (simp add: wf_tables_def list_all_iff valid_credential_def)
  ultimately have "wf_tables ?t" using wf assms(1-3) by (simp add: wf_tables_def unique_key_def)
  moreover have "evolves t ?t"
  proof (rule evolves_credentials)
    show "\<exists>c'\<in>set (credentials ?t). same_credential d c'" if "d \<in> set (credentials t)" for d
      using that by (intro bexI [of _ d]) simp_all
    show "active_of i ?t \<noteq> []" if "active_of i t \<noteq> []" for i
      using that by (simp add: active_of_def)
  qed simp_all
  ultimately show "wf_tables ?t \<and> evolves t ?t" ..
qed

lemma credential_insert_sound [sound_ops]:
  assumes "reliable E" "valid_tempo_address (addr_str addr)"
  shows "step_rel db_sound (credential_insert E i cid pk addr)"
  unfolding credential_insert_def
  by (intro db_evolution.rules statement_sound assms(1))
    (simp add: new_credential_sound valid_credential_def assms(2))

section \<open>Revocation\<close>

text \<open>A map over the credentials that keeps their keys keeps the invariant.\<close>

lemma credentials_map_wf:
  assumes "wf_tables t" "\<And>c. c \<in> set (credentials t) \<Longrightarrow> cr_id (g c) = cr_id c \<and>
    cr_user_id (g c) = cr_user_id c \<and> cr_credential_id (g c) = cr_credential_id c \<and>
    cr_tempo_address (g c) = cr_tempo_address c"
  shows "wf_tables (t\<lparr>credentials := map g (credentials t)\<rparr>)"
proof -
  let ?cs = "credentials t"
  have "map cr_id (map g ?cs) = map cr_id ?cs" "map cr_credential_id (map g ?cs) = map cr_credential_id ?cs"
    "map cr_tempo_address (map g ?cs) = map cr_tempo_address ?cs"
    using assms(2) by simp_all
  moreover have "list_all (valid_credential (t\<lparr>credentials := map g ?cs\<rparr>)) (map g ?cs)"
    using assms by (simp add: wf_tables_def list_all_iff valid_credential_def)
  moreover have "lower_names (t\<lparr>credentials := map g ?cs\<rparr>) = lower_names t" by (simp add: lower_names_def)
  ultimately show ?thesis using assms(1) by (simp add: wf_tables_def unique_key_def del: map_map)
qed

lemma active_of_ne: "active_of i t \<noteq> [] \<longleftrightarrow> (\<exists>c\<in>set (credentials t). cr_user_id c = i \<and> cr_revoked_at c = None)"
  by (auto simp: active_of_def filter_empty_conv)

definition hold :: "CredentialRow list \<Rightarrow> CredentialRow \<Rightarrow> CredentialRow" where
  "hold locked c = (case find_row cr_id (cr_id c) locked of Some l \<Rightarrow> l | None \<Rightarrow> c)"

lemma held_alt: "held locked t = t\<lparr>credentials := map (hold locked) (credentials t)\<rparr>"
  by (simp add: held_def hold_def)

lemma hold_cases: "hold locked c = c \<or> (\<exists>l\<in>set locked. cr_id l = cr_id c \<and> hold locked c = l)"
  by (auto simp: hold_def dest: find_row_Some_key split: option.split)

text \<open>
  Rows locked by a user's revocation, while the others change the tables from \<open>t\<close> to \<open>t'\<close>: the
  tables stay well formed and evolve, and the locked rows are all there.
\<close>

lemma held_sound:
  fixes i :: Uuid
  assumes wf: "wf_tables t" and others: "sound t t'"
  defines "locked \<equiv> active_of i t"
  shows "wf_tables (held locked t') \<and> evolves t (held locked t') \<and> set locked \<subseteq> set (credentials (held locked t'))"
proof -
  let ?h = "held locked t'"
  have wf': "wf_tables t'" and ev: "evolves t t'" using assms by (auto simp: sound_def)
  have uniq: "unique_key cr_id (credentials t)" "unique_key cr_id (credentials t')" "unique_key cr_id locked"
    using wf wf' by (simp_all add: wf_tables_def locked_def active_of_def unique_key_filter)
  have lk: "l \<in> set (credentials t) \<and> cr_user_id l = i \<and> cr_revoked_at l = None" if "l \<in> set locked" for l
    using that by (auto simp: locked_def active_of_def)
  have same: "same_credential l c" if "l \<in> set locked" "c \<in> set (credentials t')" "cr_id l = cr_id c" for l c
  proof -
    note l = lk [OF that(1)]
    obtain c' where "c' \<in> set (credentials t')" "same_credential l c'"
      using ev l unfolding evolves_def by blast
    then show ?thesis using unique_key_eq [OF uniq(2)] that by (metis same_credential_def)
  qed
  have keys: "cr_id (hold locked c) = cr_id c \<and> cr_user_id (hold locked c) = cr_user_id c \<and>
      cr_credential_id (hold locked c) = cr_credential_id c \<and> cr_tempo_address (hold locked c) = cr_tempo_address c"
    and active: "cr_revoked_at c = None \<Longrightarrow> cr_revoked_at (hold locked c) = None"
    if "c \<in> set (credentials t')" for c
    using hold_cases [of locked c] same [OF _ that] lk by (auto simp: same_credential_def)
  have "wf_tables ?h" unfolding held_alt using wf' keys by (rule credentials_map_wf)
  moreover have "set locked \<subseteq> set (credentials ?h)"
  proof
    fix l assume l: "l \<in> set locked"
    then obtain c where c: "c \<in> set (credentials t')" "cr_id c = cr_id l"
      using ev lk unfolding evolves_def same_credential_def by blast
    then have "hold locked c = l" using find_row_unique [OF uniq(3) l] by (simp add: hold_def)
    then show "l \<in> set (credentials ?h)" using c(1) by (auto simp: held_alt)
  qed
  moreover have "\<exists>c'\<in>set (credentials ?h). same_credential c c'" if c: "c \<in> set (credentials t)" for c
  proof -
    obtain c' where c': "c' \<in> set (credentials t')" "same_credential c c'"
      using ev c unfolding evolves_def by blast
    have "same_credential c (hold locked c')"
      using hold_cases [of locked c'] c' unique_key_eq [OF uniq(1) _ c] lk
      by (auto simp: same_credential_def)
    then show ?thesis using c'(1) by (auto simp: held_alt)
  qed
  moreover have "active_of j ?h \<noteq> []" if j: "active_of j t \<noteq> []" for j
  proof -
    have "active_of j t' \<noteq> []" using ev j by (simp add: evolves_def)
    then obtain c where "c \<in> set (credentials t')" "cr_user_id c = j" "cr_revoked_at c = None"
      unfolding active_of_ne by blast
    then show ?thesis unfolding active_of_ne using keys active
      by (intro bexI [of _ "hold locked c"]) (auto simp: held_alt)
  qed
  moreover have "users ?h = users t'" "home_chain_audit ?h = home_chain_audit t'" by (simp_all add: held_def)
  ultimately show ?thesis using ev by (simp add: evolves_def)
qed

text \<open>
  The revoking update, on tables \<open>h\<close> in which the rows locked in \<open>t\<close> are unchanged: the user keeps
  an active credential because at least two rows were locked and at most one is revoked.
\<close>

definition revoke_row :: "Uuid \<Rightarrow> byte list \<Rightarrow> DateTime \<Rightarrow> CredentialRow \<Rightarrow> CredentialRow" where
  "revoke_row i cid now c = (if revocable i cid c then c\<lparr>cr_revoked_at := Some now\<rparr> else c)"

lemma two_locked:
  assumes "length xs \<noteq> 1" "xs \<noteq> []" "unique_key cr_credential_id xs"
  shows "\<exists>l\<in>set xs. cr_credential_id l \<noteq> cid"
proof -
  obtain a b ys where xs: "xs = a # b # ys" using assms(1,2) by (cases xs; cases "tl xs") auto
  then have "cr_credential_id a \<noteq> cr_credential_id b" using assms(3) by (simp add: unique_key_def)
  then show ?thesis using xs by auto
qed

lemma revoke_sound:
  assumes "wf_tables h" "evolves t h" "set (active_of i t) \<subseteq> set (credentials h)"
    "length (active_of i t) \<noteq> 1" "unique_key cr_credential_id (credentials t)"
  shows "wf_tables (h\<lparr>credentials := map (revoke_row i cid now) (credentials h)\<rparr>) \<and>
    evolves t (h\<lparr>credentials := map (revoke_row i cid now) (credentials h)\<rparr>)"
proof -
  let ?g = "revoke_row i cid now" and ?h = "h\<lparr>credentials := map (revoke_row i cid now) (credentials h)\<rparr>"
  have "wf_tables ?h" using assms(1) by (rule credentials_map_wf) (simp add: revoke_row_def)
  moreover have "\<exists>c'\<in>set (credentials ?h). same_credential c c'" if c: "c \<in> set (credentials t)" for c
  proof -
    obtain c' where c': "c' \<in> set (credentials h)" "same_credential c c'"
      using assms(2) c unfolding evolves_def by blast
    then have "same_credential c (?g c')"
      by (auto simp: same_credential_def revoke_row_def revocable_def)
    then show ?thesis using c'(1) by auto
  qed
  moreover have "active_of j ?h \<noteq> []" if j: "active_of j t \<noteq> []" for j
  proof -
    have "\<exists>c\<in>set (credentials h). cr_user_id c = j \<and> cr_revoked_at c = None \<and> \<not> revocable i cid c"
    proof (cases "j = i")
      case True
      have "unique_key cr_credential_id (active_of i t)"
        unfolding active_of_def using assms(5) by (rule unique_key_filter)
      from two_locked [OF assms(4) _ this, of cid] j True
      obtain l where "l \<in> set (active_of i t)" "cr_credential_id l \<noteq> cid" by blast
      moreover from this have "l \<in> set (credentials h)" "cr_user_id l = i" "cr_revoked_at l = None"
        using assms(3) by (auto simp: active_of_def)
      ultimately show ?thesis using True by (intro bexI [of _ l]) (simp_all add: revocable_def)
    next
      case False
      have "active_of j h \<noteq> []" using assms(2) j by (simp add: evolves_def)
      then show ?thesis using False unfolding active_of_ne by (auto simp: revocable_def)
    qed
    then show ?thesis unfolding active_of_ne by (auto simp: revoke_row_def)
  qed
  ultimately show ?thesis using assms(2) by (simp add: evolves_def)
qed

lemma run_query:
  "run_state (query E f) s =
     (case stmt_error E (statements s) of Some msg \<Rightarrow> Inl (Infrastructure msg)
        | None \<Rightarrow> Inr (f (statements s) (others E (statements s) (tables s))),
      s\<lparr>statements := Suc (statements s), tables := others E (statements s) (tables s)\<rparr>)"
  by (simp add: query_def statement_def locked_statement_def Let_def sqlx_to_domain_def split: option.split)

lemma credential_revoke_sound [sound_ops]:
  assumes "reliable E"
  shows "step_rel db_sound (credential_revoke E i cid)"
  unfolding step_rel_def sound_def
proof (intro allI impI)
  fix s :: users_db
  assume wf: "wf_tables (tables s)"
  let ?n = "statements s" and ?m = "Suc (statements s)"
  define t where "t = others E ?n (tables s)"
  define h where "h = held (active_of i t) (others E ?m t)"
  have t: "wf_tables t \<and> evolves (tables s) t"
    using assms wf by (simp add: reliable_def sound_def t_def)
  then have u: "unique_key cr_credential_id (credentials t)" by (simp add: wf_tables_def)
  have h: "wf_tables h \<and> evolves t h \<and> set (active_of i t) \<subseteq> set (credentials h)"
    unfolding h_def using t assms by (intro held_sound) (simp_all add: reliable_def)
  have "tables (snd (run_state (credential_revoke E i cid) s)) = t \<or>
      tables (snd (run_state (credential_revoke E i cid) s)) = h \<or>
      tables (snd (run_state (credential_revoke E i cid) s)) =
        h\<lparr>credentials := map (revoke_row i cid (now_at E ?m)) (credentials h)\<rparr> \<and> length (active_of i t) \<noteq> 1"
    by (simp add: credential_revoke_def run_query locked_statement_def Let_def t_def [symmetric]
        h_def [symmetric] revoke_row_def split: option.split)
  moreover have "wf_tables (h\<lparr>credentials := map (revoke_row i cid (now_at E ?m)) (credentials h)\<rparr>) \<and>
      evolves t (h\<lparr>credentials := map (revoke_row i cid (now_at E ?m)) (credentials h)\<rparr>)"
    if "length (active_of i t) \<noteq> 1"
    using h by (elim conjE) (rule revoke_sound [OF _ _ _ that u])
  ultimately have "wf_tables (tables (snd (run_state (credential_revoke E i cid) s))) \<and>
      evolves t (tables (snd (run_state (credential_revoke E i cid) s)))"
    using t h evolves_refl [of t] by (elim disjE conjE) simp_all
  then show "wf_tables (tables (snd (run_state (credential_revoke E i cid) s))) \<and>
      evolves (tables s) (tables (snd (run_state (credential_revoke E i cid) s)))"
    using t evolves_trans by blast
qed

lemma reads_sound [sound_ops]:
  assumes "reliable E"
  shows "step_rel db_sound (user_get_by_id E i)" "step_rel db_sound (user_get_by_username E name)"
    "step_rel db_sound (get_home_chain_by_tempo_address E addr)"
    "step_rel db_sound (credential_get_user_by_address E addr)"
    "step_rel db_sound (credential_get_user_by_credential_id E cid)"
    "step_rel db_sound (credential_get_user_by_username E name)"
    "step_rel db_sound (credential_list E i active_only)"
  unfolding user_get_by_id_def user_get_by_username_def get_home_chain_by_tempo_address_def
    credential_get_user_by_address_def credential_get_user_by_credential_id_def
    credential_get_user_by_username_def credential_list_def
  by (intro db_evolution.rules query_sound assms)+

end
