(* ===== verification/UserService.thy ===== *)
theory UserService
  imports UserInvariant
begin

text \<open>
  The gRPC handlers of the user service (\<open>grpc/user_service.rs\<close>), one definition per handler, over the
  repositories of \<open>UserDb\<close>, and the claims about them: every handler keeps the invariant of the tables
  under concurrency, registration and lookup fit together, a user cannot lose the last credential,
  user names are unique up to case, the home chain is sticky unless the orchestrator overrides it.
\<close>

section \<open>Handlers\<close>

definition domain_err_to_status :: "DomainError \<Rightarrow> Status" where
  "domain_err_to_status e =
     (case e of
        LastActiveCredential \<Rightarrow> failed_precondition ''cannot revoke the last active credential''
      | CredentialNotFound \<Rightarrow> not_found ''credential not found or already revoked''
      | UserNotFound \<Rightarrow> not_found ''user not found''
      | AlreadyExists \<Rightarrow> already_exists ''address or credential already registered''
      | InvalidTempoAddress \<Rightarrow> invalid_argument ''tempo_address must be a 0x-prefixed 40-char hex string''
      | InvalidUsername \<Rightarrow> invalid_argument
          ''username must be 3-20 chars, start with a letter, alphanumeric/underscore only''
      | UsernameTaken \<Rightarrow> already_exists ''username already taken''
      | Infrastructure msg \<Rightarrow> internal msg)"

text \<open>\<open>.map_err(domain_err_to_status)?\<close>, on a value and on an awaited call; \<open>.ok_or_else(...)?\<close>.\<close>

definition checked ::
  "DomainError + 'a \<Rightarrow> ('a \<Rightarrow> (users_db, Status + 'b) state) \<Rightarrow> (users_db, Status + 'b) state" where
  "checked r k = (case r of Inl e \<Rightarrow> ret (Inl (domain_err_to_status e)) | Inr x \<Rightarrow> k x)"

definition awaited ::
  "(users_db, DomainError + 'a) state \<Rightarrow> ('a \<Rightarrow> (users_db, Status + 'b) state)
     \<Rightarrow> (users_db, Status + 'b) state" where
  "awaited m k = do { r \<leftarrow> m; checked r k }"

definition present ::
  "'a option \<Rightarrow> Status \<Rightarrow> ('a \<Rightarrow> (users_db, Status + 'b) state) \<Rightarrow> (users_db, Status + 'b) state" where
  "present r e k = (case r of None \<Rightarrow> ret (Inl e) | Some x \<Rightarrow> k x)"

definition username_or_empty :: "Username option \<Rightarrow> string" where
  "username_or_empty u = (case u of None \<Rightarrow> [] | Some n \<Rightarrow> name_str n)"

record profile =
  pf_user_id :: string
  pf_display_name :: string
  pf_status :: string
  pf_tempo_address :: string
  pf_username :: string

definition profile_of :: "uenv \<Rightarrow> UserWithCredential \<Rightarrow> profile" where
  "profile_of E row =
     \<lparr>pf_user_id = show_uuid E (uc_user_id row), pf_display_name = uc_display_name row,
      pf_status = user_status_str (uc_status row), pf_tempo_address = addr_str (uc_tempo_address row),
      pf_username = username_or_empty (uc_username row)\<rparr>"

definition decommission_override_denial :: "string option \<Rightarrow> string option \<Rightarrow> string option" where
  "decommission_override_denial token provided =
     (case token of
        None \<Rightarrow> Some ''decommission home-chain override is not configured''
      | Some expected \<Rightarrow>
          if provided = Some expected then None else Some ''invalid decommission orchestrator token'')"

definition create_user ::
  "uenv \<Rightarrow> string option \<Rightarrow> byte list \<Rightarrow> byte list \<Rightarrow> string \<Rightarrow> (users_db, Status + string) state" where
  "create_user E display_name credential_id public_key tempo_address = do {
     n \<leftarrow> gets statements;
     checked (credential_new (random_uuid E n) (now_at E n) 0 credential_id public_key tempo_address)
       (\<lambda>credential. awaited (user_insert E display_name)
       (\<lambda>user_id. awaited (credential_insert E user_id (cd_credential_id credential)
                    (cd_public_key credential) (cd_tempo_address credential))
       (\<lambda>_. ret (Inr (show_uuid E user_id)))))
   }"

definition get_user_by_address :: "uenv \<Rightarrow> string \<Rightarrow> (users_db, Status + profile) state" where
  "get_user_by_address E tempo_address =
     checked (tempo_address_try_from tempo_address)
       (\<lambda>addr. awaited (credential_get_user_by_address E addr)
       (\<lambda>r. present r (not_found ''user not found for given tempo_address'')
       (\<lambda>row. ret (Inr (profile_of E row)))))"

record GetUserByCredentialIdResponse =
  gc_user_id :: string
  gc_display_name :: string
  gc_status :: string
  gc_tempo_address :: string
  gc_username :: string
  gc_public_key :: "byte list"
  gc_revoked :: bool

definition get_user_by_credential_id ::
  "uenv \<Rightarrow> byte list \<Rightarrow> (users_db, Status + GetUserByCredentialIdResponse) state" where
  "get_user_by_credential_id E credential_id =
     awaited (credential_get_user_by_credential_id E credential_id)
       (\<lambda>r. present r (not_found ''user not found for given credential_id'')
       (\<lambda>row. ret (Inr
          \<lparr>gc_user_id = show_uuid E (ca_user_id row), gc_display_name = ca_display_name row,
           gc_status = user_status_str (ca_status row), gc_tempo_address = addr_str (ca_tempo_address row),
           gc_username = username_or_empty (ca_username row), gc_public_key = ca_public_key row,
           gc_revoked = ca_revoked row\<rparr>)))"

record CredentialInfo =
  ci_credential_id :: string
  ci_tempo_address :: string
  ci_created_at :: string
  ci_revoked :: bool

definition list_credentials :: "uenv \<Rightarrow> string \<Rightarrow> (users_db, Status + CredentialInfo list) state" where
  "list_credentials E user_id_text =
     present (parse_uuid E user_id_text) (invalid_argument ''user_id must be a valid UUID'')
       (\<lambda>user_id. awaited (credential_list E user_id False)
       (\<lambda>creds. ret (Inr (map (\<lambda>c.
          \<lparr>ci_credential_id = url_safe_no_pad E (cd_credential_id c),
           ci_tempo_address = addr_str (cd_tempo_address c), ci_created_at = rfc3339 E (cd_created_at c),
           ci_revoked = (cd_revoked_at c \<noteq> None)\<rparr>) creds))))"

definition add_credential ::
  "uenv \<Rightarrow> string \<Rightarrow> byte list \<Rightarrow> byte list \<Rightarrow> string \<Rightarrow> (users_db, Status + string) state" where
  "add_credential E user_id_text credential_id public_key tempo_address =
     present (parse_uuid E user_id_text) (invalid_argument ''user_id must be a valid UUID'')
       (\<lambda>user_id. awaited (user_get_by_id E user_id)
       (\<lambda>r. present r (not_found ''user not found'')
       (\<lambda>user. do {
          n \<leftarrow> gets statements;
          checked (user_add_credential (random_uuid E n) (now_at E n) user credential_id public_key tempo_address)
            (\<lambda>credential. awaited (credential_insert E user_id (cd_credential_id credential)
                         (cd_public_key credential) (cd_tempo_address credential))
            (\<lambda>_. ret (Inr (url_safe_no_pad E credential_id))))
        })))"

record UpdateUserResponse =
  uu_user_id :: string
  uu_display_name :: string
  uu_username :: string

definition update_response :: "uenv \<Rightarrow> User \<Rightarrow> UpdateUserResponse" where
  "update_response E user =
     \<lparr>uu_user_id = show_uuid E (us_id user), uu_display_name = us_display_name user,
      uu_username = username_or_empty (us_username user)\<rparr>"

definition update_user :: "uenv \<Rightarrow> string \<Rightarrow> string option \<Rightarrow> (users_db, Status + UpdateUserResponse) state" where
  "update_user E user_id_text display_name =
     present (parse_uuid E user_id_text) (invalid_argument ''invalid user_id'')
       (\<lambda>user_id. awaited (user_get_by_id E user_id)
       (\<lambda>r. present r (not_found ''user not found'')
       (\<lambda>user.
          (case display_name of
             Some name \<Rightarrow>
               awaited (user_update_display_name E user_id name)
                 (\<lambda>_. awaited (user_get_by_id E user_id)
                 (\<lambda>r'. present r' (not_found ''user not found'')
                 (\<lambda>updated. ret (Inr (update_response E updated)))))
           | None \<Rightarrow> ret (Inr (update_response E user))))))"

definition set_username :: "uenv \<Rightarrow> string \<Rightarrow> string \<Rightarrow> (users_db, Status + profile) state" where
  "set_username E user_id_text name =
     present (parse_uuid E user_id_text) (invalid_argument ''user_id must be a valid UUID'')
       (\<lambda>user_id. checked (username_try_from name)
       (\<lambda>username. awaited (user_get_by_id E user_id)
       (\<lambda>r. present r (not_found ''user not found'')
       (\<lambda>_. awaited (user_set_username E user_id username)
       (\<lambda>_. awaited (credential_get_user_by_username E username)
       (\<lambda>r'. present r' (internal ''user has no active credential after set_username'')
       (\<lambda>row. ret (Inr (profile_of E row)))))))))"

definition get_user_by_username :: "uenv \<Rightarrow> string \<Rightarrow> (users_db, Status + profile) state" where
  "get_user_by_username E name =
     checked (username_try_from name)
       (\<lambda>username. awaited (credential_get_user_by_username E username)
       (\<lambda>r. present r (not_found ''user not found for given username'')
       (\<lambda>row. ret (Inr (profile_of E row)))))"

definition revoke_credential :: "uenv \<Rightarrow> string \<Rightarrow> byte list \<Rightarrow> (users_db, Status + bool) state" where
  "revoke_credential E user_id_text credential_id =
     present (parse_uuid E user_id_text) (invalid_argument ''user_id must be a valid UUID'')
       (\<lambda>user_id. awaited (credential_revoke E user_id credential_id)
       (\<lambda>_. ret (Inr True)))"

text \<open>The response: whether a home chain was found, and which.\<close>

definition get_user_home_chain :: "uenv \<Rightarrow> string \<Rightarrow> (users_db, Status + (bool \<times> u64)) state" where
  "get_user_home_chain E tempo_address =
     checked (tempo_address_try_from tempo_address)
       (\<lambda>addr. awaited (get_home_chain_by_tempo_address E addr)
       (\<lambda>home. ret (Inr
          (case home of
             Some chain_id \<Rightarrow> if 0 \<le> chain_id then (True, word_of_int chain_id) else (False, 0)
           | None \<Rightarrow> (False, 0)))))"

definition set_user_home_chain ::
  "uenv \<Rightarrow> string option \<Rightarrow> string option \<Rightarrow> string \<Rightarrow> u64 \<Rightarrow> bool \<Rightarrow> string
     \<Rightarrow> (users_db, Status + unit) state" where
  "set_user_home_chain E token provided tempo_address chain_id decommission_override operator =
     (case (if decommission_override then decommission_override_denial token provided else None) of
        Some message \<Rightarrow> ret (Inl (permission_denied message))
      | None \<Rightarrow>
          checked (tempo_address_try_from tempo_address)
            (\<lambda>addr.
               if decommission_override then
                 awaited (set_home_chain_for_decommission E addr (sint chain_id)
                   (if trim operator = [] then ''treasury-decommission-orchestrator'' else trim operator))
                 (\<lambda>_. ret (Inr ()))
               else
                 awaited (set_home_chain_if_unset E addr (sint chain_id))
                 (\<lambda>_. ret (Inr ()))))"

text \<open>A request, and the effect of serving it whatever the response is.\<close>

datatype request =
    CreateUser "string option" "byte list" "byte list" string
  | GetUserByAddress string
  | GetUserByCredentialId "byte list"
  | ListCredentials string
  | AddCredential string "byte list" "byte list" string
  | UpdateUser string "string option"
  | SetUsername string string
  | GetUserByUsername string
  | RevokeCredential string "byte list"
  | GetUserHomeChain string
  | SetUserHomeChain "string option" string u64 bool string

definition discard :: "(users_db, 'a) state \<Rightarrow> (users_db, unit) state" where
  "discard m = do { _ \<leftarrow> m; ret () }"

fun serve :: "uenv \<Rightarrow> string option \<Rightarrow> request \<Rightarrow> (users_db, unit) state" where
  "serve E token (CreateUser dn cid pk a) = discard (create_user E dn cid pk a)"
| "serve E token (GetUserByAddress a) = discard (get_user_by_address E a)"
| "serve E token (GetUserByCredentialId cid) = discard (get_user_by_credential_id E cid)"
| "serve E token (ListCredentials i) = discard (list_credentials E i)"
| "serve E token (AddCredential i cid pk a) = discard (add_credential E i cid pk a)"
| "serve E token (UpdateUser i dn) = discard (update_user E i dn)"
| "serve E token (SetUsername i n) = discard (set_username E i n)"
| "serve E token (GetUserByUsername n) = discard (get_user_by_username E n)"
| "serve E token (RevokeCredential i cid) = discard (revoke_credential E i cid)"
| "serve E token (GetUserHomeChain a) = discard (get_user_home_chain E a)"
| "serve E token (SetUserHomeChain provided a chain ovr op) =
     discard (set_user_home_chain E token provided a chain ovr op)"

section \<open>Every handler keeps the invariant\<close>

lemma checked_sound: "(\<And>x. r = Inr x \<Longrightarrow> step_rel db_sound (k x)) \<Longrightarrow> step_rel db_sound (checked r k)"
  unfolding checked_def by (cases r) (auto intro: db_evolution.rules)

lemma awaited_sound:
  "step_rel db_sound m \<Longrightarrow> (\<And>x. step_rel db_sound (k x)) \<Longrightarrow> step_rel db_sound (awaited m k)"
  unfolding awaited_def by (intro db_evolution.bind checked_sound)

lemma present_sound: "(\<And>x. step_rel db_sound (k x)) \<Longrightarrow> step_rel db_sound (present r e k)"
  unfolding present_def by (intro db_evolution.rules)

lemma validated:
  "tempo_address_try_from s = Inr a \<Longrightarrow> valid_tempo_address (addr_str a) \<and> addr_str a = s"
  "username_try_from n = Inr u \<Longrightarrow> valid_username (name_str u) \<and> name_str u = n"
  by (auto simp: tempo_address_try_from_def username_try_from_def split: if_splits)

lemma credential_new_valid:
  "credential_new f now i cid pk a = Inr c \<Longrightarrow> valid_tempo_address (addr_str (cd_tempo_address c)) \<and>
     cd_credential_id c = cid \<and> cd_public_key c = pk \<and> addr_str (cd_tempo_address c) = a"
  by (auto simp: credential_new_def dest: validated split: sum.splits)

lemmas handler_sound = checked_sound awaited_sound present_sound db_evolution.rules sound_ops

lemma handlers_sound:
  assumes "reliable E"
  shows "step_rel db_sound (create_user E dn cid pk a)"
    and "step_rel db_sound (get_user_by_address E a)"
    and "step_rel db_sound (get_user_by_credential_id E cid)"
    and "step_rel db_sound (list_credentials E i)"
    and "step_rel db_sound (add_credential E i cid pk a)"
    and "step_rel db_sound (update_user E i dn)"
    and "step_rel db_sound (set_username E i name)"
    and "step_rel db_sound (get_user_by_username E name)"
    and "step_rel db_sound (revoke_credential E i cid)"
    and "step_rel db_sound (get_user_home_chain E a)"
    and "step_rel db_sound (set_user_home_chain E token provided a chain ovr operator)"
  unfolding create_user_def get_user_by_address_def get_user_by_credential_id_def list_credentials_def
    add_credential_def update_user_def set_username_def get_user_by_username_def revoke_credential_def
    get_user_home_chain_def set_user_home_chain_def user_add_credential_def
  by (auto intro!: handler_sound assms dest: validated credential_new_valid)

lemma discard_sound: "step_rel db_sound m \<Longrightarrow> step_rel db_sound (discard m)"
  unfolding discard_def by (intro db_evolution.rules)

lemma serve_sound: "reliable E \<Longrightarrow> step_rel db_sound (serve E token req)"
  by (cases req) (simp_all add: discard_sound handlers_sound)

text \<open>
  The rely condition closes the circle: an environment in which the others are instances of this
  service, serving any requests of their own before each statement, is reliable.
\<close>

definition served :: "uenv \<Rightarrow> string option \<Rightarrow> request list \<Rightarrow> nat \<Rightarrow> tables \<Rightarrow> tables" where
  "served F token reqs k t = tables (snd (run_state (for_each (serve F token) reqs) \<lparr>statements = k, tables = t\<rparr>))"

lemma served_reliable:
  assumes "reliable F"
  shows "reliable (E\<lparr>others := \<lambda>n. served F token (reqs n) (k n)\<rparr>)"
proof -
  have "sound t (served F token rs k t)" for rs k t
  proof -
    have "step_rel db_sound (for_each (serve F token) rs)"
      using serve_sound [OF assms] by (rule db_evolution.for_each)
    from step_relD [OF this surjective_pairing, of "\<lparr>statements = k, tables = t\<rparr>"] show ?thesis
      by (simp add: served_def)
  qed
  then show ?thesis by (simp add: reliable_def)
qed

lemma quiet_reliable: "(\<And>n t. others E n t = t) \<Longrightarrow> reliable E"
  by (simp add: reliable_def)

text \<open>
  C3. Every handler keeps the tables consistent and only lets them evolve, whatever statements of
  other handlers run between its own, as long as those do the same: ids, credential ids, addresses
  and lower-case names stay unique, every credential has an owner, addresses and names are valid;
  users and credentials never disappear, a revocation is final, a home chain once set stays set, a
  user with an active credential keeps one, and the audit table only grows.
\<close>

theorem handlers_keep_invariant:
  assumes "reliable E" "wf_tables (tables s)"
  shows "wf_tables (tables (snd (run_state (serve E token req) s))) \<and>
    evolves (tables s) (tables (snd (run_state (serve E token req) s)))"
  using serve_sound [OF assms(1), of token req] assms(2) by (simp add: step_rel_def sound_def)

section \<open>A quiet database\<close>

text \<open>What a handler does when nothing else runs and no statement fails.\<close>

definition quiet :: "uenv \<Rightarrow> bool" where
  "quiet E \<longleftrightarrow> (\<forall>n t. others E n t = t) \<and> (\<forall>n. stmt_error E n = None)"

lemma run_statement_quiet:
  "quiet E \<Longrightarrow> run_state (statement E f) s =
     (fst (f (statements s) (tables s)),
      s\<lparr>statements := Suc (statements s), tables := snd (f (statements s) (tables s))\<rparr>)"
  by (simp add: quiet_def statement_def locked_statement_def Let_def)

lemma run_query_quiet:
  "quiet E \<Longrightarrow> run_state (query E f) s =
     (Inr (f (statements s) (tables s)), s\<lparr>statements := Suc (statements s)\<rparr>)"
  by (simp add: quiet_def run_query)

lemmas handler_defs = checked_def awaited_def present_def

lemma held_active: "wf_tables t \<Longrightarrow> held (active_of i t) t = t"
proof -
  assume wf: "wf_tables t"
  have "hold (active_of i t) c = c" if "c \<in> set (credentials t)" for c
  proof -
    have "l = c" if "l \<in> set (active_of i t)" "cr_id l = cr_id c" for l
      using that \<open>c \<in> set (credentials t)\<close> wf unique_key_eq [of cr_id "credentials t" l c]
      by (simp add: wf_tables_def active_of_def)
    then show ?thesis using hold_cases [of "active_of i t" c] by metis
  qed
  then show ?thesis by (simp add: held_alt map_idI)
qed

text \<open>
  Revoking a credential: a user with exactly one active credential gets
  \<open>failed_precondition\<close>, whichever credential the request names; otherwise a credential that is not
  an active one of the user gets \<open>not_found\<close>; in both cases nothing changes. In the remaining case
  exactly the named credential is marked revoked.
\<close>

theorem revoke_credential_spec:
  assumes "quiet E" "wf_tables (tables s)" "parse_uuid E text = Some i"
  shows "case run_state (revoke_credential E text cid) s of (r, s') \<Rightarrow>
    if length (active_of i (tables s)) = 1
    then r = Inl (failed_precondition ''cannot revoke the last active credential'') \<and> tables s' = tables s
    else if \<not> (\<exists>c\<in>set (active_of i (tables s)). cr_credential_id c = cid)
    then r = Inl (not_found ''credential not found or already revoked'') \<and> tables s' = tables s
    else r = Inr True \<and> tables s' = (tables s)\<lparr>credentials := map (\<lambda>c.
      if cr_credential_id c = cid then c\<lparr>cr_revoked_at := Some (now_at E (Suc (statements s)))\<rparr> else c)
        (credentials (tables s))\<rparr>"
proof -
  let ?t = "tables s"
  have rev: "list_ex (revocable i cid) (credentials ?t) \<longleftrightarrow> (\<exists>c\<in>set (active_of i ?t). cr_credential_id c = cid)"
    by (auto simp: list_ex_iff revocable_def active_of_def)
  have all: "map (\<lambda>c. if revocable i cid c then f c else c) (credentials ?t) =
      map (\<lambda>c. if cr_credential_id c = cid then f c else c) (credentials ?t)"
    if ex: "\<exists>c\<in>set (active_of i ?t). cr_credential_id c = cid" for f
  proof -
    obtain c where c: "c \<in> set (credentials ?t)" "revocable i cid c"
      using ex by (auto simp: active_of_def revocable_def)
    have "d = c" if "d \<in> set (credentials ?t)" "cr_credential_id d = cid" for d
      using assms(2) c that unique_key_eq [of cr_credential_id "credentials ?t" d c]
      by (simp add: wf_tables_def revocable_def)
    then have "revocable i cid d \<longleftrightarrow> cr_credential_id d = cid" if "d \<in> set (credentials ?t)" for d
      using c(2) that by (auto simp: revocable_def)
    then show ?thesis by simp
  qed
  show ?thesis
    using assms(1,3) rev all held_active [OF assms(2), of i]
    by (simp add: revoke_credential_def handler_defs credential_revoke_def run_query_quiet
        locked_statement_def quiet_def Let_def domain_err_to_status_def)
qed

section \<open>The directory of addresses\<close>

text \<open>
  What the service promises its clients, as an abstract specification: a partial function from
  addresses to users. Registration and \<open>add_credential\<close> bind a free address, revocation frees an
  address of a user who keeps another one, nothing else changes it.
\<close>

definition directory :: "tables \<Rightarrow> string \<rightharpoonup> Uuid" where
  "directory t a = map_option cr_user_id (find (active_with a) (credentials t))"

fun dir_step :: "uenv \<Rightarrow> request \<Rightarrow> (string \<rightharpoonup> Uuid) \<Rightarrow> (string \<rightharpoonup> Uuid) \<Rightarrow> bool" where
  "dir_step E (CreateUser dn cid pk a) d d' \<longleftrightarrow> d' = d \<or> (\<exists>i. i \<notin> ran d \<and> d a = None \<and> d' = d(a \<mapsto> i))"
| "dir_step E (AddCredential u cid pk a) d d' \<longleftrightarrow>
     d' = d \<or> (\<exists>i. parse_uuid E u = Some i \<and> d a = None \<and> d' = d(a \<mapsto> i))"
| "dir_step E (RevokeCredential u cid) d d' \<longleftrightarrow>
     d' = d \<or> (\<exists>i a b. parse_uuid E u = Some i \<and> d a = Some i \<and> d b = Some i \<and> a \<noteq> b \<and> d' = d(a := None))"
| "dir_step E _ d d' \<longleftrightarrow> d' = d"

text \<open>No one else runs; statements may fail.\<close>

definition alone :: "uenv \<Rightarrow> bool" where
  "alone E \<longleftrightarrow> (\<forall>n t. others E n t = t)"

lemma run_statement_alone:
  "alone E \<Longrightarrow> run_state (statement E f) s =
     (let r = (case stmt_error E (statements s) of Some msg \<Rightarrow> (Inl (OtherError msg), tables s)
                 | None \<Rightarrow> f (statements s) (tables s))
      in (fst r, s\<lparr>statements := Suc (statements s), tables := snd r\<rparr>))"
  by (simp add: alone_def statement_def locked_statement_def Let_def)

lemma directory_credentials: "credentials t' = credentials t \<Longrightarrow> directory t' = directory t"
  by (simp add: directory_def fun_eq_iff)

lemma same_directory:
  assumes "alone E"
  shows "keeps (directory \<circ> tables) (query E f)"
    and "keeps (directory \<circ> tables) (user_insert E dn)"
    and "keeps (directory \<circ> tables) (user_update_display_name E i name)"
    and "keeps (directory \<circ> tables) (user_set_username E i u)"
    and "keeps (directory \<circ> tables) (set_home_chain_if_unset E addr chain)"
    and "keeps (directory \<circ> tables) (set_home_chain_for_decommission E addr chain operator)"
proof -
  have st: "keeps (directory \<circ> tables) (statement E g)"
    if "\<And>n t. credentials (snd (g n t)) = credentials t" for g
    using that by (auto simp: keeps_def run_statement_alone [OF assms] Let_def intro: directory_credentials
        split: option.split)
  have q: "keeps (directory \<circ> tables) (query E h)" for h :: "nat \<Rightarrow> tables \<Rightarrow> 'z"
    unfolding query_def by (intro keeps st) simp
  show "keeps (directory \<circ> tables) (query E f)" by (rule q)
  show "keeps (directory \<circ> tables) (user_insert E dn)"
    "keeps (directory \<circ> tables) (user_update_display_name E i name)"
    "keeps (directory \<circ> tables) (user_set_username E i u)"
    "keeps (directory \<circ> tables) (set_home_chain_if_unset E addr chain)"
    "keeps (directory \<circ> tables) (set_home_chain_for_decommission E addr chain operator)"
    unfolding user_insert_def user_update_display_name_def user_set_username_def
      set_home_chain_if_unset_def set_home_chain_for_decommission_def Let_def
    by (intro keeps st q; simp)+
qed

lemma map_Some_ext: "(\<And>a j. m a = Some j \<longleftrightarrow> m' a = Some j) \<Longrightarrow> m = m'"
  by (rule ext) (metis option.exhaust)

lemma directory_iff:
  assumes "unique_key cr_tempo_address (credentials t)"
  shows "directory t a = Some i \<longleftrightarrow> (\<exists>c\<in>set (credentials t). active_with a c \<and> cr_user_id c = i)"
proof
  assume "directory t a = Some i"
  then show "\<exists>c\<in>set (credentials t). active_with a c \<and> cr_user_id c = i"
    by (auto simp: directory_def find_Some_iff)
next
  assume "\<exists>c\<in>set (credentials t). active_with a c \<and> cr_user_id c = i"
  then obtain c where c: "c \<in> set (credentials t)" "active_with a c" "cr_user_id c = i" by blast
  then obtain d where d: "find (active_with a) (credentials t) = Some d"
    by (cases "find (active_with a) (credentials t)") (auto simp: find_None_iff)
  then have "d \<in> set (credentials t)" "active_with a d" by (auto simp: find_Some_iff)
  then have "d = c" using c unique_key_eq [OF assms, of d c] by (simp add: active_with_def)
  then show "directory t a = Some i" using c d by (simp add: directory_def)
qed

lemma credential_insert_directory:
  assumes "alone E" "run_state (credential_insert E i cid pk addr) s = (r, s')"
  shows "directory (tables s') = directory (tables s) \<or>
    directory (tables s) (addr_str addr) = None \<and> directory (tables s') = (directory (tables s))(addr_str addr \<mapsto> i)"
proof -
  let ?t = "tables s" and ?a = "addr_str addr"
  have free: "find (active_with ?a) (credentials ?t) = None" if "?a \<notin> cr_tempo_address ` set (credentials ?t)"
    using that by (auto simp: find_None_iff active_with_def image_iff)
  have app: "find P (xs @ ys) = (case find P xs of None \<Rightarrow> find P ys | Some x \<Rightarrow> Some x)"
    for P :: "CredentialRow \<Rightarrow> bool" and xs ys by (induction xs) auto
  have "directory (?t\<lparr>credentials := credentials ?t @ [c]\<rparr>) = (directory ?t)(?a \<mapsto> i)"
    if "?a \<notin> cr_tempo_address ` set (credentials ?t)" "cr_tempo_address c = ?a" "cr_revoked_at c = None"
      "cr_user_id c = i" for c
    using free that by (auto simp: directory_def fun_eq_iff app active_with_def split: option.split)
  moreover have "directory ?t ?a = None" if "?a \<notin> cr_tempo_address ` set (credentials ?t)"
    using free that by (simp add: directory_def)
  ultimately show ?thesis
    using assms(2)
    by (auto simp: credential_insert_def run_statement_alone [OF assms(1)] Let_def
        split: option.split_asm if_split_asm)
qed

lemma directory_owner: "wf_tables t \<Longrightarrow> ran (directory t) \<subseteq> ur_id ` set (users t)"
  by (auto simp: ran_def directory_iff wf_tables_def list_all_iff valid_credential_def)

lemma revoked_directory:
  assumes wf: "wf_tables t" and c: "c \<in> set (credentials t)" "revocable i cid c"
  shows "directory (t\<lparr>credentials := map (\<lambda>c. if revocable i cid c
    then c\<lparr>cr_revoked_at := Some now\<rparr> else c) (credentials t)\<rparr>) = (directory t)(cr_tempo_address c := None)"
    (is "directory ?t = _")
proof -
  have u: "unique_key cr_tempo_address (credentials t)" "unique_key cr_credential_id (credentials t)"
    using wf by (simp_all add: wf_tables_def)
  have u': "unique_key cr_tempo_address (credentials ?t)"
    using u(1) by (auto simp: unique_key_def comp_def if_distrib cong: if_cong)
  have only: "revocable i cid d \<longleftrightarrow> d = c" if "d \<in> set (credentials t)" for d
    using that c unique_key_eq [OF u(2), of d c] by (auto simp: revocable_def)
  have addr: "d \<noteq> c \<longleftrightarrow> cr_tempo_address d \<noteq> cr_tempo_address c" if "d \<in> set (credentials t)" for d
    using that c(1) unique_key_eq [OF u(1), of d c] by auto
  have "directory ?t a = Some j \<longleftrightarrow> a \<noteq> cr_tempo_address c \<and> directory t a = Some j" for a j
  proof -
    have "directory ?t a = Some j \<longleftrightarrow> (\<exists>d\<in>set (credentials t). d \<noteq> c \<and> active_with a d \<and> cr_user_id d = j)"
      unfolding directory_iff [OF u'] using only by (auto simp: active_with_def)
    also have "\<dots> \<longleftrightarrow> a \<noteq> cr_tempo_address c \<and> directory t a = Some j"
      unfolding directory_iff [OF u(1)] using addr by (auto simp: active_with_def)
    finally show ?thesis .
  qed
  then show ?thesis by (intro map_Some_ext) auto
qed

lemma revoke_directory:
  assumes "alone E" "wf_tables (tables s)" "run_state (credential_revoke E i cid) s = (r, s')"
  shows "directory (tables s') = directory (tables s) \<or>
    (\<exists>a b. directory (tables s) a = Some i \<and> directory (tables s) b = Some i \<and> a \<noteq> b \<and>
      directory (tables s') = (directory (tables s))(a := None))"
proof -
  let ?t = "tables s"
  have u: "unique_key cr_tempo_address (credentials ?t)" "unique_key cr_credential_id (credentials ?t)"
    using assms(2) by (simp_all add: wf_tables_def)
  have two: "\<exists>a b. directory ?t a = Some i \<and> directory ?t b = Some i \<and> a \<noteq> b \<and>
      directory (?t\<lparr>credentials := map (\<lambda>c. if revocable i cid c
        then c\<lparr>cr_revoked_at := Some now\<rparr> else c) (credentials ?t)\<rparr>) = (directory ?t)(a := None)"
    if c: "c \<in> set (credentials ?t)" "revocable i cid c" and len: "length (active_of i ?t) \<noteq> 1" for c now
  proof -
    have ca: "c \<in> set (active_of i ?t)" "cr_credential_id c = cid" using c by (simp_all add: active_of_def revocable_def)
    have "unique_key cr_credential_id (active_of i ?t)"
      unfolding active_of_def using u(2) by (rule unique_key_filter)
    with two_locked [OF len] ca obtain d where d: "d \<in> set (active_of i ?t)" "cr_credential_id d \<noteq> cid" by fastforce
    then have "cr_tempo_address c \<noteq> cr_tempo_address d"
      using ca unique_key_eq [OF u(1), of c d] by (auto simp: active_of_def)
    moreover have "directory ?t (cr_tempo_address c) = Some i" "directory ?t (cr_tempo_address d) = Some i"
      using ca(1) d(1) by (auto simp: directory_iff [OF u(1)] active_with_def active_of_def)
    ultimately show ?thesis using revoked_directory [OF assms(2) c] by blast
  qed
  show ?thesis
  proof (cases "directory (tables s') = directory ?t")
    case False
    then have len: "length (active_of i ?t) \<noteq> 1" "list_ex (revocable i cid) (credentials ?t)"
      and s': "tables s' = ?t\<lparr>credentials := map (\<lambda>c. if revocable i cid c
        then c\<lparr>cr_revoked_at := Some (now_at E (Suc (statements s)))\<rparr> else c) (credentials ?t)\<rparr>"
      using assms(1,3) held_active [OF assms(2), of i]
      by (auto simp: credential_revoke_def run_query locked_statement_def Let_def alone_def
          split: option.split_asm if_split_asm)
    then show ?thesis using two by (auto simp: list_ex_iff)
  qed simp
qed

lemma keeps_handler:
  "(\<And>x. keeps f (k x)) \<Longrightarrow> keeps f (checked r k)"
  "keeps f m \<Longrightarrow> (\<And>x. keeps f (k x)) \<Longrightarrow> keeps f (awaited m k)"
  "(\<And>x. keeps f (k x)) \<Longrightarrow> keeps f (present r' e k)"
  unfolding handler_defs by (intro keeps; simp)+

lemma reads_directory:
  assumes "alone E"
  shows "keeps (directory \<circ> tables) (user_get_by_id E i)"
    and "keeps (directory \<circ> tables) (get_home_chain_by_tempo_address E addr)"
    and "keeps (directory \<circ> tables) (credential_get_user_by_address E addr)"
    and "keeps (directory \<circ> tables) (credential_get_user_by_credential_id E cid)"
    and "keeps (directory \<circ> tables) (credential_get_user_by_username E name)"
    and "keeps (directory \<circ> tables) (credential_list E i active_only)"
  unfolding user_get_by_id_def get_home_chain_by_tempo_address_def
    credential_get_user_by_address_def credential_get_user_by_credential_id_def
    credential_get_user_by_username_def credential_list_def
  by (intro keeps same_directory assms)+

lemma stutter:
  assumes "alone E"
  shows "keeps (directory \<circ> tables) (get_user_by_address E a)"
    and "keeps (directory \<circ> tables) (get_user_by_credential_id E cid)"
    and "keeps (directory \<circ> tables) (list_credentials E u)"
    and "keeps (directory \<circ> tables) (update_user E u dn)"
    and "keeps (directory \<circ> tables) (set_username E u name)"
    and "keeps (directory \<circ> tables) (get_user_by_username E name)"
    and "keeps (directory \<circ> tables) (get_user_home_chain E a)"
    and "keeps (directory \<circ> tables) (set_user_home_chain E token provided a chain ovr operator)"
  unfolding get_user_by_address_def get_user_by_credential_id_def list_credentials_def update_user_def
    set_username_def get_user_by_username_def get_user_home_chain_def set_user_home_chain_def
  by (intro keeps keeps_handler same_directory reads_directory assms)+

lemma add_credential_directory:
  assumes "alone E" "run_state (add_credential E u cid pk a) s = (r, s')"
  shows "dir_step E (AddCredential u cid pk a) (directory (tables s)) (directory (tables s'))"
proof (cases "parse_uuid E u")
  case None
  then show ?thesis using assms(2) by (simp add: add_credential_def handler_defs)
next
  case (Some i)
  obtain q s1 where q: "run_state (user_get_by_id E i) s = (q, s1)" by fastforce
  have d1: "directory (tables s1) = directory (tables s)"
    using keepsD [OF reads_directory(1) [OF assms(1)] q] by simp
  show ?thesis
  proof (cases "\<exists>user c. q = Inr (Some user) \<and>
      user_add_credential (random_uuid E (statements s1)) (now_at E (statements s1)) user cid pk a = Inr c")
    case True
    then obtain user c where c: "q = Inr (Some user)"
      "user_add_credential (random_uuid E (statements s1)) (now_at E (statements s1)) user cid pk a = Inr c" by blast
    then have "s' = snd (run_state (credential_insert E i (cd_credential_id c) (cd_public_key c) (cd_tempo_address c)) s1)"
      using assms(2) Some q by (simp add: add_credential_def handler_defs split_beta split: sum.split_asm)
    moreover have "addr_str (cd_tempo_address c) = a"
      using c(2) credential_new_valid by (simp add: user_add_credential_def)
    ultimately show ?thesis
      using credential_insert_directory [OF assms(1) prod.collapse [symmetric], of i "cd_credential_id c"
          "cd_public_key c" "cd_tempo_address c" s1] Some d1 by auto
  next
    case False
    then have "s' = s1"
      using assms(2) Some q
      by (cases q) (auto simp: add_credential_def handler_defs split: sum.split_asm option.split_asm)
    then show ?thesis using d1 by simp
  qed
qed

lemma create_user_directory:
  assumes "alone E" "wf_tables (tables s)" "run_state (create_user E dn cid pk a) s = (r, s')"
  shows "dir_step E (CreateUser dn cid pk a) (directory (tables s)) (directory (tables s'))"
proof (cases "credential_new (random_uuid E (statements s)) (now_at E (statements s)) 0 cid pk a")
  case (Inl e)
  then show ?thesis using assms(3) by (simp add: create_user_def handler_defs)
next
  case new_c: (Inr c)
  obtain q s1 where q: "run_state (user_insert E dn) s = (q, s1)" by fastforce
  have d1: "directory (tables s1) = directory (tables s)"
    using keepsD [OF same_directory(2) [OF assms(1)] q] by simp
  have new: "i \<notin> ran (directory (tables s))" if "q = Inr i" for i
    using q that directory_owner [OF assms(2)]
    by (auto simp: user_insert_def Let_def run_statement_alone [OF assms(1)] split: option.split_asm if_split_asm)
  show ?thesis
  proof (cases q)
    case (Inr i)
    then have "s' = snd (run_state (credential_insert E i (cd_credential_id c) (cd_public_key c) (cd_tempo_address c)) s1)"
      using assms(3) new_c q by (simp add: create_user_def handler_defs split_beta split: sum.split_asm)
    then show ?thesis
      using credential_insert_directory [OF assms(1) prod.collapse [symmetric], of i "cd_credential_id c"
          "cd_public_key c" "cd_tempo_address c" s1] new [OF Inr] d1 credential_new_valid [OF new_c] by auto
  next
    case (Inl e)
    then have "s' = s1" using assms(3) new_c q by (simp add: create_user_def handler_defs)
    then show ?thesis using d1 by simp
  qed
qed

lemma revoke_credential_directory:
  assumes "alone E" "wf_tables (tables s)" "run_state (revoke_credential E u cid) s = (r, s')"
  shows "dir_step E (RevokeCredential u cid) (directory (tables s)) (directory (tables s'))"
proof (cases "parse_uuid E u")
  case (Some i)
  obtain q s1 where q: "run_state (credential_revoke E i cid) s = (q, s1)" by fastforce
  have "s' = s1" using assms(3) Some q by (simp add: revoke_credential_def handler_defs split: sum.split_asm)
  then show ?thesis using revoke_directory [OF assms(1,2) q] Some by auto
qed (use assms(3) in \<open>simp add: revoke_credential_def handler_defs\<close>)

lemma run_discard: "snd (run_state (discard m) s) = snd (run_state m s)"
  by (simp add: discard_def split_beta)

text \<open>
  C12. The service refines the address directory: serving a request changes the map from addresses to
  their users only as the abstract operation of that request allows. Registration binds the given
  address to a user who had none, \<open>add_credential\<close> binds it to the named user, both only if it was
  free; revocation frees one address of the named user, who keeps another; every other request
  leaves the map alone. Statements may fail at any point, but no other handler runs while the request
  is served. (The tables are well-formed before.)
\<close>

theorem service_refines_directory:
  assumes "alone E" "wf_tables (tables s)"
  shows "dir_step E req (directory (tables s)) (directory (tables (snd (run_state (serve E token req) s))))"
proof (cases req)
  case CreateUser
  then show ?thesis using create_user_directory [OF assms surjective_pairing] by (simp add: run_discard del: dir_step.simps)
next
  case AddCredential
  then show ?thesis using add_credential_directory [OF assms(1) surjective_pairing]
    by (simp add: run_discard del: dir_step.simps)
next
  case RevokeCredential
  then show ?thesis using revoke_credential_directory [OF assms surjective_pairing]
    by (simp add: run_discard del: dir_step.simps)
qed (use stutter [OF assms(1), unfolded keeps_def comp_def] in \<open>simp_all add: run_discard\<close>)

section \<open>Registration and lookup\<close>

lemma set_joined: "set (joined t) = {(c, u). c \<in> set (credentials t) \<and> u \<in> set (users t) \<and> ur_id u = cr_user_id c}"
  by (auto simp: joined_def)

lemma pick_only: "xs \<noteq> [] \<Longrightarrow> (\<And>x. x \<in> set xs \<Longrightarrow> x = y) \<Longrightarrow> pick E n xs = Some y"
  by (simp add: pick_def)

lemma pick_mem: "xs \<noteq> [] \<Longrightarrow> \<exists>x\<in>set xs. pick E n xs = Some x"
  by (simp add: pick_def)

lemma find_only:
  assumes "y \<in> set xs" "P y" "\<And>x. x \<in> set xs \<Longrightarrow> P x \<Longrightarrow> x = y"
  shows "find P xs = Some y"
proof (cases "find P xs")
  case None
  then show ?thesis using assms(1,2) by (simp add: find_None_iff)
next
  case (Some x)
  then have "x \<in> set xs" "P x" by (auto simp: find_Some_iff)
  then show ?thesis using assms(3) Some by simp
qed

lemma find_joined:
  assumes "wf_tables t" "c \<in> set (credentials t)" "u \<in> set (users t)" "ur_id u = cr_user_id c" "P c"
    "\<And>d. d \<in> set (credentials t) \<Longrightarrow> P d \<Longrightarrow> d = c"
  shows "find (\<lambda>(c, u). P c) (joined t) = Some (c, u)"
proof (rule find_only)
  fix x
  assume x: "x \<in> set (joined t)" "(\<lambda>(c, u). P c) x"
  obtain d v where dv: "x = (d, v)" by fastforce
  have "unique_key ur_id (users t)" using assms(1) by (simp add: wf_tables_def)
  moreover have d: "d = c" using x dv assms(6) by (simp add: set_joined)
  ultimately have "v = u" using x dv assms(3,4) unique_key_eq [of ur_id "users t" v u] by (simp add: set_joined)
  then show "x = (c, u)" using d dv by simp
qed (use assms(2-5) in \<open>simp_all add: set_joined\<close>)

text \<open>
  C27. A registration is found again: when the address is valid, neither it nor the credential id is
  taken, the generated ids are new, no statement fails and no other handler interferes, \<open>create_user\<close> returns the new user's id, and then both
  lookups, by address and by credential id, return that user with the given name, key and address,
  active and not revoked.
\<close>

theorem create_user_found:
  assumes "quiet E" "wf_tables (tables s)" "valid_tempo_address a"
    "random_uuid E (statements s) \<notin> ur_id ` set (users (tables s))"
    "random_uuid E (Suc (statements s)) \<notin> cr_id ` set (credentials (tables s))"
    "cid \<notin> cr_credential_id ` set (credentials (tables s))"
    "a \<notin> cr_tempo_address ` set (credentials (tables s))"
  shows "case run_state (create_user E dn cid pk a) s of (r, s') \<Rightarrow>
    let i = show_uuid E (random_uuid E (statements s)); name = (case dn of Some n \<Rightarrow> n | None \<Rightarrow> [])
    in r = Inr i \<and>
      fst (run_state (get_user_by_address E a) s') =
        Inr \<lparr>pf_user_id = i, pf_display_name = name, pf_status = ''active'', pf_tempo_address = a, pf_username = []\<rparr> \<and>
      fst (run_state (get_user_by_credential_id E cid) s') =
        Inr \<lparr>gc_user_id = i, gc_display_name = name, gc_status = ''active'', gc_tempo_address = a,
          gc_username = [], gc_public_key = pk, gc_revoked = False\<rparr>"
proof -
  let ?n = "statements s" and ?t = "tables s"
  define u where "u = \<lparr>ur_id = random_uuid E ?n, ur_display_name = (case dn of Some n \<Rightarrow> n | None \<Rightarrow> []),
    ur_username = None, ur_status = ''active'', ur_home_chain = None, ur_created_at = now_at E ?n,
    ur_updated_at = now_at E ?n\<rparr>"
  define c where "c = \<lparr>cr_id = random_uuid E (Suc ?n), cr_user_id = ur_id u, cr_credential_id = cid,
    cr_public_key = pk, cr_tempo_address = a, cr_revoked_at = None, cr_created_at = now_at E (Suc ?n)\<rparr>"
  define t' where "t' = ?t\<lparr>users := users ?t @ [u], credentials := credentials ?t @ [c]\<rparr>"
  have run: "run_state (create_user E dn cid pk a) s =
      (Inr (show_uuid E (ur_id u)), s\<lparr>statements := Suc (Suc ?n), tables := t'\<rparr>)"
    using assms
    by (simp add: create_user_def handler_defs credential_new_def tempo_address_try_from_def user_insert_def
        credential_insert_def run_statement_quiet u_def c_def t'_def)
  have "sound ?t (?t\<lparr>users := users ?t @ [u]\<rparr>)"
    using assms(4) by (intro new_user_sound) (simp_all add: u_def)
  moreover have "sound (?t\<lparr>users := users ?t @ [u]\<rparr>)
      (?t\<lparr>users := users ?t @ [u]\<rparr>\<lparr>credentials := credentials (?t\<lparr>users := users ?t @ [u]\<rparr>) @ [c]\<rparr>)"
    using assms(3,5-7) by (intro new_credential_sound) (simp_all add: c_def valid_credential_def)
  ultimately have wf: "wf_tables t'" using assms(2) by (simp add: sound_def t'_def)
  have cu: "c \<in> set (credentials t')" "u \<in> set (users t')" "ur_id u = cr_user_id c"
    by (simp_all add: t'_def c_def)
  have new: "active_with a d \<Longrightarrow> d = c" "cr_credential_id d = cid \<Longrightarrow> d = c" if "d \<in> set (credentials t')" for d
    using that assms(6,7) by (auto simp: t'_def active_with_def image_iff)
  have "find (\<lambda>(c, u). active_with a c) (joined t') = Some (c, u)"
    using wf cu by (rule find_joined) (simp add: c_def active_with_def, rule new(1))
  moreover have "find (\<lambda>(c, u). cr_credential_id c = cid) (joined t') = Some (c, u)"
    using wf cu by (rule find_joined) (simp add: c_def, rule new(2))
  ultimately show ?thesis
    using assms(1,3)
    by (simp add: run get_user_by_address_def get_user_by_credential_id_def handler_defs tempo_address_try_from_def
        credential_get_user_by_address_def credential_get_user_by_credential_id_def run_query_quiet
        user_with_credential_def credential_auth_lookup_def profile_of_def username_or_empty_def
        status_or_active_def user_status_from_str_def u_def c_def Let_def)
qed

text \<open>
  Registration is not atomic: when the address is valid but already registered (or the
  credential id is), the handler answers \<open>already_exists\<close> after it has inserted the user, so every
  such request leaves behind a user without any credential.
\<close>

theorem create_user_orphan:
  assumes "quiet E" "valid_tempo_address a"
    "random_uuid E (statements s) \<notin> ur_id ` set (users (tables s))"
    "a \<in> cr_tempo_address ` set (credentials (tables s)) \<or> cid \<in> cr_credential_id ` set (credentials (tables s))"
  shows "case run_state (create_user E dn cid pk a) s of (r, s') \<Rightarrow>
    r = Inl (already_exists ''address or credential already registered'') \<and>
    map ur_id (users (tables s')) = map ur_id (users (tables s)) @ [random_uuid E (statements s)] \<and>
    credentials (tables s') = credentials (tables s)"
  using assms
  by (auto simp: create_user_def handler_defs credential_new_def tempo_address_try_from_def user_insert_def
      credential_insert_def run_statement_quiet sqlx_to_domain_def domain_err_to_status_def)

section \<open>User names\<close>

definition named :: "string \<Rightarrow> CredentialRow \<times> UserRow \<Rightarrow> bool" where
  "named name = (\<lambda>(c, u). map_option to_lowercase (ur_username u) = Some (to_lowercase name) \<and> cr_revoked_at c = None)"

lemma run_username_lookup:
  assumes "quiet E"
  shows "run_state (credential_get_user_by_username E (Username name)) s =
    (Inr (map_option user_with_credential (pick E (statements s) (filter (named name) (joined (tables s))))),
     s\<lparr>statements := Suc (statements s)\<rparr>)"
  using assms by (simp add: credential_get_user_by_username_def run_query_quiet named_def)

lemma filter_map_inj:
  assumes "distinct (filter_map f xs)" "x \<in> set xs" "y \<in> set xs" "f x = Some k" "f y = Some k"
  shows "x = y"
  using assms by (induction xs) (auto simp: set_filter_map split: option.split_asm)

lemma named_lookup:
  assumes "wf_tables t" "u \<in> set (users t)" "ur_username u = Some name" "active_of (ur_id u) t \<noteq> []"
    "to_lowercase name' = to_lowercase name"
  shows "\<exists>c. pick E n (filter (named name') (joined t)) = Some (c, u)"
proof -
  have only: "v = u" if "(c, v) \<in> set (filter (named name') (joined t))" for c v
  proof -
    have v: "v \<in> set (users t)" "map_option to_lowercase (ur_username v) = Some (to_lowercase name)"
      using that assms(5) by (auto simp: named_def set_joined)
    have "distinct (lower_names t)" using assms(1) by (simp add: wf_tables_def)
    from filter_map_inj [OF this [unfolded lower_names_def] v(1) assms(2)] show ?thesis using v(2) assms(3) by simp
  qed
  obtain c where "c \<in> set (credentials t)" "cr_user_id c = ur_id u" "cr_revoked_at c = None"
    using assms(4) by (auto simp: active_of_ne)
  then have "(c, u) \<in> set (filter (named name') (joined t))"
    using assms(2,3,5) by (simp add: named_def set_joined)
  then have "filter (named name') (joined t) \<noteq> []" by (metis empty_iff list.set(1))
  then obtain x where "x \<in> set (filter (named name') (joined t))"
    "pick E n (filter (named name') (joined t)) = Some x" using pick_mem by blast
  then show ?thesis using only [of "fst x" "snd x"] by (intro exI [of _ "fst x"]) (simp add: prod_eq_iff)
qed

text \<open>
  User names are unique up to case: a name that another user has in any case is refused with
  \<open>already_exists\<close> and nothing changes; otherwise the name of an existing user with an active
  credential is set, and a lookup by any spelling of it that differs only in case returns this user
  and the name as it was given.
\<close>

theorem set_username_spec:
  assumes "quiet E" "wf_tables (tables s)" "parse_uuid E text = Some i" "i \<in> ur_id ` set (users (tables s))"
    "active_of i (tables s) \<noteq> []" "valid_username name" "valid_username name'"
    "to_lowercase name' = to_lowercase name"
  shows "case run_state (set_username E text name) s of (r, s') \<Rightarrow>
    if username_used i name (tables s)
    then r = Inl (already_exists ''username already taken'') \<and> tables s' = tables s
    else (\<exists>p p'. r = Inr p \<and> pf_user_id p = show_uuid E i \<and> pf_username p = name \<and>
      fst (run_state (get_user_by_username E name') s') = Inr p' \<and>
      pf_user_id p' = show_uuid E i \<and> pf_username p' = name)"
proof (cases "username_used i name (tables s)")
  case True
  then show ?thesis
    using assms(1,3,4,6) find_row_None_iff [of ur_id i "users (tables s)"]
    by (auto simp: set_username_def handler_defs username_try_from_def user_get_by_id_def run_query_quiet
        user_set_username_def run_statement_quiet domain_err_to_status_def)
next
  case False
  let ?n = "statements s" and ?t = "tables s"
  define t' where "t' = ?t\<lparr>users := update_rows ur_id i
    (\<lambda>u. u\<lparr>ur_username := Some name, ur_updated_at := now_at E (Suc ?n)\<rparr>) (users ?t)\<rparr>"
  obtain u where u: "find_row ur_id i (users ?t) = Some u"
    using assms(4) find_row_None_iff [of ur_id i "users ?t"] by auto
  let ?u = "u\<lparr>ur_username := Some name, ur_updated_at := now_at E (Suc ?n)\<rparr>"
  have wf: "wf_tables t'"
    using rename_sound [OF assms(6) False] assms(2) by (simp add: sound_def t'_def)
  have mem: "?u \<in> set (users t')"
    using find_row_Some_key [OF u] by (auto simp: t'_def update_rows_def intro!: rev_image_eqI)
  have act: "active_of (ur_id ?u) t' \<noteq> []"
    using assms(5) find_row_Some_key [OF u] by (simp add: t'_def active_of_def)
  obtain c where c: "pick E (Suc (Suc ?n)) (filter (named name) (joined t')) = Some (c, ?u)"
    using named_lookup [OF wf mem _ act] by fastforce
  obtain c' where c': "pick E (Suc (Suc (Suc ?n))) (filter (named name') (joined t')) = Some (c', ?u)"
    using named_lookup [OF wf mem _ act assms(8)] by fastforce
  have run: "run_state (set_username E text name) s =
      (Inr (profile_of E (user_with_credential (c, ?u))), s\<lparr>statements := Suc (Suc (Suc ?n)), tables := t'\<rparr>)"
    using assms(1,3,6) u False c
    by (simp add: set_username_def handler_defs username_try_from_def user_get_by_id_def run_query_quiet
        user_set_username_def run_statement_quiet run_username_lookup t'_def)
  then show ?thesis
    using assms(1,7) False c' find_row_Some_key [OF u]
    by (simp add: get_user_by_username_def handler_defs username_try_from_def run_username_lookup
        profile_of_def user_with_credential_def username_or_empty_def)
qed

section \<open>The home chain\<close>

lemma owner_directory: "wf_tables t \<Longrightarrow> owner E n a t = directory t a"
proof (cases "directory t a")
  case None
  then have "filter (active_with a) (credentials t) = []"
    by (auto simp: directory_def find_None_iff filter_empty_conv)
  then show ?thesis using None by (simp add: owner_def pick_def)
next
  case (Some i)
  assume wf: "wf_tables t"
  then have u: "unique_key cr_tempo_address (credentials t)" by (simp add: wf_tables_def)
  obtain c where c: "c \<in> set (credentials t)" "active_with a c" "cr_user_id c = i"
    using Some by (auto simp: directory_iff [OF u])
  have only: "cr_user_id d = i" if "d \<in> set (credentials t)" "active_with a d" for d
    using that c unique_key_eq [OF u, of d c] by (simp add: active_with_def)
  have "filter (active_with a) (credentials t) \<noteq> []" using c by (auto simp: filter_empty_conv)
  then show ?thesis
    unfolding owner_def Some by (intro pick_only) (auto simp: only)
qed

lemma home_chain_pick:
  assumes "wf_tables t" "directory t a = Some (ur_id u)" "u \<in> set (users t)"
  shows "pick E n [ur_home_chain u. (c, u) \<leftarrow> joined t, active_with a c] = Some (ur_home_chain u)"
proof -
  have k: "unique_key cr_tempo_address (credentials t)" "unique_key ur_id (users t)"
    using assms(1) by (simp_all add: wf_tables_def)
  obtain c where c: "c \<in> set (credentials t)" "active_with a c" "cr_user_id c = ur_id u"
    using assms(2) by (auto simp: directory_iff [OF k(1)])
  have only: "v = u" if "(d, v) \<in> set (joined t)" "active_with a d" for d v
  proof -
    have "d = c" using that c unique_key_eq [OF k(1), of d c] by (simp add: set_joined active_with_def)
    then show ?thesis using that c assms(3) unique_key_eq [OF k(2), of v u] by (simp add: set_joined)
  qed
  have "(c, u) \<in> set (joined t)" using c assms(3) by (simp add: set_joined)
  then have "ur_home_chain u \<in> set [ur_home_chain u. (c, u) \<leftarrow> joined t, active_with a c]"
    using c(2) by auto
  then have "[ur_home_chain u. (c, u) \<leftarrow> joined t, active_with a c] \<noteq> []" by (metis empty_iff list.set(1))
  moreover have "h = ur_home_chain u" if h: "h \<in> set [ur_home_chain u. (c, u) \<leftarrow> joined t, active_with a c]" for h
  proof -
    obtain d v where "(d, v) \<in> set (joined t)" "active_with a d" "h = ur_home_chain v" using h by auto
    then show ?thesis using only [of d v] by simp
  qed
  ultimately show ?thesis by (rule pick_only)
qed

definition home_answer :: "int option \<Rightarrow> bool \<times> u64" where
  "home_answer h = (case h of Some v \<Rightarrow> if 0 \<le> v then (True, word_of_int v) else (False, 0) | None \<Rightarrow> (False, 0))"

lemma run_get_home:
  assumes "quiet E" "valid_tempo_address a" "wf_tables (tables s)" "directory (tables s) a = Some (ur_id u)"
    "u \<in> set (users (tables s))"
  shows "fst (run_state (get_user_home_chain E a) s) = Inr (home_answer (ur_home_chain u))"
  using assms(1,2) home_chain_pick [OF assms(3-5), of E "statements s"]
  by (simp add: get_user_home_chain_def handler_defs tempo_address_try_from_def home_answer_def
      get_home_chain_by_tempo_address_def run_query_quiet split: option.split)

text \<open>What both updates of the home chain do to the owner's row.\<close>

definition with_home :: "(UserRow \<Rightarrow> bool) \<Rightarrow> Uuid \<Rightarrow> int \<Rightarrow> DateTime \<Rightarrow> UserRow list \<Rightarrow> UserRow list" where
  "with_home P i chain now us = map (\<lambda>u. if ur_id u = i \<and> P u
     then u\<lparr>ur_home_chain := Some chain, ur_updated_at := now\<rparr> else u) us"

lemma run_set_home:
  assumes "quiet E" "wf_tables (tables s)" "valid_tempo_address a" "directory (tables s) a = Some i"
  shows "run_state (set_user_home_chain E token provided a chain False op) s =
    (Inr (), s\<lparr>statements := Suc (statements s), tables := (tables s)\<lparr>users :=
      with_home (\<lambda>u. ur_home_chain u = None) i (sint chain) (now_at E (statements s)) (users (tables s))\<rparr>\<rparr>)"
  using assms
  by (simp add: set_user_home_chain_def handler_defs tempo_address_try_from_def set_home_chain_if_unset_def
      run_statement_quiet owner_directory with_home_def)

lemma with_home_sound:
  "sound t (t\<lparr>users := with_home P i chain now (users t), home_chain_audit := home_chain_audit t @ new\<rparr>)"
  unfolding with_home_def by (rule users_update_sound) (simp add: touches_little_def same_user_def)

lemma get_after_home:
  assumes "quiet E" "wf_tables t" "valid_tempo_address a" "directory t a = Some (ur_id u)" "u \<in> set (users t)"
    "tables s' = t\<lparr>users := with_home P (ur_id u) chain now (users t), home_chain_audit := home_chain_audit t @ new\<rparr>"
  shows "fst (run_state (get_user_home_chain E a) s') = Inr (home_answer (if P u then Some chain else ur_home_chain u))"
proof -
  let ?u = "if P u then u\<lparr>ur_home_chain := Some chain, ur_updated_at := now\<rparr> else u"
  have "wf_tables (tables s')" using with_home_sound assms(2,6) by (simp add: sound_def)
  moreover have "directory (tables s') a = Some (ur_id ?u)"
    using assms(4,6) directory_credentials [of "tables s'" t] by simp
  moreover have "?u \<in> set (users (tables s'))"
    using assms(5,6) by (auto simp: with_home_def intro!: rev_image_eqI)
  ultimately have "fst (run_state (get_user_home_chain E a) s') = Inr (home_answer (ur_home_chain ?u))"
    using run_get_home [OF assms(1,3)] by blast
  then show ?thesis by simp
qed

lemma sint_nonneg_iff: "0 \<le> sint (c :: u64) \<longleftrightarrow> c < 2 ^ 63"
proof -
  have u: "uint c = sint c mod 2 ^ 64" by (simp add: uint_sint take_bit_eq_mod)
  have b: "- (2 ^ 63) \<le> sint c" "sint c < 2 ^ 63" using sint_greater_eq [of c] sint_less [of c] by simp_all
  have "c < 2 ^ 63 \<longleftrightarrow> uint c < 2 ^ 63" by (simp add: word_less_def)
  moreover have "uint c = (if 0 \<le> sint c then sint c else sint c + 2 ^ 64)"
  proof (cases "0 \<le> sint c")
    case True
    then show ?thesis using u b by simp
  next
    case False
    have "sint c mod 2 ^ 64 = (sint c + 2 ^ 64) mod 2 ^ 64" by simp
    also have "\<dots> = sint c + 2 ^ 64" using False b by (intro mod_pos_pos_trivial) simp_all
    finally show ?thesis using u False by simp
  qed
  ultimately show ?thesis using b by (simp split: if_split_asm)
qed

text \<open>
  The home chain is sticky: setting it without the override succeeds, and afterwards the lookup
  reports the chain that was set first: the old one if there was one, and otherwise the new one,
  except that a chain id of \<open>2 ^ 63\<close> or more is reported as not found.
\<close>

theorem home_chain_sticky:
  assumes "quiet E" "wf_tables (tables s)" "valid_tempo_address a"
    "directory (tables s) a = Some (ur_id u)" "u \<in> set (users (tables s))"
  shows "case run_state (set_user_home_chain E token provided a chain False operator) s of (r, s') \<Rightarrow>
    r = Inr () \<and> fst (run_state (get_user_home_chain E a) s') =
      (case ur_home_chain u of
         Some v \<Rightarrow> fst (run_state (get_user_home_chain E a) s)
       | None \<Rightarrow> Inr (if chain < 2 ^ 63 then (True, chain) else (False, 0)))"
  using get_after_home [OF assms, where P = "\<lambda>u. ur_home_chain u = None" and chain = "sint chain"
      and now = "now_at E (statements s)" and new = "[]"]
    run_get_home [OF assms(1,3,2,4,5)] run_set_home [OF assms(1-4), of token provided chain operator]
  by (simp add: home_answer_def sint_nonneg_iff split: option.split)

text \<open>
  A chain id of \<open>2 ^ 63\<close> or more is stored as a negative number, which the lookup takes for no
  home chain although the column is set: no later deposit on any chain can repair it.
\<close>

theorem home_chain_high_bit_lost:
  assumes "quiet E" "wf_tables (tables s)" "valid_tempo_address a"
    "directory (tables s) a = Some (ur_id u)" "u \<in> set (users (tables s))" "ur_home_chain u = None"
    "2 ^ 63 \<le> chain"
  shows "fst (run_state (do { _ \<leftarrow> set_user_home_chain E token provided a chain False operator;
    _ \<leftarrow> set_user_home_chain E token provided a later False operator; get_user_home_chain E a }) s) =
    Inr (False, 0)"
proof -
  let ?n = "statements s" and ?none = "\<lambda>u. ur_home_chain u = None" and ?i = "ur_id u"
  define s1 where "s1 = s\<lparr>statements := Suc ?n, tables := (tables s)\<lparr>users :=
    with_home ?none ?i (sint chain) (now_at E ?n) (users (tables s))\<rparr>\<rparr>"
  let ?u = "u\<lparr>ur_home_chain := Some (sint chain), ur_updated_at := now_at E ?n\<rparr>"
  have wf: "wf_tables (tables s1)"
    using with_home_sound [where new = "[]"] assms(2) by (simp add: sound_def s1_def)
  have d: "directory (tables s1) a = Some (ur_id ?u)"
    using assms(4) directory_credentials [of "tables s1" "tables s"] by (simp add: s1_def)
  have mem: "?u \<in> set (users (tables s1))"
    using assms(5,6) by (auto simp: s1_def with_home_def intro!: rev_image_eqI)
  have "\<not> 0 \<le> sint chain" using assms(7) by (simp add: sint_nonneg_iff)
  moreover have "fst (run_state (get_user_home_chain E a) (s1\<lparr>statements := Suc (Suc ?n), tables := (tables s1)\<lparr>users :=
      with_home ?none (ur_id ?u) (sint later) (now_at E (Suc ?n)) (users (tables s1))\<rparr>\<rparr>)) = Inr (home_answer (Some (sint chain)))"
    using get_after_home [OF assms(1) wf assms(3) d mem, where P = ?none and chain = "sint later"
        and now = "now_at E (Suc ?n)" and new = "[]"] by simp
  moreover have "run_state (set_user_home_chain E token provided a chain False operator) s = (Inr (), s1)"
    unfolding s1_def by (rule run_set_home [OF assms(1-4)])
  moreover have "statements s1 = Suc ?n" by (simp add: s1_def)
  ultimately show ?thesis using run_set_home [OF assms(1) wf assms(3) d, of token provided later operator]
    by (simp add: home_answer_def)
qed

definition override_audit :: "uenv \<Rightarrow> users_db \<Rightarrow> string \<Rightarrow> UserRow \<Rightarrow> u64 \<Rightarrow> string \<Rightarrow> home_chain_audit_row" where
  "override_audit E s a u chain operator =
     \<lparr>ha_tempo_address = a, ha_previous_chain = ur_home_chain u, ha_new_chain = sint chain,
      ha_operator = (if trim operator = [] then ''treasury-decommission-orchestrator'' else trim operator),
      ha_reason = ''chain_decommission'', ha_created_at = now_at E (Suc (statements s))\<rparr>"

lemma run_override:
  assumes "quiet E" "wf_tables (tables s)" "valid_tempo_address a"
    "directory (tables s) a = Some (ur_id u)" "u \<in> set (users (tables s))"
  shows "run_state (set_user_home_chain E (Some secret) (Some secret) a chain True operator) s =
    (Inr (), s\<lparr>statements := Suc (Suc (statements s)), tables := (tables s)\<lparr>
      users := with_home (\<lambda>_. True) (ur_id u) (sint chain) (now_at E (Suc (statements s))) (users (tables s)),
      home_chain_audit := home_chain_audit (tables s) @ [override_audit E s a u chain operator]\<rparr>\<rparr>)"
proof -
  have "list_ex (\<lambda>v. ur_id v = ur_id u) (users (tables s))" using assms(5) by (auto simp: list_ex_iff)
  then show ?thesis
    using assms(1-4) home_chain_pick [OF assms(2,4,5), of E "statements s"]
    by (auto simp: set_user_home_chain_def decommission_override_denial_def handler_defs override_audit_def
        tempo_address_try_from_def set_home_chain_for_decommission_def run_query_quiet run_statement_quiet
        owner_directory with_home_def)
qed

text \<open>
  The home chain of a user is overridden only with the orchestrator's token: when the service
  has no token configured or the request carries a different one, the request is denied and nothing
  changes; otherwise the chain is replaced whatever it was, and one audit row records the address,
  the previous and the new chain and the operator.
\<close>

theorem override_needs_token:
  assumes "quiet E" "wf_tables (tables s)" "valid_tempo_address a"
    "directory (tables s) a = Some (ur_id u)" "u \<in> set (users (tables s))"
  shows "case run_state (set_user_home_chain E token provided a chain True operator) s of (r, s') \<Rightarrow>
    if token = None \<or> provided \<noteq> token then (\<exists>m. r = Inl (permission_denied m)) \<and> s' = s
    else r = Inr () \<and>
      fst (run_state (get_user_home_chain E a) s') = Inr (if chain < 2 ^ 63 then (True, chain) else (False, 0)) \<and>
      home_chain_audit (tables s') = home_chain_audit (tables s) @
        [\<lparr>ha_tempo_address = a, ha_previous_chain = ur_home_chain u, ha_new_chain = sint chain,
          ha_operator = (if trim operator = [] then ''treasury-decommission-orchestrator'' else trim operator),
          ha_reason = ''chain_decommission'', ha_created_at = now_at E (Suc (statements s))\<rparr>]"
proof (cases "token = None \<or> provided \<noteq> token")
  case True
  then show ?thesis
    by (auto simp: set_user_home_chain_def decommission_override_denial_def split: option.split)
next
  case False
  then obtain secret where "token = Some secret" "provided = Some secret" by (cases token) auto
  then show ?thesis
    using run_override [OF assms, of secret chain operator] get_after_home [OF assms, where P = "\<lambda>_. True"
        and chain = "sint chain" and now = "now_at E (Suc (statements s))" and new = "[override_audit E s a u chain operator]"]
    by (simp add: home_answer_def sint_nonneg_iff override_audit_def)
qed

section \<open>Concrete runs\<close>

definition sample_uenv :: uenv where
  "sample_uenv =
     \<lparr>others = (\<lambda>n t. t), stmt_error = (\<lambda>n. None), random_uuid = (\<lambda>n. of_nat (100 + n)), now_at = (\<lambda>n. n),
      limit_1 = (\<lambda>n. 0), parse_uuid = (\<lambda>s. if s = ''7'' then Some 7 else None),
      show_uuid = (\<lambda>i. if i = 7 then ''7'' else ''new''), url_safe_no_pad = (\<lambda>b. []), rfc3339 = (\<lambda>t. [])\<rparr>"

definition sample_address :: "char \<Rightarrow> string" where
  "sample_address c = ''0x'' @ replicate 40 c"

definition sample_user :: UserRow where
  "sample_user = \<lparr>ur_id = 7, ur_display_name = ''Ada'', ur_username = None, ur_status = ''active'',
     ur_home_chain = None, ur_created_at = 0, ur_updated_at = 0\<rparr>"

definition sample_credential :: "nat \<Rightarrow> char \<Rightarrow> CredentialRow" where
  "sample_credential k c = \<lparr>cr_id = of_nat k, cr_user_id = 7, cr_credential_id = [of_nat k], cr_public_key = [],
     cr_tempo_address = sample_address c, cr_revoked_at = None, cr_created_at = 0\<rparr>"

definition sample_db :: users_db where
  "sample_db = \<lparr>statements = 0, tables = \<lparr>users = [sample_user],
     credentials = [sample_credential 1 CHR ''a'', sample_credential 2 CHR ''b''], home_chain_audit = []\<rparr>\<rparr>"

lemma sample_quiet: "quiet sample_uenv" "alone sample_uenv" "reliable sample_uenv"
  by (simp_all add: quiet_def alone_def sample_uenv_def reliable_def)

lemma sample_valid: "valid_tempo_address (sample_address CHR ''a'')" "valid_tempo_address (sample_address CHR ''b'')"
  "valid_tempo_address (sample_address CHR ''c'')"
  by (simp_all add: valid_tempo_address_def sample_address_def is_hex_char_def in_range_def list_all_iff)

lemma sample_address_inj: "sample_address c = sample_address d \<longleftrightarrow> c = d"
  by (simp add: sample_address_def)

lemmas sample_simps = sample_db_def sample_user_def sample_credential_def sample_address_inj

lemma sample_wf: "wf_tables (tables sample_db)"
  using sample_valid
  by (simp add: wf_tables_def unique_key_def lower_names_def valid_user_def valid_credential_def sample_simps)

lemma sample_directory: "directory (tables sample_db) (sample_address CHR ''a'') = Some (ur_id sample_user)"
  "sample_user \<in> set (users (tables sample_db))" "ur_home_chain sample_user = None"
  by (simp_all add: directory_def active_with_def sample_simps)

theorem handlers_keep_invariant_witness:
  "wf_tables (tables (snd (run_state (serve
     (sample_uenv\<lparr>others := \<lambda>n. served sample_uenv None [RevokeCredential ''7'' [1]] 0\<rparr>)
     None (RevokeCredential ''7'' [2])) sample_db)))"
proof -
  let ?E = "sample_uenv\<lparr>others := \<lambda>n. served sample_uenv None [RevokeCredential ''7'' [1]] 0\<rparr>"
  have "reliable ?E" by (rule served_reliable [OF sample_quiet(3)])
  from handlers_keep_invariant [OF this sample_wf] show ?thesis ..
qed

theorem revoke_credential_spec_witness:
  "fst (run_state (revoke_credential sample_uenv ''7'' [1]) sample_db) = Inr True"
  using revoke_credential_spec [OF sample_quiet(1) sample_wf, of "''7''" 7 "[1]"]
  by (simp add: split_beta sample_uenv_def active_of_def sample_simps)

theorem service_refines_directory_witness:
  "dir_step sample_uenv (RevokeCredential ''7'' [1]) (directory (tables sample_db))
     (directory (tables (snd (run_state (serve sample_uenv None (RevokeCredential ''7'' [1])) sample_db))))"
  by (rule service_refines_directory [OF sample_quiet(2) sample_wf])

theorem create_user_found_witness:
  "fst (run_state (create_user sample_uenv None [3] [] (sample_address CHR ''c'')) sample_db) = Inr ''new''"
  using create_user_found [OF sample_quiet(1) sample_wf sample_valid(3), of "[3]" None "[]"]
  by (simp add: split_beta sample_uenv_def sample_simps Let_def)

theorem create_user_orphan_witness:
  "map ur_id (users (tables (snd (run_state
     (create_user sample_uenv None [3] [] (sample_address CHR ''a'')) sample_db)))) = [7, 100]"
  using create_user_orphan [OF sample_quiet(1) sample_valid(1), of sample_db "[3]" None "[]"]
  by (simp add: split_beta sample_uenv_def sample_simps)

theorem set_username_spec_witness:
  "\<exists>p. fst (run_state (set_username sample_uenv ''7'' ''Ada'') sample_db) = Inr p \<and> pf_username p = ''Ada''"
proof -
  have v: "valid_username ''Ada''" "valid_username ''ada''" "to_lowercase ''ada'' = to_lowercase ''Ada''" by code_simp+
  have "\<not> username_used 7 ''Ada'' (tables sample_db)" by (simp add: username_used_def sample_simps)
  then show ?thesis
    using set_username_spec [OF sample_quiet(1) sample_wf, of "''7''" 7, OF _ _ _ v]
    by (auto simp: split_beta sample_uenv_def active_of_def sample_simps)
qed

theorem home_chain_sticky_witness:
  "fst (run_state (set_user_home_chain sample_uenv None None (sample_address CHR ''a'') 5 False []) sample_db) = Inr ()"
  using home_chain_sticky [OF sample_quiet(1) sample_wf sample_valid(1) sample_directory(1,2),
      where token = None and provided = None and chain = 5 and operator = "[]"]
  by (simp add: split_beta)

theorem home_chain_high_bit_lost_witness:
  "fst (run_state (do { _ \<leftarrow> set_user_home_chain sample_uenv None None (sample_address CHR ''a'') (2 ^ 63) False [];
     _ \<leftarrow> set_user_home_chain sample_uenv None None (sample_address CHR ''a'') 5 False [];
     get_user_home_chain sample_uenv (sample_address CHR ''a'') }) sample_db) = Inr (False, 0)"
  by (rule home_chain_high_bit_lost [OF sample_quiet(1) sample_wf sample_valid(1) sample_directory]) simp

theorem override_needs_token_witness:
  "snd (run_state (set_user_home_chain sample_uenv None (Some ''x'') (sample_address CHR ''a'') 5 True []) sample_db) =
     sample_db"
  using override_needs_token [OF sample_quiet(1) sample_wf sample_valid(1) sample_directory(1,2),
      where token = None and provided = "Some ''x''" and chain = 5 and operator = "[]"]
  by (simp add: split_beta)

end
