(* ===== verification/AccountStore.thy ===== *)
theory AccountStore
  imports Route Table UserService
begin

text \<open>
  The account event store of the treasury service (\<open>db/account_event_repo.rs\<close>) and its client of
  the user service. The record \<open>accounts\<close> extends the hot path's view of the chains with the two
  tables, the token address cache, the block time cache, and the user service's database, which is
  reached only through that service's own handler. A signed column (\<open>chain_id\<close>, \<open>log_index\<close>,
  \<open>block_number\<close>) is kept as the word with the same bits; comparisons read it with \<open>sint\<close>.
\<close>

section \<open>State\<close>

record accounts = router +
  account_events :: "AccountEventRow list"
  index_cursors :: "ChainId \<rightharpoonup> u64"
  sync_usd_cache :: "ChainId \<rightharpoonup> string"
  block_time_cache :: "ChainId \<times> u64 \<rightharpoonup> int"
  user_db :: users_db

section \<open>The event repository\<close>

datatype UpsertEventResult = Inserted | EventExists

definition event_key :: "AccountEventRow \<Rightarrow> u64 \<times> string \<times> u32" where
  "event_key r = (ae_chain_id r, ae_tx_hash r, ae_log_index r)"

definition upsert_event :: "env \<Rightarrow> AccountEventRow \<Rightarrow> ('m accounts_scheme, UpsertEventResult) state" where
  "upsert_event E row = do {
     rows \<leftarrow> gets account_events;
     up \<leftarrow> db E;
     (if \<not> up then ret EventExists
      else if event_key row \<in> event_key ` set rows then ret EventExists
      else do {
        modify (\<lambda>s. s\<lparr>account_events := insert_row event_key row (account_events s)\<rparr>);
        ret Inserted
      })
   }"

definition set_cursor :: "env \<Rightarrow> ChainId \<Rightarrow> u64 \<Rightarrow> ('m accounts_scheme, unit) state" where
  "set_cursor E chain_id last_block = do {
     up \<leftarrow> db E;
     (if up then modify (\<lambda>s. s\<lparr>index_cursors := (index_cursors s)(chain_id \<mapsto> last_block)\<rparr>) else ret ())
   }"

definition get_cursor :: "env \<Rightarrow> ChainId \<Rightarrow> ('m accounts_scheme, u64 option) state" where
  "get_cursor E chain_id = do {
     c \<leftarrow> gets (\<lambda>s. index_cursors s chain_id);
     up \<leftarrow> db E;
     ret (if up then c else None)
   }"

definition is_deposit_to :: "string \<Rightarrow> AccountEventRow \<Rightarrow> bool" where
  "is_deposit_to user r \<longleftrightarrow> ae_event_kind r = ''deposited'' \<and> ae_address_to r = Some user"

definition user_has_deposit :: "env \<Rightarrow> string \<Rightarrow> ('m accounts_scheme, bool) state" where
  "user_has_deposit E user_address = do {
     rows \<leftarrow> gets account_events;
     up \<leftarrow> db E;
     ret (up \<and> list_ex (is_deposit_to user_address) rows)
   }"

text \<open>
  The balance query: six sums over the events of the chain, by kind and side. A text that is no
  number cannot be in the numeric column.
\<close>

definition wei :: "AccountEventRow \<Rightarrow> int" where
  "wei r = (case parse_radix 10 (10 ^ 78) (ae_amount_wei r) of Inr n \<Rightarrow> int n | Inl _ \<Rightarrow> 0)"

definition side_sum ::
  "ChainId \<Rightarrow> string \<Rightarrow> (AccountEventRow \<Rightarrow> string option) \<Rightarrow> string \<Rightarrow> AccountEventRow list \<Rightarrow> int" where
  "side_sum chain_id kind side addr rows =
     sum_list (map wei (filter (\<lambda>r. ae_chain_id r = chain_id \<and> ae_event_kind r = kind \<and>
       map_option to_lowercase (side r) = Some addr) rows))"

definition balance_query :: "ChainId \<Rightarrow> string \<Rightarrow> AccountEventRow list \<Rightarrow> int" where
  "balance_query chain_id addr rows =
     side_sum chain_id ''deposited'' ae_address_to addr rows
     - side_sum chain_id ''withdrawn'' ae_address_from addr rows
     + side_sum chain_id ''transfer'' ae_address_to addr rows
     - side_sum chain_id ''transfer'' ae_address_from addr rows
     - side_sum chain_id ''hot_path_initiated'' ae_address_from addr rows
     + side_sum chain_id ''hot_path_released'' ae_address_to addr rows"

definition indexed_balance_on_chain :: "env \<Rightarrow> ChainId \<Rightarrow> string \<Rightarrow> ('m accounts_scheme, string) state" where
  "indexed_balance_on_chain E chain_id address = do {
     rows \<leftarrow> gets account_events;
     up \<leftarrow> db E;
     ret (if up then show_int (balance_query chain_id (to_lowercase address) rows) else ''0'')
   }"

text \<open>
  \<open>ORDER BY block_time DESC NULLS LAST, block_number DESC, log_index DESC LIMIT n\<close>: the first of two
  rows is the one with the larger key.
\<close>

definition activity_before :: "AccountEventRow \<Rightarrow> AccountEventRow \<Rightarrow> bool" where
  "activity_before r q \<longleftrightarrow>
     (let rest = sint (ae_block_number q) < sint (ae_block_number r) \<or>
            sint (ae_block_number q) = sint (ae_block_number r) \<and> sint (ae_log_index q) \<le> sint (ae_log_index r)
      in case (ae_block_time_unix r, ae_block_time_unix q) of
           (Some a, Some b) \<Rightarrow> b < a \<or> a = b \<and> rest
         | (Some a, None) \<Rightarrow> True
         | (None, Some b) \<Rightarrow> False
         | (None, None) \<Rightarrow> rest)"

fun activity_insort :: "AccountEventRow \<Rightarrow> AccountEventRow list \<Rightarrow> AccountEventRow list" where
  "activity_insort r [] = [r]"
| "activity_insort r (q # qs) = (if activity_before r q then r # q # qs else q # activity_insort r qs)"

definition activity_sort :: "AccountEventRow list \<Rightarrow> AccountEventRow list" where
  "activity_sort rows = foldr activity_insort rows []"

definition list_activity_for_user ::
  "env \<Rightarrow> string \<Rightarrow> nat \<Rightarrow> ('m accounts_scheme, AccountEventRow list) state" where
  "list_activity_for_user E address limit = do {
     rows \<leftarrow> gets account_events;
     up \<leftarrow> db E;
     let addr = to_lowercase address;
     ret (if up then take limit (activity_sort (filter (\<lambda>r.
            map_option to_lowercase (ae_address_from r) = Some addr \<or>
            map_option to_lowercase (ae_address_to r) = Some addr) rows)) else [])
   }"

section \<open>The user service, as a client sees it\<close>

text \<open>
  Connecting or sending may fail; otherwise the user service runs its handler \<open>set_user_home_chain\<close>
  on its own database and answers with the handler's result.
\<close>

record user_service =
  connect_error :: "nat \<Rightarrow> string \<Rightarrow> string option"
  request_error :: "nat \<Rightarrow> string option"
  service_env :: uenv
  service_token :: "string option"
  status_text :: "Status \<Rightarrow> string"
  metadata_error :: "string \<Rightarrow> string option"

definition endpoint_uri :: "string \<Rightarrow> string" where
  "endpoint_uri endpoint =
     (if starts_with endpoint ''http://'' \<or> starts_with endpoint ''https://'' then endpoint
      else ''http://'' @ endpoint)"

definition connect_user_service ::
  "env \<Rightarrow> user_service \<Rightarrow> string \<Rightarrow> ('m accounts_scheme, string + unit) state" where
  "connect_user_service E G uri = do {
     n \<leftarrow> gets tick;
     modify (tick_on E 0);
     ret (case connect_error G n uri of Some e \<Rightarrow> Inl e | None \<Rightarrow> Inr ())
   }"

definition call_set_user_home_chain ::
  "env \<Rightarrow> user_service \<Rightarrow> string option \<Rightarrow> string \<Rightarrow> u64 \<Rightarrow> bool \<Rightarrow> string
     \<Rightarrow> ('m accounts_scheme, string + unit) state" where
  "call_set_user_home_chain E G token addr chain_id ovr operator = do {
     n \<leftarrow> gets tick;
     modify (tick_on E 0);
     (case request_error G n of
        Some e \<Rightarrow> ret (Inl e)
      | None \<Rightarrow> do {
          u \<leftarrow> gets user_db;
          let r = run_state (UserService.set_user_home_chain (service_env G) (service_token G) token addr
                    chain_id ovr operator) u;
          modify (\<lambda>s. s\<lparr>user_db := snd r\<rparr>);
          ret (case fst r of Inl st \<Rightarrow> Inl (status_text G st) | Inr _ \<Rightarrow> Inr ())
        })
   }"

section \<open>The balance estimate\<close>

text \<open>What one event changes in the balance of an address on a chain.\<close>

definition delta :: "ChainId \<Rightarrow> string \<Rightarrow> AccountEventRow \<Rightarrow> int" where
  "delta chain_id addr r =
     (let kind = ae_event_kind r;
          into = (if map_option to_lowercase (ae_address_to r) = Some addr \<and>
                     kind \<in> {''deposited'', ''transfer'', ''hot_path_released''} then wei r else 0);
          out = (if map_option to_lowercase (ae_address_from r) = Some addr \<and>
                    kind \<in> {''withdrawn'', ''transfer'', ''hot_path_initiated''} then wei r else 0)
      in if ae_chain_id r = chain_id then into - out else 0)"

lemma side_sum_Cons:
  "side_sum chain_id kind side addr (r # rows) =
     (if ae_chain_id r = chain_id \<and> ae_event_kind r = kind \<and> map_option to_lowercase (side r) = Some addr
      then wei r else 0) + side_sum chain_id kind side addr rows"
  by (simp add: side_sum_def del: map_option_eq_Some)

lemma delta_cases:
  fixes w :: int
  shows "(if into \<and> kind \<in> {''deposited'', ''transfer'', ''hot_path_released''} then w else 0) -
      (if out \<and> kind \<in> {''withdrawn'', ''transfer'', ''hot_path_initiated''} then w else 0) =
    (if kind = ''deposited'' \<and> into then w else 0) - (if kind = ''withdrawn'' \<and> out then w else 0) +
    (if kind = ''transfer'' \<and> into then w else 0) - (if kind = ''transfer'' \<and> out then w else 0) -
    (if kind = ''hot_path_initiated'' \<and> out then w else 0) + (if kind = ''hot_path_released'' \<and> into then w else 0)"
  by (cases into; cases out) auto

lemma balance_query_delta: "balance_query chain_id addr rows = sum_list (map (delta chain_id addr) rows)"
proof (induction rows)
  case (Cons r rows)
  have "balance_query chain_id addr (r # rows) = delta chain_id addr r + balance_query chain_id addr rows"
  proof (cases "ae_chain_id r = chain_id")
    case True
    then show ?thesis
      unfolding balance_query_def side_sum_Cons delta_def Let_def delta_cases by (simp del: map_option_eq_Some)
  next
    case False
    then show ?thesis unfolding balance_query_def side_sum_Cons delta_def Let_def by simp
  qed
  then show ?case using Cons by simp
qed (simp add: balance_query_def side_sum_def)

text \<open>
  C30. The indexed balance query, six sums by kind and side, is the fold of the events: each event of
  the chain adds its amount to the address it credits and takes it from the address it debits, a
  transfer to oneself cancels out, and the answer is the decimal text of the result.
\<close>

theorem indexed_balance_is_ledger:
  "fst (run_state (indexed_balance_on_chain E chain_id address) s) =
     (if db_up E (tick s)
      then show_int (sum_list (map (delta chain_id (to_lowercase address)) (account_events s))) else ''0'')"
  by (simp add: indexed_balance_on_chain_def run_db balance_query_delta)

end
