(* ===== verification/AccountIndex.thy ===== *)
theory AccountIndex
  imports AccountStore
begin

text \<open>
  The account indexer (\<open>account_index.rs\<close>): it polls the Bank and token logs of every chain into
  the account event store, keeps a block cursor per chain, and reports a user's first deposit to the
  user service as the home chain. One round of the polling loop is one step.
\<close>

section \<open>Parsing logs\<close>

definition topic_to_address :: "string \<Rightarrow> string option" where
  "topic_to_address topic =
     (case decode_hex topic of
        None \<Rightarrow> None
      | Some raw \<Rightarrow> if length raw < 32 then None else Some (hex_0x (slice 12 32 raw)))"

definition parse_u256_from_data :: "byte list \<Rightarrow> nat \<Rightarrow> u256 option" where
  "parse_u256_from_data data slot =
     (if length data < slot * 32 + 32 then None
      else Some (u256_from_be_bytes (slice (slot * 32) (slot * 32 + 32) data)))"

definition topic_at :: "RpcLog \<Rightarrow> nat \<Rightarrow> string option" where
  "topic_at log i = (if i < length (topics log) then Some (topics log ! i) else None)"

definition event_row ::
  "RpcLog \<Rightarrow> ChainId \<Rightarrow> string \<Rightarrow> string option \<Rightarrow> string option \<Rightarrow> u256 \<Rightarrow> u64 \<Rightarrow> u32 \<Rightarrow> int option
     \<Rightarrow> string option \<Rightarrow> AccountEventRow" where
  "event_row log chain_id kind frm to amount blk idx block_time correlation =
     \<lparr>ae_chain_id = chain_id, ae_tx_hash = transaction_hash log, ae_log_index = idx,
      ae_event_kind = kind, ae_address_from = frm, ae_address_to = to,
      ae_amount_wei = show_nat (unat amount), ae_block_number = blk,
      ae_block_time_unix = block_time, ae_correlation = correlation\<rparr>"

definition parse_deposited ::
  "RpcLog \<Rightarrow> ChainId \<Rightarrow> u64 \<Rightarrow> u32 \<Rightarrow> int option \<Rightarrow> AccountEventRow option" where
  "parse_deposited log chain_id blk idx block_time =
     (case (Option.bind (topic_at log 1) topic_to_address,
            Option.bind (decode_hex (log_data log)) (\<lambda>d. parse_u256_from_data d 0)) of
        (Some user, Some amount) \<Rightarrow>
          Some (event_row log chain_id ''deposited'' None (Some user) amount blk idx block_time None)
      | _ \<Rightarrow> None)"

definition parse_withdrawn ::
  "RpcLog \<Rightarrow> ChainId \<Rightarrow> u64 \<Rightarrow> u32 \<Rightarrow> int option \<Rightarrow> AccountEventRow option" where
  "parse_withdrawn log chain_id blk idx block_time =
     (case (Option.bind (topic_at log 1) topic_to_address,
            Option.bind (decode_hex (log_data log)) (\<lambda>d. parse_u256_from_data d 0)) of
        (Some user, Some amount) \<Rightarrow>
          Some (event_row log chain_id ''withdrawn'' (Some user) None amount blk idx block_time None)
      | _ \<Rightarrow> None)"

definition parse_hot_path_initiated ::
  "RpcLog \<Rightarrow> ChainId \<Rightarrow> u64 \<Rightarrow> u32 \<Rightarrow> int option \<Rightarrow> AccountEventRow option" where
  "parse_hot_path_initiated log chain_id blk idx block_time =
     (if length (topics log) < 3 then None
      else
        (case (topic_to_address (topics log ! 1), topic_to_address (topics log ! 2), decode_hex (log_data log)) of
           (Some sender, Some recipient, Some data) \<Rightarrow>
             if length data < 96 then None
             else
               (case parse_u256_from_data data 0 of
                  None \<Rightarrow> None
                | Some amount \<Rightarrow>
                    Some (event_row log chain_id ''hot_path_initiated'' (Some sender) (Some recipient) amount
                      blk idx block_time (Some (hex_0x (slice 64 96 data)))))
         | _ \<Rightarrow> None))"

definition parse_hot_path_released ::
  "RpcLog \<Rightarrow> ChainId \<Rightarrow> u64 \<Rightarrow> u32 \<Rightarrow> int option \<Rightarrow> AccountEventRow option" where
  "parse_hot_path_released log chain_id blk idx block_time =
     (if length (topics log) < 3 then None
      else
        (case (topic_to_address (topics log ! 1),
               Option.bind (decode_hex (log_data log)) (\<lambda>d. parse_u256_from_data d 0)) of
           (Some recipient, Some amount) \<Rightarrow>
             Some (event_row log chain_id ''hot_path_released'' None (Some recipient) amount blk
               idx block_time (topic_at log 2))
         | _ \<Rightarrow> None))"

section \<open>Caches\<close>

definition resolve_sync_usd ::
  "env \<Rightarrow> ChainId \<Rightarrow> string \<Rightarrow> string \<Rightarrow> ('m accounts_scheme, string option) state" where
  "resolve_sync_usd E chain_id rpc_url bank_addr = do {
     cache \<leftarrow> gets sync_usd_cache;
     (case cache chain_id of
        Some addr \<Rightarrow> ret (Some addr)
      | None \<Rightarrow> do {
          a \<leftarrow> fetch_address_view E rpc_url bank_addr (selector E ''syncUSD()'');
          (case a of
             None \<Rightarrow> ret None
           | Some addr \<Rightarrow> do {
               modify (\<lambda>s. s\<lparr>sync_usd_cache := (sync_usd_cache s)(chain_id \<mapsto> addr)\<rparr>);
               ret (Some addr)
             })
        })
   }"

definition block_time_unix ::
  "env \<Rightarrow> ChainId \<Rightarrow> string \<Rightarrow> u64 \<Rightarrow> ('m accounts_scheme, int option) state" where
  "block_time_unix E chain_id rpc_url blk = do {
     cache \<leftarrow> gets block_time_cache;
     (case cache (chain_id, blk) of
        Some ts \<Rightarrow> ret (Some ts)
      | None \<Rightarrow> do {
          t \<leftarrow> fetch_block_timestamp E rpc_url blk;
          (case t of
             None \<Rightarrow> ret None
           | Some ts \<Rightarrow> do {
               modify (\<lambda>s. s\<lparr>block_time_cache := (block_time_cache s)((chain_id, blk) \<mapsto> ts)\<rparr>);
               ret (Some ts)
             })
        })
   }"

section \<open>Logs to rows\<close>

definition deposited_topic :: "env \<Rightarrow> string" where
  "deposited_topic E = event_topic E ''Deposited(address,address,uint256)''"

definition withdrawn_topic :: "env \<Rightarrow> string" where
  "withdrawn_topic E = event_topic E ''Withdrawn(address,address,uint256)''"

definition hot_path_initiated_topic :: "env \<Rightarrow> string" where
  "hot_path_initiated_topic E =
     event_topic E ''HotPathInitiated(address,address,uint256,uint256,bytes32,uint256)''"

definition hot_path_released_topic :: "env \<Rightarrow> string" where
  "hot_path_released_topic E = event_topic E ''HotPathReleased(address,uint256,bytes32)''"

definition bank_topics :: "env \<Rightarrow> string list" where
  "bank_topics E = [deposited_topic E, withdrawn_topic E, hot_path_initiated_topic E, hot_path_released_topic E]"

definition parse_bank_log ::
  "env \<Rightarrow> RpcLog \<Rightarrow> ChainId \<Rightarrow> string \<Rightarrow> ('m accounts_scheme, AccountEventRow option) state" where
  "parse_bank_log E log chain_id rpc_url =
     (case (topic_at log 0, parse_hex_u64 (block_number log), parse_hex_u64 (log_index log)) of
        (Some topic0, Some block, Some idx) \<Rightarrow> do {
          t \<leftarrow> block_time_unix E chain_id rpc_url block;
          ret (if eq_ignore_ascii_case topic0 (deposited_topic E)
               then parse_deposited log chain_id block (ucast idx) t
               else if eq_ignore_ascii_case topic0 (withdrawn_topic E)
               then parse_withdrawn log chain_id block (ucast idx) t
               else if eq_ignore_ascii_case topic0 (hot_path_initiated_topic E)
               then parse_hot_path_initiated log chain_id block (ucast idx) t
               else if eq_ignore_ascii_case topic0 (hot_path_released_topic E)
               then parse_hot_path_released log chain_id block (ucast idx) t
               else None)
        }
      | _ \<Rightarrow> ret None)"

definition parse_transfer_log ::
  "env \<Rightarrow> RpcLog \<Rightarrow> ChainId \<Rightarrow> string \<Rightarrow> string \<Rightarrow> ('m accounts_scheme, AccountEventRow option) state" where
  "parse_transfer_log E log chain_id rpc_url bank_addr =
     (if length (topics log) < 3 then ret None
      else
        (case (topic_to_address (topics log ! 1), topic_to_address (topics log ! 2)) of
           (Some frm, Some to) \<Rightarrow>
             if eq_ignore_ascii_case frm (to_lowercase bank_addr) \<or> eq_ignore_ascii_case to (to_lowercase bank_addr)
             then ret None
             else
               (case (Option.bind (decode_hex (log_data log)) (\<lambda>d. parse_u256_from_data d 0),
                      parse_hex_u64 (block_number log), parse_hex_u64 (log_index log)) of
                  (Some amount, Some block, Some idx) \<Rightarrow> do {
                    t \<leftarrow> block_time_unix E chain_id rpc_url block;
                    ret (Some (event_row log chain_id ''transfer'' (Some frm) (Some to) amount block (ucast idx) t None))
                  }
                | _ \<Rightarrow> ret None)
         | _ \<Rightarrow> ret None))"

section \<open>Ingesting\<close>

definition should_push_home_chain :: "UpsertEventResult \<Rightarrow> bool \<Rightarrow> bool" where
  "should_push_home_chain upsert is_first_deposit \<longleftrightarrow> upsert = Inserted \<and> is_first_deposit"

definition push_home_chain ::
  "env \<Rightarrow> user_service \<Rightarrow> Config \<Rightarrow> string \<Rightarrow> ChainId \<Rightarrow> ('m accounts_scheme, unit) state" where
  "push_home_chain E G cfg user chain_id =
     (case user_service_addr cfg of
        None \<Rightarrow> ret ()
      | Some endpoint \<Rightarrow> do {
          c \<leftarrow> connect_user_service E G (endpoint_uri endpoint);
          (case c of
             Inl e \<Rightarrow> ret ()
           | Inr _ \<Rightarrow> do {
               r \<leftarrow> call_set_user_home_chain E G None user chain_id False [];
               ret ()
             })
        })"

definition ingest_row ::
  "env \<Rightarrow> user_service \<Rightarrow> Config \<Rightarrow> AccountEventRow \<Rightarrow> ('m accounts_scheme, unit) state" where
  "ingest_row E G cfg row = do {
     let user_for_home = (if ae_event_kind row = ''deposited'' then ae_address_to row else None);
     should_set_home \<leftarrow> (case user_for_home of
        Some user \<Rightarrow> do { h \<leftarrow> user_has_deposit E user; ret (\<not> h) }
      | None \<Rightarrow> ret False);
     upsert \<leftarrow> upsert_event E row;
     (if should_push_home_chain upsert should_set_home then
        (case user_for_home of
           Some user \<Rightarrow> push_home_chain E G cfg user (ae_chain_id row)
         | None \<Rightarrow> ret ())
      else ret ())
   }"

definition ingest_log ::
  "env \<Rightarrow> user_service \<Rightarrow> Config \<Rightarrow> ('m accounts_scheme, AccountEventRow option) state
     \<Rightarrow> ('m accounts_scheme, unit) state" where
  "ingest_log E G cfg parse = do {
     r \<leftarrow> parse;
     (case r of None \<Rightarrow> ret () | Some row \<Rightarrow> ingest_row E G cfg row)
   }"

definition scan_start :: "Config \<Rightarrow> ChainId \<Rightarrow> u64 option \<Rightarrow> u64 \<Rightarrow> u64" where
  "scan_start cfg chain_id cursor to_block =
     (let scan_from = (case cursor of
            Some last_block \<Rightarrow> last_block
          | None \<Rightarrow> (case Option.bind (index_from_blocks cfg) (\<lambda>m. map_of m chain_id) of Some b \<Rightarrow> b | None \<Rightarrow> 0))
      in clamp_from (min scan_from to_block) to_block)"

text \<open>\<open>index_chain\<close> from the point where it has the Bank's logs.\<close>

definition index_logs ::
  "env \<Rightarrow> user_service \<Rightarrow> Config \<Rightarrow> ChainId \<Rightarrow> string \<Rightarrow> string \<Rightarrow> u64 \<Rightarrow> u64 \<Rightarrow> RpcLog list
     \<Rightarrow> ('m accounts_scheme, string + unit) state" where
  "index_logs E G cfg chain_id rpc_url bank_addr scan_from to_block bank_logs = do {
     for_each (\<lambda>log. ingest_log E G cfg (parse_bank_log E log chain_id rpc_url)) bank_logs;
     token \<leftarrow> resolve_sync_usd E chain_id rpc_url bank_addr;
     (case token of
        None \<Rightarrow> ret ()
      | Some token_addr \<Rightarrow> do {
          transfer_logs \<leftarrow> fetch_logs E rpc_url token_addr
            (event_topic E ''Transfer(address,address,uint256)'') scan_from to_block;
          for_each (\<lambda>log. ingest_log E G cfg (parse_transfer_log E log chain_id rpc_url bank_addr))
            transfer_logs
        });
     set_cursor E chain_id (to_block + 1);
     ret (Inr ())
   }"

definition index_chain ::
  "env \<Rightarrow> user_service \<Rightarrow> Config \<Rightarrow> ChainId \<Rightarrow> string \<Rightarrow> string \<Rightarrow> ('m accounts_scheme, string + unit) state" where
  "index_chain E G cfg chain_id rpc_url bank_addr = do {
     b \<leftarrow> fetch_block_number E rpc_url;
     (case b of
        None \<Rightarrow> ret (Inl ''eth_blockNumber failed'')
      | Some to_block \<Rightarrow> do {
          cursor \<leftarrow> get_cursor E chain_id;
          let scan_from = scan_start cfg chain_id cursor to_block;
          (if to_block < scan_from then ret (Inr ())
           else do {
             bank_logs \<leftarrow> fetch_logs_any E rpc_url bank_addr (bank_topics E) scan_from to_block;
             index_logs E G cfg chain_id rpc_url bank_addr scan_from to_block bank_logs
           })
        })
   }"

definition index_round :: "env \<Rightarrow> user_service \<Rightarrow> Config \<Rightarrow> ('m accounts_scheme, unit) state" where
  "index_round E G cfg = do {
     modify (\<lambda>s. s\<lparr>block_time_cache := Map.empty\<rparr>);
     for_each (\<lambda>(chain_id, rpc_url, bank_addr). do {
         r \<leftarrow> index_chain E G cfg chain_id rpc_url bank_addr;
         ret ()
       }) (chain_entries (rpc_urls cfg) (contract_addresses cfg))
   }"

section \<open>The event table\<close>

definition events_grow :: "'m accounts_scheme \<Rightarrow> 'm accounts_scheme \<Rightarrow> bool" where
  "events_grow s t \<longleftrightarrow> (\<exists>new. account_events t = account_events s @ new) \<and>
     (unique_key event_key (account_events s) \<longrightarrow> unique_key event_key (account_events t))"

interpretation indexing: step_preorder events_grow
proof unfold_locales
  fix s t u :: "'m accounts_scheme"
  show "events_grow s s" by (simp add: events_grow_def)
  show "events_grow s u" if "events_grow s t" "events_grow t u"
    using that by (auto simp: events_grow_def)
qed

lemma events_kept: "keeps account_events m \<Longrightarrow> step_rel events_grow m"
  by (rule indexing.from_keeps) (simp_all add: events_grow_def)

lemma beyond_sys_events: "beyond_sys (account_events :: 'm accounts_scheme \<Rightarrow> _)"
  unfolding beyond_sys_def by (intro allI impI, case_tac s, case_tac t, simp)

lemmas fetch_events = fetch_keeps [THEN keeps_beyond_sys [OF beyond_sys_events]]
  keeps_db(1) [THEN keeps_beyond_sys [OF beyond_sys_events]]

lemma keeps_tick_events: "keeps account_events (modify (tick_on E d))"
  by (rule keeps_modify) (simp add: tick_on_def)

lemma quiet_events:
  "keeps account_events (get_cursor E c)" "keeps account_events (set_cursor E c b)"
  "keeps account_events (user_has_deposit E u)" "keeps account_events (resolve_sync_usd E c r a)"
  "keeps account_events (block_time_unix E c r b)" "keeps account_events (push_home_chain E G cfg u c)"
  unfolding get_cursor_def set_cursor_def user_has_deposit_def resolve_sync_usd_def block_time_unix_def
    push_home_chain_def connect_user_service_def call_set_user_home_chain_def Let_def
  by (intro keeps keeps_modify keeps_tick_events fetch_events; simp)+

lemma insert_event_grows:
  "step_rel events_grow (modify (\<lambda>s. s\<lparr>account_events := insert_row event_key row (account_events s)\<rparr>))"
  by (rule step_rel_modify) (auto simp: events_grow_def unique_key_def insert_row_def)

lemma upsert_event_grows: "step_rel events_grow (upsert_event E row)"
  unfolding upsert_event_def
  by (intro indexing.rules insert_event_grows fetch_events [THEN events_kept])

lemma ingest_row_grows: "step_rel events_grow (ingest_row E G cfg row)"
  unfolding ingest_row_def Let_def
  by (intro indexing.rules upsert_event_grows quiet_events [THEN events_kept])

lemma parse_events:
  "keeps account_events (parse_bank_log E log c r)" "keeps account_events (parse_transfer_log E log c r a)"
  unfolding parse_bank_log_def parse_transfer_log_def by (intro keeps quiet_events)+

lemma ingest_log_grows: "keeps account_events m \<Longrightarrow> step_rel events_grow (ingest_log E G cfg m)"
  unfolding ingest_log_def by (intro indexing.rules ingest_row_grows events_kept)

lemma index_chain_grows: "step_rel events_grow (index_chain E G cfg c r a)"
  unfolding index_chain_def index_logs_def Let_def
  by (intro indexing.rules indexing.for_each ingest_log_grows parse_events events_kept quiet_events fetch_events)

lemma index_round_grows: "step_rel events_grow (index_round E G cfg)"
  unfolding index_round_def
  by (intro indexing.rules indexing.for_each index_chain_grows events_kept keeps_modify) simp

lemma ingest_known:
  assumes "event_key row \<in> event_key ` set (account_events s)"
  shows "account_events (snd (run_state (ingest_row E G cfg row) s)) = account_events s \<and>
    user_db (snd (run_state (ingest_row E G cfg row) s)) = user_db s"
  using assms
  by (auto simp: ingest_row_def Let_def user_has_deposit_def upsert_event_def run_db should_push_home_chain_def
      tick_on_def split: option.split)

text \<open>
  C15. Indexing is idempotent: a round only appends rows to the event table and never stores two rows
  for the same chain, transaction and log index; and an event that is stored, seen again in an
  overlapping block range, changes neither the table nor the user service.
\<close>

theorem index_events_once:
  assumes "unique_key event_key (account_events s)" "t = snd (run_state (index_round E G cfg) s)"
  shows "(\<exists>new. account_events t = account_events s @ new) \<and> unique_key event_key (account_events t) \<and>
    (\<forall>row. event_key row \<in> event_key ` set (account_events t) \<longrightarrow>
       account_events (snd (run_state (ingest_row E G cfg row) t)) = account_events t \<and>
       user_db (snd (run_state (ingest_row E G cfg row) t)) = user_db t)"
proof -
  have "events_grow s t"
    unfolding assms(2) by (rule step_relD [OF index_round_grows surjective_pairing])
  then show ?thesis using assms(1) ingest_known [where s = t] by (simp add: events_grow_def)
qed

section \<open>The home chain of the first deposit\<close>

definition reachable_service :: "user_service \<Rightarrow> string \<Rightarrow> bool" where
  "reachable_service G endpoint \<longleftrightarrow>
     (\<forall>n. connect_error G n (endpoint_uri endpoint) = None) \<and> (\<forall>n. request_error G n = None)"

lemma ingest_first_deposit:
  assumes "\<forall>n. db_up E n" "ae_event_kind row = ''deposited''" "ae_address_to row = Some a"
    "\<not> list_ex (is_deposit_to a) (account_events s)" "event_key row \<notin> event_key ` set (account_events s)"
    "user_service_addr cfg = Some endpoint" "reachable_service G endpoint"
  shows "user_db (snd (run_state (ingest_row E G cfg row) s)) =
      snd (run_state (set_user_home_chain (service_env G) (service_token G) None a (ae_chain_id row) False []) (user_db s)) \<and>
    account_events (snd (run_state (ingest_row E G cfg row) s)) = account_events s @ [row]"
  using assms
  by (simp add: ingest_row_def Let_def user_has_deposit_def upsert_event_def run_db should_push_home_chain_def
      push_home_chain_def connect_user_service_def call_set_user_home_chain_def reachable_service_def
      tick_on_def insert_row_def)

lemma home_chain_first:
  assumes "quiet E" "wf_tables (tables s)" "valid_tempo_address a"
    "directory (tables s) a = Some (ur_id u)" "u \<in> set (users (tables s))" "ur_home_chain u = None" "chain < 2 ^ 63"
  shows "fst (run_state (get_user_home_chain E a)
    (snd (run_state (set_user_home_chain E token provided a chain False op) s))) = Inr (True, chain)"
  using get_after_home [OF assms(1-5), where P = "\<lambda>u. ur_home_chain u = None" and chain = "sint chain"
      and now = "now_at E (statements s)" and new = "[]"] assms(6,7)
    run_set_home [OF assms(1-4), of token provided chain op] sint_nonneg_iff [of chain]
  by (simp add: home_answer_def)

text \<open>
  C29. The first deposit sets the home chain: when the indexer ingests the first deposit of an address
  that is registered in that spelling and has no home chain, the user service is configured, reachable
  and undisturbed, the database of the indexer is up and the chain id is below \<open>2 ^ 63\<close>, then the user
  service, asked for that address, answers with the chain of the deposit. (When the report fails, it is
  not repeated for a later deposit.)
\<close>

theorem first_deposit_sets_home:
  assumes "\<forall>n. db_up E n" "user_service_addr cfg = Some endpoint" "reachable_service G endpoint"
    "quiet (service_env G)" "wf_tables (tables (user_db s))"
    "ae_event_kind row = ''deposited''" "ae_address_to row = Some a" "valid_tempo_address a"
    "\<not> list_ex (is_deposit_to a) (account_events s)" "event_key row \<notin> event_key ` set (account_events s)"
    "directory (tables (user_db s)) a = Some (ur_id u)" "u \<in> set (users (tables (user_db s)))"
    "ur_home_chain u = None" "ae_chain_id row < 2 ^ 63"
  shows "fst (run_state (get_user_home_chain (service_env G) a)
    (user_db (snd (run_state (ingest_row E G cfg row) s)))) = Inr (True, ae_chain_id row)"
  using ingest_first_deposit [OF assms(1,6,7,9,10,2,3)]
    home_chain_first [OF assms(4,5,8,11-14), of "service_token G" None "[]"] by simp

lemma unowned_home:
  assumes "quiet E" "wf_tables (tables s)" "directory (tables s) a = None"
  shows "tables (snd (run_state (set_user_home_chain E token provided a chain False op) s)) = tables s"
  using assms
  by (simp add: set_user_home_chain_def handler_defs tempo_address_try_from_def set_home_chain_if_unset_def
      run_statement_quiet owner_directory)

lemma later_deposit_silent:
  assumes "\<forall>n. db_up E n" "ae_event_kind row = ''deposited''" "ae_address_to row = Some a"
    "list_ex (is_deposit_to a) (account_events s)"
  shows "user_db (snd (run_state (ingest_row E G cfg row) s)) = user_db s"
  using assms
  by (simp add: ingest_row_def Let_def user_has_deposit_def upsert_event_def run_db should_push_home_chain_def
      tick_on_def)

text \<open>
  A missed first deposit is missed for good: when the deposit's address, which the chain reports
  in lower case, is not the registered spelling of any active credential (the user registers later,
  or registered the checksummed spelling), the report changes no user, and no deposit of the address
  ingested at any later time is reported to the user service at all.
\<close>

theorem missed_home_chain:
  assumes "\<forall>n. db_up E n" "user_service_addr cfg = Some endpoint" "reachable_service G endpoint"
    "quiet (service_env G)" "wf_tables (tables (user_db s))"
    "ae_event_kind row = ''deposited''" "ae_address_to row = Some a"
    "\<not> list_ex (is_deposit_to a) (account_events s)" "event_key row \<notin> event_key ` set (account_events s)"
    "directory (tables (user_db s)) a = None"
    "s1 = snd (run_state (ingest_row E G cfg row) s)" "account_events s2 = account_events s1 @ new"
    "ae_event_kind row2 = ''deposited''" "ae_address_to row2 = Some a"
  shows "tables (user_db s1) = tables (user_db s) \<and>
    user_db (snd (run_state (ingest_row E G cfg row2) s2)) = user_db s2"
proof -
  note first = ingest_first_deposit [OF assms(1,6,7,8,9,2,3)]
  have "tables (user_db s1) = tables (user_db s)"
    using first unowned_home [OF assms(4,5,10)] assms(11) by simp
  moreover have "list_ex (is_deposit_to a) (account_events s2)"
    using first assms(6,7,11,12) by (simp add: is_deposit_to_def)
  ultimately show ?thesis using later_deposit_silent [OF assms(1,13,14)] by simp
qed

text \<open>The addresses the indexer stores are in lower case.\<close>

lemma to_lower_digit: "d < 16 \<Longrightarrow> to_lower (digit_char d) = digit_char d"
  by (auto simp: to_lower_def digit_char_def of_char_of Let_def)

lemma hex_0x_lower: "to_lowercase (hex_0x bs) = hex_0x bs"
proof -
  have byte: "map to_lower (hex_byte b) = hex_byte b" for b
  proof -
    have "unat b div 16 < 16" using unat_bound [of b] by simp
    then show ?thesis by (simp add: hex_byte_def to_lower_digit)
  qed
  have "to_lower CHR ''0'' = CHR ''0''" "to_lower CHR ''x'' = CHR ''x''" by code_simp+
  then show ?thesis
    by (simp add: to_lowercase_def hex_0x_def bytes_to_hex_def map_concat comp_def byte)
qed

lemma topic_to_address_lower: "topic_to_address t = Some a \<Longrightarrow> to_lowercase a = a"
  by (auto simp: topic_to_address_def hex_0x_lower split: option.splits if_splits)

section \<open>Block ranges\<close>

lemma run_block_number:
  "run_state (fetch_block_number E url) s =
     (Option.bind (result_str (http_post E (tick s) url (rpc_body ''eth_blockNumber'' [])))
        (\<lambda>hex. ok (from_str_radix 16 (trim_0x hex))),
      (tick_on E 0 s)\<lparr>calls := calls s @ [(url, rpc_body ''eth_blockNumber'' [])]\<rparr>)"
  by (simp add: fetch_block_number_def run_post split: option.split)

lemma quiet_calls:
  "keeps calls (upsert_event E row)" "keeps calls (set_cursor E c b)" "keeps calls (user_has_deposit E u)"
  "keeps calls (push_home_chain E G cfg u c)"
  unfolding upsert_event_def set_cursor_def user_has_deposit_def push_home_chain_def connect_user_service_def
    call_set_user_home_chain_def Let_def
  by (intro keeps keeps_modify; simp)+

lemma ingest_row_emits: "emits Q 0 (ingest_row E G cfg row)"
  unfolding ingest_row_def Let_def
  by (intro emits_then emits_case emits_ret quiet_calls [THEN emits_keeps_calls])

lemma cache_reads_emit:
  "emits Q 0 (resolve_sync_usd E c r a)" "emits Q 0 (block_time_unix E c r b)"
  unfolding resolve_sync_usd_def block_time_unix_def
  by (intro emits_then emits_case emits_ret emits_gets emits emits_modify; simp)+

lemma parse_emits: "emits Q 0 (parse_bank_log E log c r)" "emits Q 0 (parse_transfer_log E log c r a)"
  unfolding parse_bank_log_def parse_transfer_log_def
  by (intro emits_then emits_case emits_ret cache_reads_emit)+

lemma ingest_log_emits: "emits Q 0 m \<Longrightarrow> emits Q 0 (ingest_log E G cfg m)"
  unfolding ingest_log_def by (intro emits_then emits_case emits_ret ingest_row_emits)

lemma index_logs_emits: "emits Q 0 (index_logs E G cfg c r a f b logs)"
  unfolding index_logs_def
  by (intro emits_then emits_case emits_ret emits_for_each_0 ingest_log_emits parse_emits cache_reads_emit
      emits quiet_calls [THEN emits_keeps_calls])

lemma index_logs_cursor:
  assumes "\<forall>n. db_up E n"
  shows "index_cursors (snd (run_state (index_logs E G cfg c r a f b logs) s)) c = Some (b + 1)"
  using assms by (simp add: index_logs_def set_cursor_def run_db split_beta)

lemma scan_start_range: "unat to_block - 2000 \<le> unat (scan_start cfg c cursor to_block)"
    "scan_start cfg c cursor to_block \<le> to_block"
  by (simp_all add: scan_start_def clamp_from_def MAX_BLOCK_RANGE_def Let_def word_nat word_le_nat_alt)

text \<open>
  What one pass over a chain scans: exactly the blocks from its cursor to the head, but never
  more than the last 2000 before the head, and then, whether or not the node answered the log
  queries, the cursor stands behind the head. Blocks that are further behind, in particular the
  configured first block of a chain older than 2000 blocks, are never scanned by any later pass.
\<close>

theorem index_range:
  assumes "\<forall>n. db_up E n" "fst (run_state (fetch_block_number E url) s) = Some to_block"
    "from = scan_start cfg c (index_cursors s c) to_block"
    "t = snd (run_state (index_chain E G cfg c url bank) s)"
  shows "(\<exists>new. calls t = calls s @ (url, rpc_body ''eth_blockNumber'' []) #
      (url, get_logs_body bank (JArr (map JStr (bank_topics E))) from to_block) # new) \<and>
    index_cursors t c = Some (to_block + 1) \<and>
    unat from = max (unat (case index_cursors s c of
        Some b \<Rightarrow> min b to_block
      | None \<Rightarrow> min (case Option.bind (index_from_blocks cfg) (\<lambda>m. map_of m c) of Some b \<Rightarrow> b | None \<Rightarrow> 0) to_block))
      (unat to_block - 2000)"
proof -
  obtain s1 where s1: "run_state (fetch_block_number E url) s = (Some to_block, s1)"
    "calls s1 = calls s @ [(url, rpc_body ''eth_blockNumber'' [])]" "index_cursors s1 = index_cursors s"
    using assms(2) by (simp add: run_block_number tick_on_def)
  have cur: "run_state (get_cursor E c) s1 = (index_cursors s c, tick_on E 0 s1)"
    using assms(1) s1(3) by (simp add: get_cursor_def run_db)
  obtain logs s2 where logs: "run_state (fetch_logs_any E url bank (bank_topics E) from to_block) (tick_on E 0 s1) = (logs, s2)"
    "calls s2 = calls s1 @ [(url, get_logs_body bank (JArr (map JStr (bank_topics E))) from to_block)]"
    by (simp add: fetch_logs_any_def bank_topics_def run_post)
  have "\<not> to_block < from" using scan_start_range(2) by (simp add: assms(3) not_less)
  then have t: "t = snd (run_state (index_logs E G cfg c url bank from to_block logs) s2)"
    using assms(3,4) s1 cur logs by (simp add: index_chain_def Let_def)
  have "adds s2 0 (\<lambda>_. True) t" unfolding t by (rule emits_adds [OF index_logs_emits surjective_pairing])
  then obtain new where "calls t = calls s2 @ new" by (auto simp: adds_def)
  moreover have "index_cursors t c = Some (to_block + 1)" unfolding t using assms(1) by (rule index_logs_cursor)
  ultimately show ?thesis
    using s1(2) logs(2) assms(3)
    by (auto simp: scan_start_def clamp_from_def MAX_BLOCK_RANGE_def Let_def word_nat split: option.split)
qed

section \<open>Concrete runs\<close>

definition sample_service :: user_service where
  "sample_service = \<lparr>connect_error = (\<lambda>n u. None), request_error = (\<lambda>n. None), service_env = sample_uenv,
     service_token = None, status_text = (\<lambda>st. []), metadata_error = (\<lambda>t. None)\<rparr>"

definition accounts_start :: accounts where
  "accounts_start =
     \<lparr>now_ms = 5, tick = 0, calls = [], nonce_cache = Map.empty, active_chains = {1, 2},
      decommissioned_chains = {}, relayer_key = Some [1], relayer_address = Some (replicate 20 5),
      route_last_block = 0, account_events = [], index_cursors = Map.empty, sync_usd_cache = Map.empty,
      block_time_cache = Map.empty, user_db = sample_db\<rparr>"

definition sample_deposit :: "string \<Rightarrow> u32 \<Rightarrow> AccountEventRow" where
  "sample_deposit a idx =
     \<lparr>ae_chain_id = 1, ae_tx_hash = ''t'', ae_log_index = idx, ae_event_kind = ''deposited'',
      ae_address_from = None, ae_address_to = Some a, ae_amount_wei = ''5'', ae_block_number = 9,
      ae_block_time_unix = None, ae_correlation = None\<rparr>"

definition indexer_config :: Config where
  "indexer_config = sample_config\<lparr>user_service_addr := Some ''users:1''\<rparr>"

lemma sample_reachable: "reachable_service sample_service ''users:1''" "quiet (service_env sample_service)"
  "user_service_addr indexer_config = Some ''users:1''"
  using sample_quiet by (simp_all add: reachable_service_def sample_service_def indexer_config_def)

theorem index_events_once_witness:
  "unique_key event_key (account_events (snd (run_state
     (index_round (sample_env quantity_answer) sample_service indexer_config) accounts_start)))"
  using index_events_once [OF _ refl, of accounts_start]
  by (simp add: accounts_start_def unique_key_def)

theorem first_deposit_sets_home_witness:
  "fst (run_state (get_user_home_chain (service_env sample_service) (sample_address CHR ''a''))
     (user_db (snd (run_state (ingest_row (sample_env quantity_answer) sample_service indexer_config
        (sample_deposit (sample_address CHR ''a'') 0)) accounts_start)))) = Inr (True, 1)"
  using first_deposit_sets_home [OF sample_db_always sample_reachable(3,1,2), of accounts_start
      "sample_deposit (sample_address CHR ''a'') 0" "sample_address CHR ''a''" sample_user]
    sample_wf sample_valid(1) sample_directory
  by (simp add: accounts_start_def sample_deposit_def)

theorem missed_home_chain_witness:
  "user_db (snd (run_state (ingest_row (sample_env quantity_answer) sample_service indexer_config
      (sample_deposit (sample_address CHR ''c'') 1))
     (snd (run_state (ingest_row (sample_env quantity_answer) sample_service indexer_config
        (sample_deposit (sample_address CHR ''c'') 0)) accounts_start)))) =
   user_db (snd (run_state (ingest_row (sample_env quantity_answer) sample_service indexer_config
        (sample_deposit (sample_address CHR ''c'') 0)) accounts_start))"
proof -
  have "directory (tables (user_db accounts_start)) (sample_address CHR ''c'') = None"
    by (simp add: accounts_start_def directory_def active_with_def sample_simps)
  moreover have "wf_tables (tables (user_db accounts_start))" "account_events accounts_start = []"
    using sample_wf by (simp_all add: accounts_start_def)
  ultimately show ?thesis
    by (intro conjunct2 [OF missed_home_chain [OF sample_db_always sample_reachable(3,1,2) _ _ _ _ _ _ refl,
          where row = "sample_deposit (sample_address CHR ''c'') 0" and new = "[]"]])
      (simp_all add: sample_deposit_def)
qed

theorem index_range_witness:
  "index_cursors (snd (run_state (index_chain (sample_env quantity_answer) sample_service indexer_config 1 ''a'' ''b'')
     accounts_start)) 1 = Some 17"
proof -
  have "fst (run_state (fetch_block_number (sample_env quantity_answer) ''a'') accounts_start) = Some 16"
    by (simp add: run_block_number sample_env_def quantity_answer_def result_str_def jindex_def parse_0x10
        del: trim_0x.simps)
  from index_range [OF sample_db_always this refl refl, where cfg = indexer_config and c = 1 and G = sample_service
      and bank = "''b''"]
  show ?thesis by simp
qed

end
