(* ===== verification/Decommission.thy ===== *)
theory Decommission
  imports AccountIndex
begin

text \<open>
  The decommissioning of a chain: the orchestrator (\<open>decommission.rs\<close>), the runtime behind its ports
  (\<open>decommission_runtime.rs\<close>), the repository (\<open>db/decommission_repo.rs\<close>) and the two gRPC handlers
  that start and report a drain (\<open>server.rs\<close>). The orchestrator's ports are bound to their runtime
  implementations, as \<open>main.rs\<close> does: the hot path's view of the chains, the account event index, the
  Bank of the source chain, and the user service through its own handler.

  The handler spawns the drain as a task; the last section models the interleaving of requests and
  tasks as a step relation.
\<close>

section \<open>State\<close>

record decommission_row =
  dc_op_id :: OperationId
  dc_chain_id :: ChainId
  dc_holder_address :: "string option"
  dc_amount :: nat
  dc_src_message_id :: "string option"
  dc_dst_chain_id :: ChainId
  dc_dst_tx_hash :: "string option"
  dc_status :: string
  dc_started_at :: nat
  dc_completed_at :: "nat option"
  dc_failure_reason :: "string option"

record HolderBalance =
  hb_address :: string
  hb_amount :: u256

record DrainPlan =
  dp_source_chain :: ChainId
  dp_target_chain :: ChainId
  dp_holders :: "HolderBalance list"
  dp_pool_amount :: u256
  dp_reserve_amount :: u256

datatype DrainOutcome = Completed nat | PausedTargetInactive

record drain = accounts +
  decommission_ops :: "decommission_row list"
  alerts :: "string list"
  running_drain_id :: "string option"
  resumable_drain_id :: "string option"
  drain_tasks :: "(string \<times> DrainPlan) list"

section \<open>The repository\<close>

definition of_pair :: "ChainId \<Rightarrow> ChainId \<Rightarrow> decommission_row \<Rightarrow> bool" where
  "of_pair source_chain target_chain r \<longleftrightarrow> dc_chain_id r = source_chain \<and> dc_dst_chain_id r = target_chain"

definition completed_holders :: "env \<Rightarrow> ChainId \<Rightarrow> ChainId \<Rightarrow> ('m drain_scheme, string list) state" where
  "completed_holders E source_chain target_chain = do {
     rows \<leftarrow> gets decommission_ops;
     up \<leftarrow> db E;
     ret (if up then filter_map dc_holder_address
            (filter (\<lambda>r. of_pair source_chain target_chain r \<and> dc_status r = ''completed'') rows) else [])
   }"

definition insert_holder_op ::
  "env \<Rightarrow> OperationId \<Rightarrow> ChainId \<Rightarrow> ChainId \<Rightarrow> string \<Rightarrow> u256 \<Rightarrow> string \<Rightarrow> ('m drain_scheme, unit) state" where
  "insert_holder_op E op_id source_chain target_chain holder amount status = do {
     up \<leftarrow> db E;
     (if up then modify (\<lambda>s. s\<lparr>decommission_ops := insert_row dc_op_id
        \<lparr>dc_op_id = op_id, dc_chain_id = source_chain, dc_holder_address = Some holder, dc_amount = unat amount,
         dc_src_message_id = None, dc_dst_chain_id = target_chain, dc_dst_tx_hash = None, dc_status = status,
         dc_started_at = now_ms s, dc_completed_at = None, dc_failure_reason = None\<rparr> (decommission_ops s)\<rparr>)
      else ret ())
   }"

definition update_op ::
  "env \<Rightarrow> OperationId \<Rightarrow> (nat \<Rightarrow> decommission_row \<Rightarrow> decommission_row) \<Rightarrow> ('m drain_scheme, unit) state" where
  "update_op E op_id f = do {
     up \<leftarrow> db E;
     (if up then modify (\<lambda>s. s\<lparr>decommission_ops := update_rows dc_op_id op_id (f (now_ms s)) (decommission_ops s)\<rparr>)
      else ret ())
   }"

definition mark_holder_submitted ::
  "env \<Rightarrow> OperationId \<Rightarrow> string option \<Rightarrow> TxHash option \<Rightarrow> ('m drain_scheme, unit) state" where
  "mark_holder_submitted E op_id src_message_id dst_tx_hash =
     update_op E op_id (\<lambda>now r. r\<lparr>dc_status := ''submitted'', dc_src_message_id := src_message_id,
       dc_dst_tx_hash := dst_tx_hash\<rparr>)"

definition mark_holder_completed :: "env \<Rightarrow> OperationId \<Rightarrow> ('m drain_scheme, unit) state" where
  "mark_holder_completed E op_id =
     update_op E op_id (\<lambda>now r. r\<lparr>dc_status := ''completed'', dc_completed_at := Some now\<rparr>)"

definition mark_op_failed :: "env \<Rightarrow> OperationId \<Rightarrow> string \<Rightarrow> ('m drain_scheme, unit) state" where
  "mark_op_failed E op_id failure_reason =
     update_op E op_id (\<lambda>now r. r\<lparr>dc_status := ''failed'', dc_failure_reason := Some failure_reason\<rparr>)"

definition incomplete :: "decommission_row \<Rightarrow> bool" where
  "incomplete r \<longleftrightarrow> dc_status r \<in> {''pending'', ''submitted'', ''paused''}"

definition has_incomplete_ops :: "env \<Rightarrow> ('m drain_scheme, bool) state" where
  "has_incomplete_ops E = do {
     rows \<leftarrow> gets decommission_ops;
     up \<leftarrow> db E;
     ret (up \<and> list_ex incomplete rows)
   }"

text \<open>\<open>ORDER BY started_at DESC LIMIT 1\<close>\<close>

definition latest_row :: "decommission_row list \<Rightarrow> decommission_row option" where
  "latest_row rows = (if rows = [] then None else Some (last (sort_key dc_started_at rows)))"

definition latest_incomplete_pair :: "env \<Rightarrow> ('m drain_scheme, (ChainId \<times> ChainId) option) state" where
  "latest_incomplete_pair E = do {
     rows \<leftarrow> gets decommission_ops;
     up \<leftarrow> db E;
     ret (if up then map_option (\<lambda>r. (dc_chain_id r, dc_dst_chain_id r)) (latest_row (filter incomplete rows))
          else None)
   }"

definition status_counts :: "env \<Rightarrow> ChainId \<Rightarrow> ChainId \<Rightarrow> ('m drain_scheme, (string \<times> nat) list) state" where
  "status_counts E source_chain target_chain = do {
     rows \<leftarrow> gets (\<lambda>s. filter (of_pair source_chain target_chain) (decommission_ops s));
     up \<leftarrow> db E;
     ret (if up then map (\<lambda>st. (st, length (filter (\<lambda>r. dc_status r = st) rows))) (remdups (map dc_status rows))
          else [])
   }"

definition drained_amount_wei :: "env \<Rightarrow> ChainId \<Rightarrow> ChainId \<Rightarrow> ('m drain_scheme, string) state" where
  "drained_amount_wei E source_chain target_chain = do {
     rows \<leftarrow> gets decommission_ops;
     up \<leftarrow> db E;
     ret (if up then show_nat (sum_list (map dc_amount
            (filter (\<lambda>r. of_pair source_chain target_chain r \<and> dc_status r = ''completed'') rows))) else ''0'')
   }"

definition last_error :: "env \<Rightarrow> ChainId \<Rightarrow> ChainId \<Rightarrow> ('m drain_scheme, string option) state" where
  "last_error E source_chain target_chain = do {
     rows \<leftarrow> gets decommission_ops;
     up \<leftarrow> db E;
     ret (if up then Option.bind (latest_row (filter (\<lambda>r. of_pair source_chain target_chain r \<and>
            dc_failure_reason r \<noteq> None) rows)) dc_failure_reason else None)
   }"

section \<open>Runtime: the holder index\<close>

definition index_fresh_enough :: "env \<Rightarrow> Config \<Rightarrow> ChainId \<Rightarrow> ('m drain_scheme, bool) state" where
  "index_fresh_enough E cfg chain =
     (case map_of (rpc_urls cfg) chain of
        None \<Rightarrow> ret False
      | Some rpc_url \<Rightarrow> do {
          h \<leftarrow> fetch_block_number E rpc_url;
          (case h of
             None \<Rightarrow> ret False
           | Some head \<Rightarrow> do {
               c \<leftarrow> get_cursor E chain;
               ret (case c of
                      None \<Rightarrow> False
                    | Some cursor \<Rightarrow> saturating_sub head cursor \<le> decommission_index_head_tolerance_blocks cfg)
             })
        })"

definition holders_for_chain_index :: "env \<Rightarrow> ChainId \<Rightarrow> ('m drain_scheme, string list) state" where
  "holders_for_chain_index E chain = do {
     rows \<leftarrow> gets account_events;
     up \<leftarrow> db E;
     ret (if up then remdups (filter_map (\<lambda>r.
            if ae_chain_id r = chain \<and> ae_event_kind r \<in> {''deposited'', ''transfer'', ''hot_path_released''}
            then map_option to_lowercase (ae_address_to r) else None) rows) else [])
   }"

definition balance_of_sel :: "env \<Rightarrow> byte list" where
  "balance_of_sel E = selector E ''balanceOf(address)''"

definition holder_balance_of :: "env \<Rightarrow> Config \<Rightarrow> ChainId \<Rightarrow> string \<Rightarrow> ('m drain_scheme, u256) state" where
  "holder_balance_of E cfg chain holder =
     (case (map_of (rpc_urls cfg) chain, map_of (contract_addresses cfg) chain) of
        (Some rpc_url, Some bank_addr) \<Rightarrow> do {
          t \<leftarrow> fetch_address_view E rpc_url bank_addr (selector E ''syncUSD()'');
          (case t of
             None \<Rightarrow> ret 0
           | Some token_addr \<Rightarrow> do {
               b \<leftarrow> fetch_balance_of E rpc_url token_addr holder (balance_of_sel E);
               ret (case b of Some v \<Rightarrow> v | None \<Rightarrow> 0)
             })
        }
      | _ \<Rightarrow> ret 0)"

section \<open>Runtime: chain state and roles\<close>

definition encode_uint_arg_call :: "byte list \<Rightarrow> u64 \<Rightarrow> string" where
  "encode_uint_arg_call sel v = hex_0x (sel @ replicate 24 0 @ u64_to_be_bytes v)"

definition call_bytes :: "string + json \<Rightarrow> byte list option" where
  "call_bytes r = Option.bind (result_str r) decode_hex"

definition is_source_draining :: "env \<Rightarrow> Config \<Rightarrow> ChainId \<Rightarrow> ('m drain_scheme, bool) state" where
  "is_source_draining E cfg source_chain =
     (case rpc_urls cfg of
        [] \<Rightarrow> ret False
      | (_, rpc_url) # _ \<Rightarrow> do {
          r \<leftarrow> post E rpc_url (eth_call_body (route_receiver_address cfg)
                 (encode_uint_arg_call (selector E ''getChainDecommissionStatus(uint256)'') source_chain));
          ret (case call_bytes r of
                 None \<Rightarrow> False
               | Some bytes \<Rightarrow> \<not> length bytes < 64 \<and> bytes ! 31 = 1 \<and> bytes ! 63 \<noteq> 1)
        })"

definition has_role ::
  "env \<Rightarrow> string \<Rightarrow> string \<Rightarrow> byte list \<Rightarrow> Address \<Rightarrow> ('m drain_scheme, bool) state" where
  "has_role E rpc_url bank_addr role_hash account = do {
     r \<leftarrow> post E rpc_url (eth_call_body bank_addr
            (hex_0x (selector E ''hasRole(bytes32,address)'' @ role_hash @ replicate 12 0 @ account)));
     ret (case call_bytes r of None \<Rightarrow> False | Some bytes \<Rightarrow> 32 \<le> length bytes \<and> bytes ! 31 = 1)
   }"

definition has_required_roles :: "env \<Rightarrow> Config \<Rightarrow> ChainId \<Rightarrow> Address \<Rightarrow> ('m drain_scheme, bool) state" where
  "has_required_roles E cfg source_chain signer_address =
     (case (map_of (rpc_urls cfg) source_chain, map_of (contract_addresses cfg) source_chain) of
        (Some rpc_url, Some bank_addr) \<Rightarrow> do {
          reb \<leftarrow> has_role E rpc_url bank_addr (keccak256 E (bytes_of ''REBALANCER_ROLE'')) signer_address;
          res \<leftarrow> has_role E rpc_url bank_addr (keccak256 E (bytes_of ''RESERVE_REBALANCER_ROLE'')) signer_address;
          ret (reb \<and> res)
        }
      | _ \<Rightarrow> ret False)"

section \<open>Runtime: the Bank\<close>

definition parse_int_error_text :: "ParseIntError \<Rightarrow> string" where
  "parse_int_error_text e =
     (case e of
        Empty \<Rightarrow> ''cannot parse integer from empty string''
      | InvalidDigit \<Rightarrow> ''invalid digit found in string''
      | PosOverflow \<Rightarrow> ''number too large to fit in target type'')"

fun tx_error_text :: "TxError \<Rightarrow> string" where
  "tx_error_text (Http e) = ''HTTP request failed: '' @ e"
| "tx_error_text (MissingField f) = ''missing '' @ f @ '' in RPC response''"
| "tx_error_text (HexParse e) = ''hex parse error: '' @ parse_int_error_text e"
| "tx_error_text (RpcError e) = ''RPC error: '' @ e"
| "tx_error_text (TxReverted h) = ''transaction reverted: '' @ h"
| "tx_error_text (TxTimeout h) = ''timed out waiting for receipt: '' @ h"
| "tx_error_text (Signing e) = ''ECDSA signing failed: '' @ e"
| "tx_error_text InvalidAddress = ''invalid contract address''"
| "tx_error_text MissingKey = ''signing key not loaded''"
| "tx_error_text RebalanceCapExceeded = ''rebalance amount exceeds on-chain cap''"
| "tx_error_text DestChainNotAllowlisted = ''rebalance destination chain is not allowlisted''"
| "tx_error_text PoolDepthInsufficient = ''source pool depth is insufficient for rebalance''"
| "tx_error_text (RetryExhausted n) = ''failed after '' @ show_nat n @ '' attempts''"

text \<open>
  The drain keeps its own nonce cache: a fetched nonce is cached at once, and the next one only
  after the receipt; nothing removes an entry.
\<close>

definition drain_nonce ::
  "env \<Rightarrow> string \<Rightarrow> ChainId \<Rightarrow> Address \<Rightarrow> ('m drain_scheme, TxError + u64) state" where
  "drain_nonce E rpc_url source_chain signer_address = do {
     cache \<leftarrow> gets nonce_cache;
     (case cache source_chain of
        Some n \<Rightarrow> ret (Inr n)
      | None \<Rightarrow> do {
          f \<leftarrow> fetch_nonce E rpc_url signer_address;
          (case f of
             Inl e \<Rightarrow> ret (Inl e)
           | Inr fetched \<Rightarrow> do { cache_nonce source_chain fetched; ret (Inr fetched) })
        })
   }"

definition drain_send ::
  "env \<Rightarrow> string \<Rightarrow> string \<Rightarrow> ChainId \<Rightarrow> byte list \<Rightarrow> u64 \<Rightarrow> byte list
     \<Rightarrow> ('m drain_scheme, string + (TxHash \<times> string option)) state" where
  "drain_send E rpc_url bank_addr source_chain key nonce data = do {
     g \<leftarrow> fetch_gas_params E rpc_url;
     (case g of
        Inl e \<Rightarrow> ret (Inl (tx_error_text e))
      | Inr (max_fee, max_priority_fee) \<Rightarrow>
          (case address_bytes bank_addr of
             Inl e \<Rightarrow> ret (Inl ''invalid bank address'')
           | Inr to \<Rightarrow>
               (case sign_eip1559_tx E source_chain nonce max_priority_fee max_fee 300000 to [] data key of
                  Inl e \<Rightarrow> ret (Inl (tx_error_text e))
                | Inr raw_hex \<Rightarrow> do {
                    t \<leftarrow> send_raw_transaction E rpc_url raw_hex;
                    (case t of
                       Inl e \<Rightarrow> ret (Inl (tx_error_text e))
                     | Inr tx_hash \<Rightarrow> do {
                         w \<leftarrow> wait_for_receipt_logs E rpc_url tx_hash 90000;
                         (case w of
                            Inl e \<Rightarrow> ret (Inl (tx_error_text e))
                          | Inr logs \<Rightarrow> do {
                              cache_nonce source_chain (saturating_add nonce 1);
                              ret (Inr (tx_hash, extract_ccip_message_id E logs))
                            })
                       })
                  })))
   }"

definition submit_bank_call ::
  "env \<Rightarrow> Config \<Rightarrow> byte list \<Rightarrow> Address \<Rightarrow> ChainId \<Rightarrow> byte list
     \<Rightarrow> ('m drain_scheme, string + (TxHash \<times> string option)) state" where
  "submit_bank_call E cfg key signer_address source_chain data =
     (case map_of (rpc_urls cfg) source_chain of
        None \<Rightarrow> ret (Inl ''missing source chain rpc'')
      | Some rpc_url \<Rightarrow>
          (case map_of (contract_addresses cfg) source_chain of
             None \<Rightarrow> ret (Inl ''missing source chain bank'')
           | Some bank_addr \<Rightarrow> do {
               n \<leftarrow> drain_nonce E rpc_url source_chain signer_address;
               (case n of
                  Inl e \<Rightarrow> ret (Inl (tx_error_text e))
                | Inr nonce \<Rightarrow> drain_send E rpc_url bank_addr source_chain key nonce data)
             }))"

definition pool_call :: "env \<Rightarrow> ChainId \<Rightarrow> u256 \<Rightarrow> byte list" where
  "pool_call E target_chain amount = encode_rebalance (selector E ''rebalance(uint64,uint256)'') target_chain amount"

definition reserve_call :: "env \<Rightarrow> ChainId \<Rightarrow> u256 \<Rightarrow> byte list" where
  "reserve_call E target_chain amount =
     encode_bridge_reserve (selector E ''bridgeReserve(uint64,uint256)'') target_chain amount"

record BridgeReceipt =
  br_src_message_id :: "string option"
  br_dst_tx_hash :: "TxHash option"

definition bridge_holder ::
  "env \<Rightarrow> Config \<Rightarrow> byte list \<Rightarrow> Address \<Rightarrow> ChainId \<Rightarrow> ChainId \<Rightarrow> string \<Rightarrow> u256
     \<Rightarrow> ('m drain_scheme, string + BridgeReceipt) state" where
  "bridge_holder E cfg key addr source_chain target_chain holder amount = do {
     r \<leftarrow> submit_bank_call E cfg key addr source_chain (pool_call E target_chain amount);
     ret (case r of
            Inl e \<Rightarrow> Inl e
          | Inr (tx_hash, message_id) \<Rightarrow> Inr \<lparr>br_src_message_id = message_id, br_dst_tx_hash = Some tx_hash\<rparr>)
   }"

definition drain_pool ::
  "env \<Rightarrow> Config \<Rightarrow> byte list \<Rightarrow> Address \<Rightarrow> ChainId \<Rightarrow> ChainId \<Rightarrow> u256 \<Rightarrow> ('m drain_scheme, string + unit) state" where
  "drain_pool E cfg key addr source_chain target_chain amount = do {
     r \<leftarrow> submit_bank_call E cfg key addr source_chain (pool_call E target_chain amount);
     ret (map_sum id (\<lambda>_. ()) r)
   }"

definition drain_reserve ::
  "env \<Rightarrow> Config \<Rightarrow> byte list \<Rightarrow> Address \<Rightarrow> ChainId \<Rightarrow> ChainId \<Rightarrow> u256 \<Rightarrow> ('m drain_scheme, string + unit) state" where
  "drain_reserve E cfg key addr source_chain target_chain amount = do {
     r \<leftarrow> submit_bank_call E cfg key addr source_chain (reserve_call E target_chain amount);
     ret (map_sum id (\<lambda>_. ()) r)
   }"

section \<open>Runtime: the user service\<close>

definition runtime_set_user_home_chain ::
  "env \<Rightarrow> user_service \<Rightarrow> Config \<Rightarrow> string \<Rightarrow> ChainId \<Rightarrow> ('m drain_scheme, string + unit) state" where
  "runtime_set_user_home_chain E G cfg holder target_chain =
     (case user_service_addr cfg of
        None \<Rightarrow> ret (Inl ''USER_SERVICE_ADDR is not configured'')
      | Some endpoint \<Rightarrow> do {
          c \<leftarrow> connect_user_service E G (endpoint_uri endpoint);
          (case c of
             Inl e \<Rightarrow> ret (Inl e)
           | Inr _ \<Rightarrow>
               (case decommission_orchestrator_token cfg of
                  None \<Rightarrow> ret (Inl ''DECOMMISSION_ORCHESTRATOR_TOKEN is not configured'')
                | Some token \<Rightarrow>
                    (case metadata_error G token of
                       Some e \<Rightarrow> ret (Inl e)
                     | None \<Rightarrow> call_set_user_home_chain E G (Some token) holder target_chain True
                         ''treasury-decommission-orchestrator'')))
        })"

definition alert :: "string \<Rightarrow> ('m drain_scheme, unit) state" where
  "alert message = modify (\<lambda>s. s\<lparr>alerts := alerts s @ [message]\<rparr>)"

section \<open>Drain plans\<close>

definition empty_plan :: "ChainId \<Rightarrow> ChainId \<Rightarrow> DrainPlan" where
  "empty_plan source_chain target_chain =
     \<lparr>dp_source_chain = source_chain, dp_target_chain = target_chain, dp_holders = [],
      dp_pool_amount = 0, dp_reserve_amount = 0\<rparr>"

fun resolve_holders ::
  "env \<Rightarrow> string \<Rightarrow> string \<Rightarrow> string list \<Rightarrow> string list \<Rightarrow> ('m drain_scheme, HolderBalance list) state" where
  "resolve_holders E rpc_url token_addr seen [] = ret []"
| "resolve_holders E rpc_url token_addr seen (holder # holders) =
     (if to_lowercase holder \<in> set seen then resolve_holders E rpc_url token_addr seen holders
      else do {
        b \<leftarrow> fetch_balance_of E rpc_url token_addr holder (balance_of_sel E);
        let amount = (case b of Some v \<Rightarrow> v | None \<Rightarrow> 0);
        rest \<leftarrow> resolve_holders E rpc_url token_addr (to_lowercase holder # seen) holders;
        ret (if amount = 0 then rest else \<lparr>hb_address = holder, hb_amount = amount\<rparr> # rest)
      })"

definition build_drain_plan ::
  "env \<Rightarrow> Config \<Rightarrow> ChainId \<Rightarrow> ChainId \<Rightarrow> string list \<Rightarrow> ('m drain_scheme, DrainPlan) state" where
  "build_drain_plan E cfg source_chain target_chain holders =
     (case (map_of (rpc_urls cfg) source_chain, map_of (contract_addresses cfg) source_chain) of
        (Some source_rpc, Some source_bank) \<Rightarrow> do {
          t \<leftarrow> fetch_address_view E source_rpc source_bank (selector E ''syncUSD()'');
          (case t of
             None \<Rightarrow> ret (empty_plan source_chain target_chain)
           | Some sync_usd_addr \<Rightarrow> do {
               resolved \<leftarrow> resolve_holders E source_rpc sync_usd_addr [] holders;
               p \<leftarrow> fetch_pool_depth E source_rpc source_bank (selector E ''poolDepth()'');
               r \<leftarrow> fetch_reserve_depth E source_rpc source_bank (selector E ''reserveDepth()'');
               ret \<lparr>dp_source_chain = source_chain, dp_target_chain = target_chain, dp_holders = resolved,
                    dp_pool_amount = (case p of Some v \<Rightarrow> v | None \<Rightarrow> 0),
                    dp_reserve_amount = (case r of Some v \<Rightarrow> v | None \<Rightarrow> 0)\<rparr>
             })
        }
      | _ \<Rightarrow> ret (empty_plan source_chain target_chain))"

definition make_drain_id :: "ChainId \<Rightarrow> ChainId \<Rightarrow> string" where
  "make_drain_id source_chain target_chain =
     show_nat (unat source_chain) @ ''-'' @ show_nat (unat target_chain)"

definition parse_drain_id :: "string \<Rightarrow> (ChainId \<times> ChainId) option" where
  "parse_drain_id drain_id =
     (case split_on CHR ''-'' (trim drain_id) of
        [a, b] \<Rightarrow>
          (case (parse_u64 a, parse_u64 b) of
             (Some src, Some dst) \<Rightarrow> Some (src, dst)
           | _ \<Rightarrow> None)
      | _ \<Rightarrow> None)"

section \<open>The orchestrator\<close>

definition decom_op_id :: "ChainId \<Rightarrow> ChainId \<Rightarrow> string \<Rightarrow> OperationId" where
  "decom_op_id source_chain target_chain address =
     ''decom-'' @ show_nat (unat source_chain) @ ''-'' @ show_nat (unat target_chain) @ ''-'' @ address"

text \<open>One turn of the loop over the holders: whether the holder counts as drained.\<close>

definition drain_holder ::
  "env \<Rightarrow> user_service \<Rightarrow> Config \<Rightarrow> byte list \<Rightarrow> Address \<Rightarrow> ChainId \<Rightarrow> ChainId \<Rightarrow> string list \<Rightarrow> HolderBalance
     \<Rightarrow> ('m drain_scheme, bool) state" where
  "drain_holder E G cfg key addr source_chain target_chain completed holder =
     (if to_lowercase (hb_address holder) \<in> set completed then ret False
      else do {
        let op_id = decom_op_id source_chain target_chain (hb_address holder);
        insert_holder_op E op_id source_chain target_chain (hb_address holder) (hb_amount holder) ''pending'';
        b \<leftarrow> bridge_holder E cfg key addr source_chain target_chain (hb_address holder) (hb_amount holder);
        (case b of
           Inl err \<Rightarrow> do { mark_op_failed E op_id err; ret False }
         | Inr receipt \<Rightarrow> do {
             mark_holder_submitted E op_id (br_src_message_id receipt) (br_dst_tx_hash receipt);
             h \<leftarrow> runtime_set_user_home_chain E G cfg (hb_address holder) target_chain;
             (case h of
                Inl err \<Rightarrow> do { mark_op_failed E op_id err; ret False }
              | Inr _ \<Rightarrow> do { mark_holder_completed E op_id; ret True })
           })
      })"

fun drain_holders ::
  "env \<Rightarrow> user_service \<Rightarrow> Config \<Rightarrow> byte list \<Rightarrow> Address \<Rightarrow> ChainId \<Rightarrow> ChainId \<Rightarrow> string list
     \<Rightarrow> HolderBalance list \<Rightarrow> ('m drain_scheme, nat) state" where
  "drain_holders E G cfg key addr source_chain target_chain completed [] = ret 0"
| "drain_holders E G cfg key addr source_chain target_chain completed (h # hs) = do {
     d \<leftarrow> drain_holder E G cfg key addr source_chain target_chain completed h;
     n \<leftarrow> drain_holders E G cfg key addr source_chain target_chain completed hs;
     ret (if d then Suc n else n)
   }"

definition drain_complete_message :: string where
  "drain_complete_message = ''chain decommission drain complete: governance finalization ready''"

definition run_drain_plan ::
  "env \<Rightarrow> user_service \<Rightarrow> Config \<Rightarrow> byte list \<Rightarrow> Address \<Rightarrow> DrainPlan \<Rightarrow> ('m drain_scheme, DrainOutcome) state" where
  "run_drain_plan E G cfg key addr plan = do {
     let source_chain = dp_source_chain plan;
     let target_chain = dp_target_chain plan;
     active \<leftarrow> gets (\<lambda>s. is_chain_active s target_chain);
     (if \<not> active then do {
        alert ''chain decommission drain paused: target chain inactive'';
        ret PausedTargetInactive
      }
      else do {
        done \<leftarrow> completed_holders E source_chain target_chain;
        n \<leftarrow> drain_holders E G cfg key addr source_chain target_chain (map to_lowercase done) (dp_holders plan);
        (if dp_pool_amount plan \<noteq> 0
         then do { _ \<leftarrow> drain_pool E cfg key addr source_chain target_chain (dp_pool_amount plan); ret () }
         else ret ());
        (if dp_reserve_amount plan \<noteq> 0
         then do { _ \<leftarrow> drain_reserve E cfg key addr source_chain target_chain (dp_reserve_amount plan); ret () }
         else ret ());
        alert drain_complete_message;
        ret (Completed n)
      })
   }"

fun holder_balances ::
  "env \<Rightarrow> Config \<Rightarrow> ChainId \<Rightarrow> string list \<Rightarrow> ('m drain_scheme, HolderBalance list) state" where
  "holder_balances E cfg source_chain [] = ret []"
| "holder_balances E cfg source_chain (address # rest) = do {
     amount \<leftarrow> holder_balance_of E cfg source_chain address;
     hs \<leftarrow> holder_balances E cfg source_chain rest;
     ret (if amount = 0 then hs else \<lparr>hb_address = address, hb_amount = amount\<rparr> # hs)
   }"

definition handle_mark_decommissioning ::
  "env \<Rightarrow> user_service \<Rightarrow> Config \<Rightarrow> byte list \<Rightarrow> Address \<Rightarrow> ChainId \<Rightarrow> ChainId \<Rightarrow> u256 \<Rightarrow> u256
     \<Rightarrow> ('m drain_scheme, DrainOutcome) state" where
  "handle_mark_decommissioning E G cfg key addr source_chain target_chain pool_amount reserve_amount = do {
     hs \<leftarrow> holders_for_chain_index E source_chain;
     resolved \<leftarrow> holder_balances E cfg source_chain hs;
     run_drain_plan E G cfg key addr
       \<lparr>dp_source_chain = source_chain, dp_target_chain = target_chain, dp_holders = resolved,
        dp_pool_amount = pool_amount, dp_reserve_amount = reserve_amount\<rparr>
   }"

section \<open>The handlers (server.rs)\<close>

definition check_decommission_admin ::
  "Config \<Rightarrow> string option \<Rightarrow> string option \<Rightarrow> Status + unit" where
  "check_decommission_admin cfg admin_header auth_header =
     (case decommission_admin_token cfg of
        None \<Rightarrow> Inl (failed_precondition ''DECOMMISSION_ADMIN_TOKEN is not configured'')
      | Some expected \<Rightarrow>
          if admin_header = Some expected then Inr ()
          else if (case auth_header of
                     None \<Rightarrow> False
                   | Some raw \<Rightarrow> (case strip_prefix ''Bearer '' raw of Some r \<Rightarrow> r | None \<Rightarrow> raw) = expected)
          then Inr ()
          else Inl (permission_denied ''missing or invalid decommission admin token''))"

text \<open>\<open>amount.to::<u128>()\<close> panics when the amount does not fit.\<close>

definition holder_total :: "HolderBalance list \<Rightarrow> u128 outcome" where
  "holder_total holders =
     (if list_ex (\<lambda>h. 2 ^ 128 \<le> unat (hb_amount h)) holders then Panic
      else Ret (fold (\<lambda>h acc. saturating_add acc (ucast (hb_amount h))) holders 0))"

definition dust_tolerance :: "Config \<Rightarrow> u128" where
  "dust_tolerance cfg = (case ok (from_str_radix 10 (decommission_dust_tolerance_wei cfg)) of Some v \<Rightarrow> v | None \<Rightarrow> 0)"

text \<open>The part of the handler under the lock of the drain state.\<close>

definition launch_drain ::
  "env \<Rightarrow> Config \<Rightarrow> ChainId \<Rightarrow> ChainId \<Rightarrow> ('m drain_scheme, (Status + string) outcome) state" where
  "launch_drain E cfg source_chain target_chain = do {
     let drain_id = make_drain_id source_chain target_chain;
     running \<leftarrow> gets running_drain_id;
     resumable \<leftarrow> gets resumable_drain_id;
     (if running \<noteq> None then ret (Ret (Inl (already_exists ''a drain is already running'')))
      else if resumable \<noteq> None \<and> resumable \<noteq> Some drain_id
      then ret (Ret (Inl (already_exists ''a different drain is resumable; resume it before starting another'')))
      else do {
        holders \<leftarrow> holders_for_chain_index E source_chain;
        plan \<leftarrow> build_drain_plan E cfg source_chain target_chain holders;
        (case holder_total (dp_holders plan) of
           Panic \<Rightarrow> ret Panic
         | Ret tot \<Rightarrow>
             if tot \<le> dust_tolerance cfg \<and> dp_pool_amount plan = 0 \<and> dp_reserve_amount plan = 0
             then ret (Ret (Inl (failed_precondition ''drain plan has no actionable balances above dust tolerance'')))
             else do {
               modify (\<lambda>s. s\<lparr>running_drain_id := Some drain_id, resumable_drain_id := Some drain_id,
                 drain_tasks := drain_tasks s @ [(drain_id, plan)]\<rparr>);
               ret (Ret (Inr drain_id))
             })
      })
   }"

definition start_decommission_drain ::
  "env \<Rightarrow> Config \<Rightarrow> Address \<Rightarrow> string option \<Rightarrow> string option \<Rightarrow> ChainId \<Rightarrow> ChainId
     \<Rightarrow> ('m drain_scheme, (Status + string) outcome) state" where
  "start_decommission_drain E cfg addr admin_header auth_header source_chain target_chain =
     (case check_decommission_admin cfg admin_header auth_header of
        Inl st \<Rightarrow> ret (Ret (Inl st))
      | Inr _ \<Rightarrow> do {
          fresh \<leftarrow> index_fresh_enough E cfg source_chain;
          (if \<not> fresh
           then ret (Ret (Inl (failed_precondition ''account_events index cursor is too stale for source chain'')))
           else do {
             draining \<leftarrow> is_source_draining E cfg source_chain;
             (if \<not> draining
              then ret (Ret (Inl (failed_precondition ''source chain is not marked draining in RouteReceiver'')))
              else do {
                active \<leftarrow> gets (\<lambda>s. is_chain_active s target_chain);
                (if \<not> active then ret (Ret (Inl (failed_precondition ''target chain is not active'')))
                 else do {
                   roles \<leftarrow> has_required_roles E cfg source_chain addr;
                   (if \<not> roles
                    then ret (Ret (Inl (failed_precondition ''treasury signer missing required bank roles'')))
                    else launch_drain E cfg source_chain target_chain)
                 })
              })
           })
        })"

definition drain_task ::
  "env \<Rightarrow> user_service \<Rightarrow> Config \<Rightarrow> byte list \<Rightarrow> Address \<Rightarrow> string \<times> DrainPlan \<Rightarrow> ('m drain_scheme, unit) state" where
  "drain_task E G cfg key addr task = (case task of (drain_id, plan) \<Rightarrow> do {
     _ \<leftarrow> run_drain_plan E G cfg key addr plan;
     modify (\<lambda>s. s\<lparr>running_drain_id := None\<rparr>);
     more \<leftarrow> has_incomplete_ops E;
     modify (\<lambda>s. s\<lparr>resumable_drain_id := (if more then Some drain_id else None)\<rparr>)
   })"

definition derive_drain_state :: "string option \<Rightarrow> string \<Rightarrow> (string \<times> nat) list \<Rightarrow> string" where
  "derive_drain_state running requested counts =
     (if running = Some requested then ''running''
      else if list_ex (\<lambda>(st, _). st = ''paused'' \<or> st = ''failed'') counts then ''paused''
      else if list_ex (\<lambda>(st, _). st = ''pending'' \<or> st = ''submitted'') counts then ''resumable''
      else ''completed'')"

record drain_status =
  ds_drain_id :: string
  ds_state :: string
  ds_status_counts :: "(string \<times> nat) list"
  ds_drained_amount_wei :: string
  ds_last_error :: string

definition get_decommission_drain_status ::
  "env \<Rightarrow> Config \<Rightarrow> string option \<Rightarrow> string option \<Rightarrow> string \<Rightarrow> ('m drain_scheme, Status + drain_status) state" where
  "get_decommission_drain_status E cfg admin_header auth_header requested =
     (case check_decommission_admin cfg admin_header auth_header of
        Inl st \<Rightarrow> ret (Inl st)
      | Inr _ \<Rightarrow> do {
          running \<leftarrow> gets running_drain_id;
          resumable \<leftarrow> gets resumable_drain_id;
          (case (if trim requested = [] then (case running of Some r \<Rightarrow> Some r | None \<Rightarrow> resumable) else Some requested) of
             None \<Rightarrow> ret (Inl (not_found ''no running or resumable drain found''))
           | Some drain_id \<Rightarrow>
               (case parse_drain_id drain_id of
                  None \<Rightarrow> ret (Inl (invalid_argument (''drain_id must be '<source>-<target>'' @ [CHR 0x27])))
                | Some (source_chain, target_chain) \<Rightarrow> do {
                    counts \<leftarrow> status_counts E source_chain target_chain;
                    drained \<leftarrow> drained_amount_wei E source_chain target_chain;
                    err \<leftarrow> last_error E source_chain target_chain;
                    now_running \<leftarrow> gets running_drain_id;
                    ret (Inr \<lparr>ds_drain_id = drain_id, ds_state = derive_drain_state now_running drain_id counts,
                      ds_status_counts = counts, ds_drained_amount_wei = drained,
                      ds_last_error = (case err of Some e \<Rightarrow> e | None \<Rightarrow> [])\<rparr>)
                  }))
        })"

text \<open>At start-up the service finds the drain to resume.\<close>

definition resume_at_startup :: "env \<Rightarrow> ('m drain_scheme, unit) state" where
  "resume_at_startup E = do {
     p \<leftarrow> latest_incomplete_pair E;
     modify (\<lambda>s. s\<lparr>running_drain_id := None,
       resumable_drain_id := map_option (\<lambda>(src, dst). make_drain_id src dst) p\<rparr>)
   }"

section \<open>Requests and tasks\<close>

text \<open>
  One request, or the end of one spawned drain. A task stays in \<open>drain_tasks\<close> from the moment it is
  spawned until it has cleared the running id; the requests that arrive in between are steps before it.
\<close>

definition finish_task ::
  "env \<Rightarrow> user_service \<Rightarrow> Config \<Rightarrow> byte list \<Rightarrow> Address \<Rightarrow> string \<times> DrainPlan \<Rightarrow> ('m drain_scheme, unit) state" where
  "finish_task E G cfg key addr task = do {
     modify (\<lambda>s. s\<lparr>drain_tasks := remove1 task (drain_tasks s)\<rparr>);
     drain_task E G cfg key addr task
   }"

inductive drain_step ::
  "env \<Rightarrow> user_service \<Rightarrow> Config \<Rightarrow> byte list \<Rightarrow> Address \<Rightarrow> 'm drain_scheme \<Rightarrow> 'm drain_scheme \<Rightarrow> bool"
  for E G cfg key addr where
  start: "run_state (start_decommission_drain E cfg addr admin auth source_chain target_chain) s = (r, t) \<Longrightarrow>
    drain_step E G cfg key addr s t"
| status: "run_state (get_decommission_drain_status E cfg admin auth requested) s = (r, t) \<Longrightarrow>
    drain_step E G cfg key addr s t"
| finish: "task \<in> set (drain_tasks s) \<Longrightarrow> run_state (finish_task E G cfg key addr task) s = ((), t) \<Longrightarrow>
    drain_step E G cfg key addr s t"

inductive_cases drain_stepE: "drain_step E G cfg key addr s t"

end
