(* ===== verification/DrainSafety.thy ===== *)
theory DrainSafety
  imports Decommission
begin

text \<open>
  What a drain may do: the transactions it sends, what it reports, that a drained holder is recorded
  once and moved in the user service, that at most one drain runs at a time, and the drain id.
\<close>

section \<open>What a drain sends\<close>

definition bank_call :: "env \<Rightarrow> Config \<Rightarrow> ChainId \<Rightarrow> byte list \<Rightarrow> byte list \<Rightarrow> string \<times> json \<Rightarrow> bool" where
  "bank_call E cfg source_chain key data c \<longleftrightarrow>
     (\<exists>u b. map_of (rpc_urls cfg) source_chain = Some u \<and> map_of (contract_addresses cfg) source_chain = Some b \<and>
       signed_for E u b source_chain key 300000 [] data c)"

lemma drain_nonce_emits: "emits Q 0 (drain_nonce E u c a)"
  unfolding drain_nonce_def by (intro emits_then emits_case emits_ret emits_gets emits cache_emits)

lemma drain_send_emits: "emits (signed_for E u b c key 300000 [] data) 1 (drain_send E u b c key n data)"
proof -
  have "emits (signed_for E u b c key 300000 [] data) 1 (send_raw_transaction E u raw)"
    if "address_bytes b = Inr to" "sign_eip1559_tx E c n p f 300000 to [] data key = Inr raw" for to p f raw
    using that by (intro send_emits) (auto simp: signed_for_def)
  then show ?thesis
    unfolding drain_send_def
    by (intro emits_then emits_case emits_ret fetch_emits emits_first [where n = 1] wait_emits cache_emits)
qed

lemma submit_bank_call_emits:
  "emits (bank_call E cfg src key data) 1 (submit_bank_call E cfg key addr src data)"
proof -
  have "emits (bank_call E cfg src key data) 1 (drain_send E u b src key n data)"
    if "map_of (rpc_urls cfg) src = Some u" "map_of (contract_addresses cfg) src = Some b" for u b n
    using drain_send_emits [of E u b src key data n] that
    unfolding emits_def bank_call_def by (fastforce simp: list_all_iff)
  then show ?thesis
    unfolding submit_bank_call_def by (intro emits_then emits_case emits_ret drain_nonce_emits)
qed

lemma emits_weaken: "emits Q n m \<Longrightarrow> (\<And>c. Q c \<Longrightarrow> Q' c) \<Longrightarrow> emits Q' n m"
  unfolding emits_def list_all_iff by meson

lemma repo_calls:
  "keeps calls (insert_holder_op E i a b h x st)" "keeps calls (update_op E i f)"
  "keeps calls (completed_holders E a b)" "keeps calls (has_incomplete_ops E)"
  "keeps calls (runtime_set_user_home_chain E G cfg h c)" "keeps calls (alert m)"
  unfolding insert_holder_op_def update_op_def completed_holders_def has_incomplete_ops_def
    runtime_set_user_home_chain_def connect_user_service_def call_set_user_home_chain_def alert_def Let_def
  by (intro keeps keeps_modify; simp)+

lemmas repo_emits = repo_calls [THEN emits_keeps_calls]

lemmas marks = mark_holder_submitted_def mark_holder_completed_def mark_op_failed_def

lemma bridge_holder_emits:
  "emits (bank_call E cfg src key (pool_call E tgt a)) 1 (bridge_holder E cfg key addr src tgt h a)"
  unfolding bridge_holder_def by (intro emits_first submit_bank_call_emits emits_ret)

lemma drain_calls_emit:
  "emits (bank_call E cfg src key (pool_call E tgt a)) 1 (drain_pool E cfg key addr src tgt a)"
  "emits (bank_call E cfg src key (reserve_call E tgt a)) 1 (drain_reserve E cfg key addr src tgt a)"
  unfolding drain_pool_def drain_reserve_def by (intro emits_first submit_bank_call_emits emits_ret)+

lemma drain_holder_emits:
  "emits (bank_call E cfg src key (pool_call E tgt (hb_amount h)))
     (if to_lowercase (hb_address h) \<in> set completed then 0 else 1)
     (drain_holder E G cfg key addr src tgt completed h)"
proof (cases "to_lowercase (hb_address h) \<in> set completed")
  case False
  then show ?thesis
    unfolding drain_holder_def Let_def marks
    by simp (intro emits_then [OF repo_emits(1)] emits_first [OF bridge_holder_emits [unfolded One_nat_def]]
      emits_case emits_then emits_ret repo_emits)
qed (simp add: drain_holder_def)

definition undrained :: "string list \<Rightarrow> HolderBalance list \<Rightarrow> HolderBalance list" where
  "undrained completed hs = filter (\<lambda>h. to_lowercase (hb_address h) \<notin> set completed) hs"

lemma drain_holder_skips:
  "to_lowercase (hb_address h) \<in> set completed \<Longrightarrow> drain_holder E G cfg key addr src tgt completed h = ret False"
  by (simp add: drain_holder_def)

lemma drain_holders_emits:
  assumes "\<And>h c. h \<in> set (undrained completed hs) \<Longrightarrow>
    bank_call E cfg src key (pool_call E tgt (hb_amount h)) c \<Longrightarrow> Q c"
  shows "emits Q (length (undrained completed hs))
    (drain_holders E G cfg key addr src tgt completed hs :: ('m drain_scheme, nat) state)"
  using assms
proof (induction hs)
  case (Cons h hs)
  let ?all = "drain_holders E G cfg key addr src tgt completed hs :: ('m drain_scheme, nat) state"
    and ?one = "drain_holder E G cfg key addr src tgt completed h :: ('m drain_scheme, bool) state"
  have "emits Q (length (undrained completed hs)) ?all"
  proof (rule Cons.IH)
    fix k c
    assume "k \<in> set (undrained completed hs)" "bank_call E cfg src key (pool_call E tgt (hb_amount k)) c"
    then show "Q c" by (intro Cons.prems [of k]) (simp_all add: undrained_def)
  qed
  moreover have "emits Q (if to_lowercase (hb_address h) \<in> set completed then 0 else 1) ?one"
  proof (cases "to_lowercase (hb_address h) \<in> set completed")
    case True
    then show ?thesis by (simp add: drain_holder_skips)
  next
    case False
    then have "h \<in> set (undrained completed (h # hs))" by (simp add: undrained_def)
    from emits_weaken [OF drain_holder_emits Cons.prems [OF this]] show ?thesis .
  qed
  ultimately show ?case
    unfolding drain_holders.simps
    by (intro emits_bind [where a = "if to_lowercase (hb_address h) \<in> set completed then 0 else 1"
          and b = "length (undrained completed hs)"] emits_first emits_ret)
      (auto simp: undrained_def)
qed (simp add: undrained_def)

text \<open>The calls a plan allows, given the holders recorded as completed.\<close>

definition plan_call :: "env \<Rightarrow> Config \<Rightarrow> byte list \<Rightarrow> DrainPlan \<Rightarrow> string list \<Rightarrow> string \<times> json \<Rightarrow> bool" where
  "plan_call E cfg key plan completed c \<longleftrightarrow>
     (\<exists>h\<in>set (undrained completed (dp_holders plan)).
        bank_call E cfg (dp_source_chain plan) key (pool_call E (dp_target_chain plan) (hb_amount h)) c) \<or>
     bank_call E cfg (dp_source_chain plan) key (pool_call E (dp_target_chain plan) (dp_pool_amount plan)) c \<or>
     bank_call E cfg (dp_source_chain plan) key (reserve_call E (dp_target_chain plan) (dp_reserve_amount plan)) c"

definition completed_in :: "'m drain_scheme \<Rightarrow> ChainId \<Rightarrow> ChainId \<Rightarrow> string list" where
  "completed_in s src tgt = map to_lowercase (filter_map dc_holder_address
     (filter (\<lambda>r. of_pair src tgt r \<and> dc_status r = ''completed'') (decommission_ops s)))"

text \<open>The holders a drain takes to be completed: those recorded, and none when the database does not answer.\<close>

definition completed_seen :: "env \<Rightarrow> 'm drain_scheme \<Rightarrow> ChainId \<Rightarrow> ChainId \<Rightarrow> string list" where
  "completed_seen E s src tgt = (if db_up E (tick s) then completed_in s src tgt else [])"

definition drain_rest ::
  "env \<Rightarrow> user_service \<Rightarrow> Config \<Rightarrow> byte list \<Rightarrow> Address \<Rightarrow> DrainPlan \<Rightarrow> string list \<Rightarrow> ('m drain_scheme, DrainOutcome) state" where
  "drain_rest E G cfg key addr plan completed = do {
     n \<leftarrow> drain_holders E G cfg key addr (dp_source_chain plan) (dp_target_chain plan) completed (dp_holders plan);
     (if dp_pool_amount plan \<noteq> 0
      then do { _ \<leftarrow> drain_pool E cfg key addr (dp_source_chain plan) (dp_target_chain plan) (dp_pool_amount plan); ret () }
      else ret ());
     (if dp_reserve_amount plan \<noteq> 0
      then do { _ \<leftarrow> drain_reserve E cfg key addr (dp_source_chain plan) (dp_target_chain plan) (dp_reserve_amount plan); ret () }
      else ret ());
     alert drain_complete_message;
     ret (Completed n)
   }"

lemma run_drain_plan_active:
  assumes "is_chain_active s (dp_target_chain plan)"
  shows "run_state (run_drain_plan E G cfg key addr plan) s =
    run_state (drain_rest E G cfg key addr plan (completed_seen E s (dp_source_chain plan) (dp_target_chain plan)))
      (tick_on E 0 s)"
  using assms by (simp add: run_drain_plan_def drain_rest_def Let_def completed_holders_def run_db completed_in_def
      completed_seen_def)

lemma drain_rest_emits:
  "emits (plan_call E cfg key plan completed) (length (undrained completed (dp_holders plan)) + 2)
     (drain_rest E G cfg key addr plan completed)"
proof -
  let ?Q = "plan_call E cfg key plan completed" and ?src = "dp_source_chain plan" and ?tgt = "dp_target_chain plan"
  have hs: "emits ?Q (length (undrained completed (dp_holders plan)))
      (drain_holders E G cfg key addr ?src ?tgt completed (dp_holders plan) :: ('m drain_scheme, nat) state)"
    by (rule drain_holders_emits) (auto simp: plan_call_def)
  have p: "emits ?Q 1 (drain_pool E cfg key addr ?src ?tgt (dp_pool_amount plan) :: ('m drain_scheme, string + unit) state)"
    by (rule emits_weaken [OF drain_calls_emit(1)]) (simp add: plan_call_def)
  have r: "emits ?Q 1 (drain_reserve E cfg key addr ?src ?tgt (dp_reserve_amount plan) :: ('m drain_scheme, string + unit) state)"
    by (rule emits_weaken [OF drain_calls_emit(2)]) (simp add: plan_call_def)
  show ?thesis
    unfolding drain_rest_def
    by (rule emits_bind [OF hs, where b = 2], rule emits_bind [where a = 1 and b = 1],
        intro emits_if emits_first p emits_ret, rule emits_bind [where a = 1 and b = 0],
        intro emits_if emits_first r emits_ret, intro emits_then repo_emits emits_ret) simp_all
qed

text \<open>
  C4. A drain sends nothing when the target chain is not active. Otherwise it sends at most one
  transaction per holder that it does not find recorded as completed for this pair of chains, plus one
  for the pool and one for the reserve, each to the Bank of the source chain and each moving exactly
  the planned amount of such a holder, of the pool or of the reserve to the target chain. When the
  database answers the query for the completed holders, these, in any spelling of their address, are
  not bridged again; when it does not, the drain takes none to be completed and may send for every
  holder of the plan.
\<close>

theorem drain_plan_safe:
  "let completed = completed_seen E s (dp_source_chain plan) (dp_target_chain plan);
      t = snd (run_state (run_drain_plan E G cfg key addr plan) s)
    in if is_chain_active s (dp_target_chain plan)
       then adds s (length (undrained completed (dp_holders plan)) + 2) (plan_call E cfg key plan completed) t
       else calls t = calls s"
proof (cases "is_chain_active s (dp_target_chain plan)")
  case True
  have "adds (tick_on E 0 s) (length (undrained c (dp_holders plan)) + 2) (plan_call E cfg key plan c)
      (snd (run_state (drain_rest E G cfg key addr plan c) (tick_on E 0 s)))" for c
    by (rule emits_adds [OF drain_rest_emits surjective_pairing])
  then show ?thesis using True by (simp add: Let_def run_drain_plan_active adds_def)
next
  case False
  then show ?thesis by (simp add: run_drain_plan_def Let_def alert_def)
qed

section \<open>What a drain reports\<close>

lemma submit_bank_call_keeps: "keeps signer.more (submit_bank_call E cfg key addr src data)"
  unfolding submit_bank_call_def drain_nonce_def drain_send_def by (intro keeps)

lemma bank_keeps:
  assumes "beyond_signer f"
  shows "keeps f (bridge_holder E cfg key addr src tgt h a)" "keeps f (drain_pool E cfg key addr src tgt a)"
    "keeps f (drain_reserve E cfg key addr src tgt a)"
  unfolding bridge_holder_def drain_pool_def drain_reserve_def
  by (intro keeps keeps_beyond_signer [OF assms] submit_bank_call_keeps)+

lemma beyond_signer_drain:
  "beyond_signer (alerts :: 'm drain_scheme \<Rightarrow> _)" "beyond_signer (drain_tasks :: 'm drain_scheme \<Rightarrow> _)"
  "beyond_signer (running_drain_id :: 'm drain_scheme \<Rightarrow> _)"
  "beyond_signer (decommission_ops :: 'm drain_scheme \<Rightarrow> _)" "beyond_signer (user_db :: 'm drain_scheme \<Rightarrow> _)"
  unfolding beyond_signer_def
  subgoal by (intro allI impI, case_tac s, case_tac t, simp)
  subgoal by (intro allI impI, case_tac s, case_tac t, simp)
  subgoal by (intro allI impI, case_tac s, case_tac t, simp)
  subgoal by (intro allI impI, case_tac s, case_tac t, simp)
  subgoal by (intro allI impI, case_tac s, case_tac t, simp)
  done

text \<open>A part of the state that only the handlers and the alerts touch.\<close>

definition apart :: "('m drain_scheme \<Rightarrow> 'b) \<Rightarrow> bool" where
  "apart f \<longleftrightarrow> beyond_signer f \<and> (\<forall>s v. f (s\<lparr>decommission_ops := v\<rparr>) = f s) \<and> (\<forall>s v. f (s\<lparr>user_db := v\<rparr>) = f s) \<and>
     (\<forall>E d s. f (tick_on E d s) = f s)"

lemma apart_fields:
  "apart (alerts :: 'm drain_scheme \<Rightarrow> _)" "apart (drain_tasks :: 'm drain_scheme \<Rightarrow> _)"
  "apart (running_drain_id :: 'm drain_scheme \<Rightarrow> _)"
  by (simp_all add: apart_def beyond_signer_drain tick_on_def)

lemma keeps_db_apart: "apart f \<Longrightarrow> keeps f (db E)"
  by (simp add: keeps_def run_db apart_def)

lemma drain_holder_apart:
  assumes "apart f"
  shows "keeps f (drain_holder E G cfg key addr src tgt completed h)"
  using assms bank_keeps [of f]
  unfolding drain_holder_def Let_def marks insert_holder_op_def update_op_def runtime_set_user_home_chain_def
    connect_user_service_def call_set_user_home_chain_def
  by (intro keeps keeps_db_apart keeps_modify; simp add: apart_def)

lemma drain_holders_apart:
  "apart f \<Longrightarrow> keeps f (drain_holders E G cfg key addr src tgt completed hs)"
  by (induction hs) (auto intro!: keeps drain_holder_apart)

lemma drain_rest_apart:
  assumes "apart f" "\<And>s v. f (s\<lparr>alerts := v\<rparr>) = f s"
  shows "keeps f (drain_rest E G cfg key addr plan completed)"
  using assms bank_keeps [of f]
  unfolding drain_rest_def alert_def
  by (intro keeps drain_holders_apart keeps_modify; simp add: apart_def)

lemma drain_rest_reports:
  "\<exists>n. fst (run_state (drain_rest E G cfg key addr plan completed) s) = Completed n \<and>
     alerts (snd (run_state (drain_rest E G cfg key addr plan completed) s)) = alerts s @ [drain_complete_message]"
proof -
  let ?src = "dp_source_chain plan" and ?tgt = "dp_target_chain plan"
  obtain n s1 where n: "run_state (drain_holders E G cfg key addr ?src ?tgt completed (dp_holders plan)) s = (n, s1)"
    by (rule prod.exhaust)
  obtain s2 where p: "run_state (if dp_pool_amount plan \<noteq> 0
      then do { _ \<leftarrow> drain_pool E cfg key addr ?src ?tgt (dp_pool_amount plan); ret () } else ret ()) s1 = ((), s2)"
    by (rule run_unit)
  obtain s3 where r: "run_state (if dp_reserve_amount plan \<noteq> 0
      then do { _ \<leftarrow> drain_reserve E cfg key addr ?src ?tgt (dp_reserve_amount plan); ret () } else ret ()) s2 = ((), s3)"
    by (rule run_unit)
  have "alerts s1 = alerts s" by (rule keepsD [OF drain_holders_apart [OF apart_fields(1)] n])
  moreover have "alerts s2 = alerts s1"
    by (rule keepsD [OF _ p]) (intro keeps bank_keeps beyond_signer_drain)
  moreover have "alerts s3 = alerts s2"
    by (rule keepsD [OF _ r]) (intro keeps bank_keeps beyond_signer_drain)
  ultimately show ?thesis by (simp add: drain_rest_def n p r alert_def)
qed

lemma run_drain_plan_rest:
  assumes "is_chain_active s (dp_target_chain plan)"
  shows "\<exists>c. run_state (run_drain_plan E G cfg key addr plan) s =
    run_state (drain_rest E G cfg key addr plan c) (tick_on E 0 s)"
  using assms by (auto simp: run_drain_plan_def drain_rest_def Let_def completed_holders_def run_db)

text \<open>
  C38. A drain whose target chain is active always ends as \<open>Completed\<close> and always alerts the operators
  that the drain is complete and governance may finalise it, even when every transfer of it failed:
  with no node configured for the source chain no transaction is sent at all and the report is the
  same.
\<close>

theorem drain_always_reported_complete:
  assumes "is_chain_active s (dp_target_chain plan)"
    "run_state (run_drain_plan E G cfg key addr plan) s = (outcome, t)"
  shows "(\<exists>n. outcome = Completed n) \<and> alerts t = alerts s @ [drain_complete_message] \<and>
    (map_of (rpc_urls cfg) (dp_source_chain plan) = None \<longrightarrow> sends t = sends s)"
proof -
  obtain c where run: "run_state (drain_rest E G cfg key addr plan c) (tick_on E 0 s) = (outcome, t)"
    using run_drain_plan_rest [OF assms(1), of E G cfg key addr] assms(2) by auto
  from emits_adds [OF drain_rest_emits run] obtain new where
    new: "calls t = calls s @ new" "\<forall>x\<in>set new. is_send x \<longrightarrow> plan_call E cfg key plan c x"
    by (auto simp: adds_def)
  have "sends t = sends s" if "map_of (rpc_urls cfg) (dp_source_chain plan) = None"
  proof -
    have "\<not> is_send x" if "x \<in> set new" for x
      using that new(2) \<open>map_of (rpc_urls cfg) (dp_source_chain plan) = None\<close>
      by (auto simp: plan_call_def bank_call_def)
    then show ?thesis using new(1) by (simp add: sends_def)
  qed
  moreover have "alerts (tick_on E 0 s) = alerts s" by (simp add: tick_on_def)
  ultimately show ?thesis using drain_rest_reports [of E G cfg key addr plan c "tick_on E 0 s"] run by auto
qed

section \<open>A drained holder\<close>

text \<open>Every recorded operation is of one holder and carries the id made from its pair and holder.\<close>

definition ops_wf :: "decommission_row list \<Rightarrow> bool" where
  "ops_wf rows \<longleftrightarrow> (\<forall>r\<in>set rows. \<exists>a. dc_holder_address r = Some a \<and>
     dc_op_id r = decom_op_id (dc_chain_id r) (dc_dst_chain_id r) a)"

lemma show_nat_dash: "CHR ''-'' \<notin> set (show_nat n)"
  using show_base_no_special [of 10 "CHR ''-''" n] by auto

lemma sep_append_eq:
  assumes "sep \<notin> set xs" "sep \<notin> set ys"
  shows "xs @ sep # us = ys @ sep # vs \<longleftrightarrow> xs = ys \<and> us = vs"
  using assms
proof (induction xs arbitrary: ys)
  case Nil
  then show ?case by (cases ys) auto
next
  case (Cons x xs)
  then show ?case by (cases ys) auto
qed

lemma show_nat_unat_inject: "show_nat (unat (x :: u64)) = show_nat (unat y) \<longleftrightarrow> x = y"
proof
  assume "show_nat (unat x) = show_nat (unat y)"
  then have "from_str_radix 10 (show_nat (unat x)) = (Inr y :: ParseIntError + u64)" by simp
  then show "x = y" by simp
qed simp

lemma decom_op_id_inject:
  "decom_op_id a b h = decom_op_id a' b' h' \<longleftrightarrow> a = a' \<and> b = b' \<and> h = h'"
  by (simp add: decom_op_id_def sep_append_eq show_nat_dash show_nat_unat_inject)

lemma ops_wf_update:
  assumes "ops_wf rows" "\<And>r. dc_holder_address (f r) = dc_holder_address r \<and> dc_op_id (f r) = dc_op_id r \<and>
    dc_chain_id (f r) = dc_chain_id r \<and> dc_dst_chain_id (f r) = dc_dst_chain_id r"
  shows "ops_wf (update_rows dc_op_id i f rows)"
  using assms by (auto simp: ops_wf_def update_rows_def)

lemma ops_wf_insert:
  "ops_wf rows \<Longrightarrow> dc_holder_address r = Some a \<Longrightarrow> dc_op_id r = decom_op_id (dc_chain_id r) (dc_dst_chain_id r) a \<Longrightarrow>
     ops_wf (insert_row dc_op_id r rows)"
  by (auto simp: ops_wf_def insert_row_def)

definition keeps_ops_wf :: "'m drain_scheme \<Rightarrow> 'm drain_scheme \<Rightarrow> bool" where
  "keeps_ops_wf s t \<longleftrightarrow> (ops_wf (decommission_ops s) \<longrightarrow> ops_wf (decommission_ops t))"

interpretation ops_evolution: step_preorder keeps_ops_wf
  by unfold_locales (auto simp: keeps_ops_wf_def)

lemma ops_kept: "keeps decommission_ops m \<Longrightarrow> step_rel keeps_ops_wf m"
  by (rule ops_evolution.from_keeps [where f = decommission_ops]) (auto simp: keeps_ops_wf_def)

lemma row_ops_wf:
  "step_rel keeps_ops_wf (insert_holder_op E (decom_op_id src tgt a) src tgt a x st)"
  "step_rel keeps_ops_wf (mark_op_failed E i e)" "step_rel keeps_ops_wf (mark_holder_completed E i)"
  "step_rel keeps_ops_wf (mark_holder_submitted E i m h)"
  unfolding insert_holder_op_def marks update_op_def
  by (simp_all add: step_rel_def keeps_ops_wf_def run_db tick_on_def ops_wf_update ops_wf_insert)

lemma bank_ops_wf: "step_rel keeps_ops_wf (bridge_holder E cfg key addr src tgt a x)"
  by (rule ops_kept [OF bank_keeps(1) [OF beyond_signer_drain(4)]])

lemma home_ops_wf: "step_rel keeps_ops_wf (runtime_set_user_home_chain E G cfg a c)"
  unfolding runtime_set_user_home_chain_def connect_user_service_def call_set_user_home_chain_def Let_def
  by (intro ops_kept keeps keeps_modify) (simp_all add: tick_on_def)

lemma drain_holder_ops_wf: "step_rel keeps_ops_wf (drain_holder E G cfg key addr src tgt completed h)"
  unfolding drain_holder_def Let_def by (intro ops_evolution.rules row_ops_wf bank_ops_wf home_ops_wf)

lemma override_unknown:
  assumes "quiet E" "wf_tables (tables s)" "directory (tables s) a = None"
  shows "\<exists>st. fst (run_state (set_user_home_chain E token provided a chain True operator) s) = Inl st"
  using assms
  by (simp add: set_user_home_chain_def handler_defs tempo_address_try_from_def
      set_home_chain_for_decommission_def run_query_quiet run_statement_quiet owner_directory list_ex_iff
      split: option.split)

lemma override_success:
  assumes "quiet E" "wf_tables (tables s)" "chain < 2 ^ 63"
    "run_state (set_user_home_chain E token provided a chain True operator) s = (Inr (), s')"
  shows "fst (run_state (get_user_home_chain E a) s') = Inr (True, chain)"
proof -
  obtain secret where token: "token = Some secret" "provided = Some secret"
    using assms(4)
    by (auto simp: set_user_home_chain_def decommission_override_denial_def split: option.split_asm if_split_asm)
  have valid: "valid_tempo_address a"
    using assms(4) token
    by (simp add: set_user_home_chain_def decommission_override_denial_def handler_defs
        tempo_address_try_from_def split: if_split_asm)
  have "directory (tables s) a \<noteq> None"
    using override_unknown [OF assms(1,2), of a token provided chain operator] assms(4) by auto
  then obtain u where u: "directory (tables s) a = Some (ur_id u)" "u \<in> set (users (tables s))"
    using directory_owner [OF assms(2)] by (auto simp: ran_def)
  show ?thesis
    using assms(3,4) token run_override [OF assms(1,2) valid u, of secret chain operator]
      get_after_home [OF assms(1,2) valid u, where P = "\<lambda>_. True" and chain = "sint chain"
        and now = "now_at E (Suc (statements s))" and new = "[override_audit E s a u chain operator]"]
    by (auto simp: home_answer_def sint_nonneg_iff)
qed

lemma tick_on_drain [simp]:
  "user_db (tick_on E d s) = user_db s" "decommission_ops (tick_on E d s) = decommission_ops s"
  "alerts (tick_on E d s) = alerts s" "running_drain_id (tick_on E d s) = running_drain_id s"
  "drain_tasks (tick_on E d s) = drain_tasks s"
  by (simp_all add: tick_on_def)

lemma home_set:
  assumes "run_state (runtime_set_user_home_chain E G cfg h tgt) s = (Inr (), t)"
  obtains token provided where "run_state (set_user_home_chain (service_env G) token provided h tgt True
      ''treasury-decommission-orchestrator'') (user_db s) = (Inr (), user_db t)"
    "decommission_ops t = decommission_ops s"
proof -
  obtain token where "fst (run_state (set_user_home_chain (service_env G) (service_token G) (Some token) h tgt True
      ''treasury-decommission-orchestrator'') (user_db s)) = Inr ()"
    "snd (run_state (set_user_home_chain (service_env G) (service_token G) (Some token) h tgt True
      ''treasury-decommission-orchestrator'') (user_db s)) = user_db t" "decommission_ops t = decommission_ops s"
    using assms
    by (auto simp: runtime_set_user_home_chain_def connect_user_service_def call_set_user_home_chain_def Let_def
        split: option.split_asm sum.split_asm)
  then show ?thesis by (intro that [of "service_token G" "Some token"]) (simp_all add: prod_eq_iff)
qed

text \<open>The steps of a turn that counts the holder as drained.\<close>

lemma drain_holder_turn:
  assumes "\<forall>n. db_up E n" "run_state (drain_holder E G cfg key addr src tgt completed h) s = (True, t)"
  obtains token provided row m x now where
    "run_state (set_user_home_chain (service_env G) token provided (hb_address h) tgt True
      ''treasury-decommission-orchestrator'') (user_db s) = (Inr (), user_db t)"
    "dc_op_id row = decom_op_id src tgt (hb_address h)"
    "decommission_ops t = update_rows dc_op_id (decom_op_id src tgt (hb_address h))
       (\<lambda>r. r\<lparr>dc_status := ''completed'', dc_completed_at := Some now\<rparr>)
       (update_rows dc_op_id (decom_op_id src tgt (hb_address h))
         (\<lambda>r. r\<lparr>dc_status := ''submitted'', dc_src_message_id := m, dc_dst_tx_hash := x\<rparr>)
       (insert_row dc_op_id row (decommission_ops s)))"
proof -
  let ?i = "decom_op_id src tgt (hb_address h)"
  let ?row = "\<lambda>now. \<lparr>dc_op_id = ?i, dc_chain_id = src, dc_holder_address = Some (hb_address h),
    dc_amount = unat (hb_amount h), dc_src_message_id = None, dc_dst_chain_id = tgt, dc_dst_tx_hash = None,
    dc_status = ''pending'', dc_started_at = now, dc_completed_at = None, dc_failure_reason = None\<rparr>"
  define s1 where "s1 = (tick_on E 0 s)\<lparr>decommission_ops := insert_row dc_op_id (?row (now_ms (tick_on E 0 s))) (decommission_ops s)\<rparr>"
  obtain b s2 where bridge: "run_state (bridge_holder E cfg key addr src tgt (hb_address h) (hb_amount h)) s1 = (b, s2)"
    by (rule prod.exhaust)
  have kept: "user_db s2 = user_db s" "decommission_ops s2 = decommission_ops s1"
    using keepsD [OF bank_keeps(1) [OF beyond_signer_drain(5)] bridge]
      keepsD [OF bank_keeps(1) [OF beyond_signer_drain(4)] bridge] by (simp_all add: s1_def)
  obtain receipt where b: "b = Inr receipt"
    using assms bridge by (auto simp: drain_holder_def Let_def insert_holder_op_def marks update_op_def run_db s1_def
        split: if_split_asm sum.split_asm)
  define s3 where "s3 = (tick_on E 0 s2)\<lparr>decommission_ops := update_rows dc_op_id ?i
    (\<lambda>r. r\<lparr>dc_status := ''submitted'', dc_src_message_id := br_src_message_id receipt,
       dc_dst_tx_hash := br_dst_tx_hash receipt\<rparr>) (decommission_ops s2)\<rparr>"
  obtain r s4 where home: "run_state (runtime_set_user_home_chain E G cfg (hb_address h) tgt) s3 = (r, s4)"
    by (rule prod.exhaust)
  have r: "r = Inr ()"
    and t: "t = (tick_on E 0 s4)\<lparr>decommission_ops := update_rows dc_op_id ?i
      (\<lambda>r. r\<lparr>dc_status := ''completed'', dc_completed_at := Some (now_ms (tick_on E 0 s4))\<rparr>) (decommission_ops s4)\<rparr>"
    using assms bridge b home
    by (auto simp: drain_holder_def Let_def insert_holder_op_def marks update_op_def run_db s1_def s3_def
        split: if_split_asm sum.split_asm)
  from home obtain token provided where "run_state (set_user_home_chain (service_env G) token provided (hb_address h) tgt True
      ''treasury-decommission-orchestrator'') (user_db s3) = (Inr (), user_db s4)" "decommission_ops s4 = decommission_ops s3"
    unfolding r by (rule home_set)
  then show ?thesis
    using that [of token provided "?row (now_ms (tick_on E 0 s))"] kept by (simp add: t s3_def s1_def)
qed

text \<open>
  C28. A holder the drain counts as drained is moved: with the database up, an undisturbed user service
  and a target chain id below \<open>2 ^ 63\<close>, the user service, asked for the holder in the state after the
  turn, answers with the target chain; the operation is recorded as completed, so the holder is among
  the completed ones of the pair; and a turn for any spelling of the address from that state, with the
  completed holders read there, sends nothing, changes nothing and does not count the holder. (A turn
  whose completion could not be stored counts as drained too.)
\<close>

theorem drained_holder_moved:
  assumes "\<forall>n. db_up E n" "quiet (service_env G)" "wf_tables (tables (user_db s))"
    "ops_wf (decommission_ops s)" "tgt < 2 ^ 63"
    "run_state (drain_holder E G cfg key addr src tgt completed h) s = (True, t)"
  shows "fst (run_state (get_user_home_chain (service_env G) (hb_address h)) (user_db t)) = Inr (True, tgt) \<and>
    ops_wf (decommission_ops t) \<and> to_lowercase (hb_address h) \<in> set (completed_in t src tgt) \<and>
    (\<forall>h'. to_lowercase (hb_address h') = to_lowercase (hb_address h) \<longrightarrow>
       run_state (drain_holder E G cfg key addr src tgt (completed_in t src tgt) h') t = (False, t))"
proof -
  let ?i = "decom_op_id src tgt (hb_address h)"
  obtain token provided row m x now where turn:
    "run_state (set_user_home_chain (service_env G) token provided (hb_address h) tgt True
      ''treasury-decommission-orchestrator'') (user_db s) = (Inr (), user_db t)"
    "dc_op_id row = ?i"
    "decommission_ops t = update_rows dc_op_id ?i (\<lambda>r. r\<lparr>dc_status := ''completed'', dc_completed_at := Some now\<rparr>)
       (update_rows dc_op_id ?i (\<lambda>r. r\<lparr>dc_status := ''submitted'', dc_src_message_id := m, dc_dst_tx_hash := x\<rparr>)
       (insert_row dc_op_id row (decommission_ops s)))"
    using assms(1,6) by (rule drain_holder_turn)
  have wf: "ops_wf (decommission_ops t)"
    using step_relD [OF drain_holder_ops_wf assms(6)] assms(4) by (simp add: keeps_ops_wf_def)
  have "?i \<in> dc_op_id ` set (insert_row dc_op_id row (decommission_ops s))"
    using turn(2) by (auto simp: insert_row_def image_iff)
  then obtain r where r: "r \<in> set (decommission_ops t)" "dc_op_id r = ?i" "dc_status r = ''completed''"
    unfolding turn(3) update_rows_def by (fastforce simp: image_iff)
  then have "of_pair src tgt r" "dc_holder_address r = Some (hb_address h)"
    using wf by (auto simp: ops_wf_def decom_op_id_inject of_pair_def)
  then have "to_lowercase (hb_address h) \<in> set (completed_in t src tgt)"
    using r by (force simp: completed_in_def set_filter_map)
  then show ?thesis
    using override_success [OF assms(2,3,5) turn(1)] wf by (simp add: drain_holder_skips)
qed

section \<open>When a holder is drained\<close>

text \<open>A node that quotes a nonce and a gas price, accepts transactions and confirms them.\<close>

definition accepts :: "env \<Rightarrow> string \<Rightarrow> string \<Rightarrow> byte list \<Rightarrow> Address \<Rightarrow> bool" where
  "accepts E rpc bank key addr \<longleftrightarrow> can_submit E rpc bank key addr \<and>
     (\<forall>n raw. \<exists>resp h. http_post E n rpc (send_body raw) = Inr resp \<and> jget resp ''error'' = None \<and>
        as_str (jindex resp ''result'') = Some h) \<and>
     (\<forall>n h. \<exists>resp. http_post E n rpc (receipt_body h) = Inr resp \<and> receipt_status resp = Some ''0x1'')"

lemma drain_nonce_accepted:
  assumes "accepts E u b key addr"
  obtains n t where "run_state (drain_nonce E u c addr) s = (Inr n, t)"
proof (cases "nonce_cache s c")
  case None
  obtain v where "quantity ''nonce'' (http_post E (tick s) u
      (rpc_body ''eth_getTransactionCount'' [JStr (hex_0x addr), JStr ''pending''])) = Inr v"
    using assms unfolding accepts_def can_submit_def by blast
  then show ?thesis using that None by (simp add: drain_nonce_def fetch_nonce_def run_post cache_nonce_def)
qed (use that in \<open>simp add: drain_nonce_def\<close>)

lemma receipt_accepted:
  assumes "accepts E u b key addr"
  obtains logs t where "run_state (wait_for_receipt_logs E u h d) s = (Inr logs, t)"
proof -
  obtain resp where "http_post E (tick s) u (receipt_body h) = Inr resp" "receipt_status resp = Some ''0x1''"
    using assms unfolding accepts_def by blast
  then show ?thesis
    using that by (auto simp: wait_for_receipt_logs_def receipt_loop.simps [of E u h _ s] run_post)
qed

lemma drain_send_accepted:
  assumes "accepts E u b key addr"
  shows "\<exists>x. fst (run_state (drain_send E u b c key n data) s) = Inr x"
proof -
  obtain to v where to: "address_bytes b = Inr to"
    and gas: "quantity ''gasPrice'' (http_post E (tick s) u (rpc_body ''eth_gasPrice'' [])) = Inr v"
    using assms unfolding accepts_def can_submit_def by blast
  obtain f p s1 where g: "run_state (fetch_gas_params E u) s = (Inr (f, p), s1)"
    using gas by (simp add: fetch_gas_params_def run_post Let_def)
  obtain raw where raw: "sign_eip1559_tx E c n p f 300000 to [] data key = Inr raw"
    using assms sign_total unfolding accepts_def can_submit_def by blast
  obtain resp h where "http_post E (tick s1) u (send_body raw) = Inr resp" "jget resp ''error'' = None"
    "as_str (jindex resp ''result'') = Some h" using assms unfolding accepts_def by blast
  then obtain s2 where send: "run_state (send_raw_transaction E u raw) s1 = (Inr h, s2)"
    by (simp add: send_raw_transaction_def run_post)
  obtain logs s3 where "run_state (wait_for_receipt_logs E u h 90000) s2 = (Inr logs, s3)"
    using assms by (rule receipt_accepted)
  then show ?thesis by (simp add: drain_send_def g to raw send cache_nonce_def)
qed

lemma bridge_accepted:
  assumes "map_of (rpc_urls cfg) src = Some u" "map_of (contract_addresses cfg) src = Some b" "accepts E u b key addr"
  obtains receipt t where "run_state (bridge_holder E cfg key addr src tgt h a) s = (Inr receipt, t)"
proof -
  obtain n s1 where n: "run_state (drain_nonce E u src addr) s = (Inr n, s1)"
    using assms(3) by (rule drain_nonce_accepted)
  obtain h x s2 where "run_state (drain_send E u b src key n (pool_call E tgt a)) s1 = (Inr (h, x), s2)"
    using drain_send_accepted [OF assms(3)] by (metis prod.collapse)
  then show ?thesis using that n assms(1,2) by (simp add: bridge_holder_def submit_bank_call_def)
qed

lemma home_accepted:
  assumes "user_service_addr cfg = Some endpoint" "reachable_service G endpoint" "quiet (service_env G)"
    "decommission_orchestrator_token cfg = Some secret" "metadata_error G secret = None" "service_token G = Some secret"
    "wf_tables (tables (user_db s))" "valid_tempo_address a" "directory (tables (user_db s)) a = Some i"
  obtains t where "run_state (runtime_set_user_home_chain E G cfg a tgt) s = (Inr (), t)"
proof -
  obtain u where "directory (tables (user_db s)) a = Some (ur_id u)" "u \<in> set (users (tables (user_db s)))"
    using directory_owner [OF assms(7)] assms(9) by (auto simp: ran_def)
  from run_override [OF assms(3,7,8) this]
  show ?thesis
    using that assms(1-6)
    by (simp add: runtime_set_user_home_chain_def connect_user_service_def call_set_user_home_chain_def
        reachable_service_def Let_def)
qed

lemma drain_holder_accepted:
  assumes "map_of (rpc_urls cfg) src = Some u" "map_of (contract_addresses cfg) src = Some b" "accepts E u b key addr"
    "user_service_addr cfg = Some endpoint" "reachable_service G endpoint" "quiet (service_env G)"
    "decommission_orchestrator_token cfg = Some secret" "metadata_error G secret = None" "service_token G = Some secret"
    "wf_tables (tables (user_db s))" "valid_tempo_address (hb_address h)"
    "directory (tables (user_db s)) (hb_address h) = Some i" "to_lowercase (hb_address h) \<notin> set completed"
  shows "fst (run_state (drain_holder E G cfg key addr src tgt completed h) s)"
proof -
  let ?i = "decom_op_id src tgt (hb_address h)"
  obtain s1 where ins: "run_state (insert_holder_op E ?i src tgt (hb_address h) (hb_amount h) ''pending'') s = ((), s1)"
    by (rule run_unit)
  obtain receipt s2 where br: "run_state (bridge_holder E cfg key addr src tgt (hb_address h) (hb_amount h)) s1 = (Inr receipt, s2)"
    using assms(1-3) by (rule bridge_accepted)
  obtain s3 where sub: "run_state (mark_holder_submitted E ?i (br_src_message_id receipt) (br_dst_tx_hash receipt)) s2 = ((), s3)"
    by (rule run_unit)
  have "user_db s1 = user_db s" using ins by (auto simp: insert_holder_op_def run_db split: if_split_asm)
  moreover have "user_db s2 = user_db s1" by (rule keepsD [OF bank_keeps(1) [OF beyond_signer_drain(5)] br])
  moreover have "user_db s3 = user_db s2" using sub by (auto simp: marks update_op_def run_db split: if_split_asm)
  ultimately have same: "user_db s3 = user_db s" by simp
  obtain s4 where home: "run_state (runtime_set_user_home_chain E G cfg (hb_address h) tgt) s3 = (Inr (), s4)"
    using assms(4-9) assms(10-12) [folded same] by (rule home_accepted)
  obtain s5 where "run_state (mark_holder_completed E ?i) s4 = ((), s5)" by (rule run_unit)
  then show ?thesis using assms(13) by (simp add: drain_holder_def Let_def ins br sub home)
qed

section \<open>The drain id\<close>

lemma trim_no_space:
  assumes "\<forall>c\<in>set xs. \<not> is_space c"
  shows "trim xs = xs"
proof -
  have stop: "dropWhile is_space ys = ys" if "\<forall>c\<in>set ys. \<not> is_space c" for ys
    using that by (cases ys) auto
  show ?thesis using stop [of xs] stop [of "rev xs"] assms by (simp add: trim_def)
qed

lemma drain_id_parses: "parse_drain_id (make_drain_id source_chain target_chain) = Some (source_chain, target_chain)"
proof -
  let ?a = "show_nat (unat source_chain)" and ?b = "show_nat (unat target_chain)"
  have no: "c \<noteq> CHR ''-'' \<and> \<not> is_space c" if "c \<in> set (show_nat n)" for c n
    using show_base_no_special [of 10 c n] that by simp
  have "\<not> is_space CHR ''-''" by code_simp
  then have "trim (?a @ ''-'' @ ?b) = ?a @ ''-'' @ ?b" using no by (intro trim_no_space) auto
  moreover have "CHR ''-'' \<notin> set ?a" "CHR ''-'' \<notin> set ?b" using no by blast+
  ultimately show ?thesis
    by (simp add: parse_drain_id_def make_drain_id_def split_on_append split_on_no_sep)
qed

text \<open>
  A drain id names its pair of chains: parsing the id made for two chains gives them back, also
  with white space around it, and two different pairs have different ids.
\<close>

theorem drain_id_roundtrip:
  "parse_drain_id (make_drain_id source_chain target_chain) = Some (source_chain, target_chain) \<and>
   parse_drain_id ('' '' @ make_drain_id source_chain target_chain) = Some (source_chain, target_chain) \<and>
   (make_drain_id a b = make_drain_id c d \<longleftrightarrow> a = c \<and> b = d)"
proof (intro conjI)
  have "is_space CHR '' ''" by code_simp
  then show "parse_drain_id ('' '' @ make_drain_id source_chain target_chain) = Some (source_chain, target_chain)"
    using drain_id_parses [of source_chain target_chain] by (simp add: parse_drain_id_def trim_def)
  show "make_drain_id a b = make_drain_id c d \<longleftrightarrow> a = c \<and> b = d"
    by (metis drain_id_parses option.inject prod.inject)
qed (rule drain_id_parses)

section \<open>One drain at a time\<close>

definition slot :: "'m drain_scheme \<Rightarrow> string option \<times> (string \<times> DrainPlan) list" where
  "slot s = (running_drain_id s, drain_tasks s)"

lemma beyond_signer_slot: "beyond_signer slot"
  using beyond_signer_drain(2,3) unfolding beyond_signer_def slot_def by blast

lemma resolve_holders_keeps: "keeps signer.more (resolve_holders E u a seen hs)"
  by (induction E u a seen hs rule: resolve_holders.induct) (auto simp: Let_def intro!: keeps)

lemma reads_keep:
  "keeps signer.more (index_fresh_enough E cfg c)" "keeps signer.more (is_source_draining E cfg c)"
  "keeps signer.more (has_required_roles E cfg c a)" "keeps signer.more (holders_for_chain_index E c)"
  "keeps signer.more (build_drain_plan E cfg c d hs)" "keeps signer.more (status_counts E c d)"
  "keeps signer.more (drained_amount_wei E c d)" "keeps signer.more (last_error E c d)"
  unfolding index_fresh_enough_def get_cursor_def is_source_draining_def has_required_roles_def has_role_def
    holders_for_chain_index_def build_drain_plan_def status_counts_def drained_amount_wei_def last_error_def
  by (intro keeps resolve_holders_keeps)+

lemmas reads_slot = reads_keep [THEN keeps_beyond_signer [OF beyond_signer_slot]]

lemma status_slot: "keeps slot (get_decommission_drain_status E cfg admin auth requested)"
  unfolding get_decommission_drain_status_def by (intro keeps reads_slot)

lemma plan_chains:
  "run_state (build_drain_plan E cfg src tgt hs) s = (plan, t) \<Longrightarrow> dp_source_chain plan = src \<and> dp_target_chain plan = tgt"
  by (auto simp: build_drain_plan_def empty_plan_def Let_def split: option.split_asm prod.split_asm)

text \<open>A start either leaves the slot alone or takes the free slot for one new task.\<close>

definition takes_slot :: "ChainId \<Rightarrow> ChainId \<Rightarrow> 'm drain_scheme \<Rightarrow> 'm drain_scheme \<Rightarrow> bool" where
  "takes_slot src tgt s t \<longleftrightarrow> running_drain_id s = None \<and> (\<exists>plan. dp_source_chain plan = src \<and> dp_target_chain plan = tgt \<and>
     slot t = (Some (make_drain_id src tgt), drain_tasks s @ [(make_drain_id src tgt, plan)]))"

lemma launch_drain_slot:
  assumes "run_state (launch_drain E cfg src tgt) s = (r, t)"
  shows "slot t = slot s \<and> (running_drain_id s \<noteq> None \<longrightarrow> (\<exists>st. r = Ret (Inl st))) \<or> takes_slot src tgt s t"
proof (cases "running_drain_id s = None \<and> (resumable_drain_id s = None \<or> resumable_drain_id s = Some (make_drain_id src tgt))")
  case True
  obtain hs s1 where hs: "run_state (holders_for_chain_index E src) s = (hs, s1)" by (rule prod.exhaust)
  obtain plan s2 where plan: "run_state (build_drain_plan E cfg src tgt hs) s1 = (plan, s2)" by (rule prod.exhaust)
  have "slot s2 = slot s"
    using keepsD [OF reads_slot(4) hs] keepsD [OF reads_slot(5) plan] by simp
  then show ?thesis
    using assms True plan_chains [OF plan]
    by (auto simp: launch_drain_def Let_def hs plan takes_slot_def slot_def split: outcome.split_asm if_split_asm)
next
  case False
  then show ?thesis using assms by (auto simp: launch_drain_def Let_def split: if_split_asm)
qed

lemma start_slot:
  assumes "run_state (start_decommission_drain E cfg addr admin auth src tgt) s = (r, t)"
  shows "slot t = slot s \<and> (running_drain_id s \<noteq> None \<longrightarrow> (\<exists>st. r = Ret (Inl st))) \<or> takes_slot src tgt s t"
proof (cases "check_decommission_admin cfg admin auth")
  case (Inr x)
  obtain a s1 where a: "run_state (index_fresh_enough E cfg src) s = (a, s1)" by (rule prod.exhaust)
  obtain b s2 where b: "run_state (is_source_draining E cfg src) s1 = (b, s2)" by (rule prod.exhaust)
  obtain c s3 where c: "run_state (has_required_roles E cfg src addr) s2 = (c, s3)" by (rule prod.exhaust)
  have same: "slot s1 = slot s" "slot s2 = slot s" "slot s3 = slot s"
    using keepsD [OF reads_slot(1) a] keepsD [OF reads_slot(2) b] keepsD [OF reads_slot(3) c] by simp_all
  show ?thesis
  proof (cases "a \<and> b \<and> is_chain_active s2 tgt \<and> c")
    case True
    then have "run_state (launch_drain E cfg src tgt) s3 = (r, t)"
      using assms Inr a b c by (simp add: start_decommission_drain_def)
    from launch_drain_slot [OF this] show ?thesis using same(3) by (simp add: takes_slot_def slot_def)
  next
    case False
    then have "slot t = slot s \<and> (\<exists>st. r = Ret (Inl st))"
      using assms Inr a b c same by (auto simp: start_decommission_drain_def split: if_split_asm)
    then show ?thesis by simp
  qed
qed (use assms in \<open>auto simp: start_decommission_drain_def\<close>)

definition drain_inv :: "'m drain_scheme \<Rightarrow> bool" where
  "drain_inv s \<longleftrightarrow> (case running_drain_id s of
     None \<Rightarrow> drain_tasks s = []
   | Some i \<Rightarrow> (\<exists>plan. drain_tasks s = [(i, plan)] \<and> i = make_drain_id (dp_source_chain plan) (dp_target_chain plan)))"

lemma drain_inv_slot: "slot t = slot s \<Longrightarrow> drain_inv s \<Longrightarrow> drain_inv t"
  by (auto simp: slot_def drain_inv_def split: option.split)

lemma takes_slot_inv: "takes_slot src tgt s t \<Longrightarrow> drain_inv s \<Longrightarrow> drain_inv t"
  by (auto simp: takes_slot_def drain_inv_def slot_def)

lemma run_drain_plan_tasks: "keeps drain_tasks (run_drain_plan E G cfg key addr plan)"
  unfolding run_drain_plan_def Let_def alert_def completed_holders_def
  by (intro keeps drain_holders_apart bank_keeps apart_fields beyond_signer_drain keeps_db_apart keeps_modify) simp_all

lemma finish_slot:
  assumes "run_state (finish_task E G cfg key addr task) s = (x, t)"
  shows "slot t = (None, remove1 task (drain_tasks s))"
proof -
  obtain i plan where task: "task = (i, plan)" by (cases task)
  let ?s = "s\<lparr>drain_tasks := remove1 task (drain_tasks s)\<rparr>"
  obtain r u where run: "run_state (run_drain_plan E G cfg key addr plan) ?s = (r, u)" by (rule prod.exhaust)
  have "drain_tasks u = remove1 task (drain_tasks s)" using keepsD [OF run_drain_plan_tasks run] by simp
  then show ?thesis
    using assms run by (auto simp: finish_task_def drain_task_def task has_incomplete_ops_def run_db slot_def)
qed

lemma drain_step_inv: "drain_step E G cfg key addr s t \<Longrightarrow> drain_inv s \<Longrightarrow> drain_inv t"
proof (induction rule: drain_step.induct)
  case (start admin auth src tgt s r t)
  from start_slot [OF start(1)] start(2) show ?case using drain_inv_slot takes_slot_inv by blast
next
  case (status admin auth requested s r t)
  from keepsD [OF status_slot status(1)] status(2) show ?case by (rule drain_inv_slot)
next
  case (finish task s t)
  then have "drain_tasks s = [task]" by (auto simp: drain_inv_def split: option.split_asm)
  then show ?case using finish_slot [OF finish(2)] by (simp add: slot_def drain_inv_def)
qed

text \<open>
  C16. At most one drain runs at a time: from a start with no drain running, any sequence of start and
  status requests and of drains that end leaves at most one drain in progress, the running id names
  the pair of chains of exactly that drain, and while it runs every further start request is refused
  and starts nothing.
\<close>

theorem one_drain_at_a_time:
  assumes "(drain_step E G cfg key addr)\<^sup>*\<^sup>* s t" "running_drain_id s = None" "drain_tasks s = []"
  shows "(case running_drain_id t of
      None \<Rightarrow> drain_tasks t = []
    | Some i \<Rightarrow> (\<exists>plan. drain_tasks t = [(i, plan)] \<and> parse_drain_id i = Some (dp_source_chain plan, dp_target_chain plan))) \<and>
    (running_drain_id t \<noteq> None \<longrightarrow>
      run_state (start_decommission_drain E cfg addr admin auth source_chain target_chain) t = (r, u) \<longrightarrow>
      (\<exists>st. r = Ret (Inl st)) \<and> running_drain_id u = running_drain_id t \<and> drain_tasks u = drain_tasks t)"
proof -
  have "drain_inv t"
    using assms(1) by induction (use assms(2,3) in \<open>auto simp: drain_inv_def [of s] intro: drain_step_inv\<close>)
  then show ?thesis
    using start_slot [of E cfg addr admin auth source_chain target_chain t r u]
    by (auto simp: drain_inv_def drain_id_parses slot_def takes_slot_def split: option.split)
qed

section \<open>Concrete runs\<close>

definition drain_start :: drain where
  "drain_start =
     \<lparr>now_ms = 5, tick = 0, calls = [], nonce_cache = Map.empty, active_chains = {1, 2},
      decommissioned_chains = {}, relayer_key = Some [1], relayer_address = Some (replicate 20 5),
      route_last_block = 0, account_events = [], index_cursors = Map.empty, sync_usd_cache = Map.empty,
      block_time_cache = Map.empty, user_db = sample_db, decommission_ops = [], alerts = [],
      running_drain_id = None, resumable_drain_id = None, drain_tasks = []\<rparr>"

definition sample_holder :: HolderBalance where
  "sample_holder = \<lparr>hb_address = sample_address CHR ''a'', hb_amount = 7\<rparr>"

definition sample_plan :: DrainPlan where
  "sample_plan = \<lparr>dp_source_chain = 1, dp_target_chain = 2, dp_holders = [sample_holder], dp_pool_amount = 4,
     dp_reserve_amount = 0\<rparr>"

definition drain_config :: Config where
  "drain_config = indexer_config\<lparr>decommission_orchestrator_token := Some ''s''\<rparr>"

definition drain_service :: user_service where
  "drain_service = sample_service\<lparr>service_token := Some ''s''\<rparr>"

definition mined_answer :: "string \<Rightarrow> json" where
  "mined_answer m = (if m = ''eth_getTransactionReceipt'' then JObj [(''status'', JStr ''0x1'')] else JStr ''0x10'')"

lemma sample_accepts: "accepts (sample_env mined_answer) ''a'' (hex_0x (replicate 20 1)) [1] (replicate 20 5)"
  by (simp add: accepts_def can_submit_def address_bytes_def sample_env_def mined_answer_def quantity_def
      jindex_def rpc_body_def send_body_def receipt_body_def receipt_status_def method_of_def parse_0x10
      del: trim_0x.simps)

lemma drain_start_facts:
  "completed_in drain_start 1 2 = []" "is_chain_active drain_start 2" "alerts drain_start = []"
  "ops_wf (decommission_ops drain_start)" "user_db drain_start = sample_db" "hb_address sample_holder = sample_address CHR ''a''"
  "running_drain_id drain_start = None" "drain_tasks drain_start = []"
  "dp_source_chain sample_plan = 1" "dp_target_chain sample_plan = 2" "length (undrained [] (dp_holders sample_plan)) = 1"
  by (simp_all add: completed_in_def drain_start_def is_chain_active_def sample_plan_def undrained_def
      sample_holder_def ops_wf_def)

theorem drain_always_reported_complete_witness:
  "alerts (snd (run_state (run_drain_plan (sample_env mined_answer) drain_service (drain_config\<lparr>rpc_urls := []\<rparr>) [1]
     (replicate 20 5) sample_plan) drain_start)) = [drain_complete_message]"
  using drain_always_reported_complete [OF _ surjective_pairing, of drain_start sample_plan "sample_env mined_answer"
      drain_service "drain_config\<lparr>rpc_urls := []\<rparr>" "[1]" "replicate 20 5"]
  by (simp add: drain_start_facts)

theorem drained_holder_moved_witness:
  "fst (run_state (get_user_home_chain (service_env drain_service) (sample_address CHR ''a''))
     (user_db (snd (run_state (drain_holder (sample_env mined_answer) drain_service drain_config [1] (replicate 20 5)
        1 2 [] sample_holder) drain_start)))) = Inr (True, 2)"
proof -
  have "fst (run_state (drain_holder (sample_env mined_answer) drain_service drain_config [1] (replicate 20 5)
      1 2 [] sample_holder) drain_start)"
    by (rule drain_holder_accepted [OF _ _ sample_accepts, where endpoint = "''users:1''" and secret = "''s''"])
      (use sample_reachable sample_wf sample_valid sample_directory in
        \<open>simp_all add: drain_config_def indexer_config_def sample_config_def drain_service_def sample_service_def
          reachable_service_def drain_start_def sample_holder_def\<close>)
  then obtain t where t: "run_state (drain_holder (sample_env mined_answer) drain_service drain_config [1] (replicate 20 5)
      1 2 [] sample_holder) drain_start = (True, t)" by (metis prod.collapse)
  have "quiet (service_env drain_service)" using sample_reachable(2) by (simp add: drain_service_def)
  from drained_holder_moved [OF sample_db_always this _ _ _ t] show ?thesis
    using sample_wf by (simp add: t drain_start_facts)
qed

theorem one_drain_at_a_time_witness:
  "drain_tasks (snd (run_state (get_decommission_drain_status (sample_env mined_answer) drain_config None None []) drain_start)) = []"
proof -
  obtain r t where t: "run_state (get_decommission_drain_status (sample_env mined_answer) drain_config None None []) drain_start = (r, t)"
    by (rule prod.exhaust)
  have "(drain_step (sample_env mined_answer) drain_service drain_config [1] (replicate 20 5))\<^sup>*\<^sup>* drain_start t"
    by (intro r_into_rtranclp drain_step.status [OF t])
  from one_drain_at_a_time [OF this] keepsD [OF status_slot t] show ?thesis
    by (simp add: t drain_start_facts slot_def)
qed

end
