(* ===== verification/HotPath.thy ===== *)
theory HotPath
  imports Route Table
begin

text \<open>
  The hot-path relayer (\<open>hot_path.rs\<close>) with its repository (\<open>db/relay_repo.rs\<close>): polling the source
  chains for \<open>HotPathInitiated\<close>, the eligibility decision, the submission of \<open>releaseHotPath\<close> with
  retries and the life cycle of a row of \<open>treasury.relay_logs\<close>.

  A polling round spawns one task per parsed event; the spawned tasks wait in the field \<open>spawned\<close>
  and the step relation at the end of the theory runs them in any order, interleaved with polling
  and with the route receiver rounds.
\<close>

section \<open>The table relay\_logs\<close>

record relay_log =
  rl_source_event_hash :: EventHash
  rl_dest_tx_hash :: "TxHash option"
  rl_source_chain_id :: int
  rl_dest_chain_id :: int
  rl_sender :: string
  rl_recipient :: string
  rl_amount_wei :: nat
  rl_status :: string
  rl_updated_at :: nat

record hot_path = router +
  relay_logs :: "relay_log list"
  hp_last_block :: "ChainId \<rightharpoonup> u64"
  spawned :: "HotPathEvent list"

definition find_relay :: "'m hot_path_scheme \<Rightarrow> EventHash \<Rightarrow> relay_log option" where
  "find_relay s h = find_row rl_source_event_hash h (relay_logs s)"

definition relay_already_recorded :: "env \<Rightarrow> EventHash \<Rightarrow> ('m hot_path_scheme, bool) state" where
  "relay_already_recorded E source_event_hash = do {
     r \<leftarrow> gets (\<lambda>s. find_relay s source_event_hash);
     up \<leftarrow> db E;
     ret (if up then r \<noteq> None else False)
   }"

definition relay_row :: "HotPathEvent \<Rightarrow> TxHash option \<Rightarrow> RelayStatus \<Rightarrow> nat \<Rightarrow> relay_log" where
  "relay_row event dest_tx_hash status now =
     \<lparr>rl_source_event_hash = he_source_event_hash event, rl_dest_tx_hash = dest_tx_hash,
      rl_source_chain_id = sint (he_source_chain_id event),
      rl_dest_chain_id = sint (he_dest_chain_id event), rl_sender = he_sender event,
      rl_recipient = hex_0x (he_recipient event), rl_amount_wei = unat (he_amount event),
      rl_status = relay_status_str status, rl_updated_at = now\<rparr>"

definition insert_relay_log ::
  "env \<Rightarrow> HotPathEvent \<Rightarrow> TxHash option \<Rightarrow> RelayStatus \<Rightarrow> ('m hot_path_scheme, unit) state" where
  "insert_relay_log E event dest_tx_hash status = do {
     up \<leftarrow> db E;
     (if up then modify (\<lambda>s. s\<lparr>relay_logs := insert_row rl_source_event_hash
        (relay_row event dest_tx_hash status (now_ms s)) (relay_logs s)\<rparr>)
      else ret ())
   }"

definition update_relay_log ::
  "env \<Rightarrow> EventHash \<Rightarrow> TxHash \<Rightarrow> RelayStatus \<Rightarrow> ('m hot_path_scheme, unit) state" where
  "update_relay_log E source_event_hash dest_tx_hash status = do {
     up \<leftarrow> db E;
     (if up then modify (\<lambda>s. s\<lparr>relay_logs := update_rows rl_source_event_hash source_event_hash
        (\<lambda>r. r\<lparr>rl_dest_tx_hash := Some dest_tx_hash, rl_status := relay_status_str status,
               rl_updated_at := now_ms s\<rparr>) (relay_logs s)\<rparr>)
      else ret ())
   }"

definition update_relay_log_failed :: "env \<Rightarrow> EventHash \<Rightarrow> ('m hot_path_scheme, unit) state" where
  "update_relay_log_failed E source_event_hash = do {
     up \<leftarrow> db E;
     (if up then modify (\<lambda>s. s\<lparr>relay_logs := update_rows rl_source_event_hash source_event_hash
        (\<lambda>r. r\<lparr>rl_status := ''failed'', rl_updated_at := now_ms s\<rparr>) (relay_logs s)\<rparr>)
      else ret ())
   }"

definition relay_repo_status :: "env \<Rightarrow> EventHash \<Rightarrow> ('m hot_path_scheme, string option) state" where
  "relay_repo_status E source_event_hash = do {
     r \<leftarrow> gets (\<lambda>s. find_relay s source_event_hash);
     up \<leftarrow> db E;
     ret (if up then map_option rl_status r else None)
   }"

section \<open>The gRPC handler\<close>

definition get_relay_status :: "env \<Rightarrow> EventHash \<Rightarrow> ('m hot_path_scheme, Status + string) state" where
  "get_relay_status E source_event_hash = do {
     r \<leftarrow> relay_repo_status E source_event_hash;
     ret (case r of
            Some status \<Rightarrow> Inr status
          | None \<Rightarrow> Inl (not_found ''no relay log found for that event hash''))
   }"

section \<open>Event parsing\<close>

definition parse_hot_path_event :: "RpcLog \<Rightarrow> ChainId \<Rightarrow> HotPathEvent option" where
  "parse_hot_path_event log source_chain_id =
     (if length (topics log) < 3 then None
      else
        (case (decode_hex (topics log ! 1), decode_hex (topics log ! 2)) of
           (Some sender_raw, Some recipient_raw) \<Rightarrow>
             if length sender_raw < 32 \<or> length recipient_raw < 32 then None
             else
               (case decode_hex (log_data log) of
                  None \<Rightarrow> None
                | Some data \<Rightarrow>
                    if length data < 128 then None
                    else Some
                      \<lparr>he_source_chain_id = source_chain_id,
                       he_source_event_hash = transaction_hash log,
                       he_sender = hex_0x (slice 12 32 sender_raw),
                       he_recipient = slice 12 32 recipient_raw,
                       he_amount = u256_from_be_bytes (slice 0 32 data),
                       he_dest_chain_id = u64_from_be_bytes (slice 56 64 data),
                       he_event_id = slice 64 96 data\<rparr>)
         | _ \<Rightarrow> None))"

section \<open>Submission\<close>

definition MAX_RELAY_RETRIES :: nat where
  "MAX_RELAY_RETRIES = 3"

definition release_call :: "env \<Rightarrow> HotPathEvent \<Rightarrow> byte list" where
  "release_call E event =
     encode_release_hot_path (selector E ''releaseHotPath(address,uint256,bytes32)'')
       (he_recipient event) (he_amount event) (he_event_id event)"

definition submit_release_once ::
  "env \<Rightarrow> string \<Rightarrow> string \<Rightarrow> HotPathEvent \<Rightarrow> byte list \<Rightarrow> ChainId
     \<Rightarrow> ('m hot_path_scheme, TxError + TxHash) state" where
  "submit_release_once E rpc_url bank_addr event key chain_id = do {
     addr \<leftarrow> gets relayer_address;
     (case addr of
        None \<Rightarrow> ret (Inl MissingKey)
      | Some relayer_addr \<Rightarrow> do {
          t \<leftarrow> submit_tx E rpc_url bank_addr chain_id key relayer_addr 120000 [] (release_call E event);
          (case t of
             Inl e \<Rightarrow> ret (Inl e)
           | Inr tx_hash \<Rightarrow> do {
               w \<leftarrow> wait_for_receipt E rpc_url tx_hash 60000;
               ret (case w of Inl e \<Rightarrow> Inl e | Inr _ \<Rightarrow> Inr tx_hash)
             })
        })
   }"

definition submit_release_with_retry ::
  "env \<Rightarrow> string \<Rightarrow> string \<Rightarrow> HotPathEvent \<Rightarrow> ('m hot_path_scheme, TxError + TxHash) state" where
  "submit_release_with_retry E rpc_url bank_addr event = do {
     k \<leftarrow> gets relayer_key;
     (case k of
        None \<Rightarrow> ret (Inl MissingKey)
      | Some key \<Rightarrow>
          with_retry E (he_dest_chain_id event)
            (submit_release_once E rpc_url bank_addr event key (he_dest_chain_id event))
            MAX_RELAY_RETRIES)
   }"

section \<open>Relaying one event\<close>

text \<open>The part of \<open>relay_event\<close> after the eligibility decision came out as \<open>Approved\<close>.\<close>

definition relay_approved ::
  "env \<Rightarrow> string \<Rightarrow> string \<Rightarrow> HotPathEvent \<Rightarrow> ('m hot_path_scheme, unit) state" where
  "relay_approved E dest_rpc dest_bank event = do {
     insert_relay_log E event None RelayPending;
     r \<leftarrow> submit_release_with_retry E dest_rpc dest_bank event;
     (case r of
        Inr tx_hash \<Rightarrow> update_relay_log E (he_source_event_hash event) tx_hash RelayCompleted
      | Inl e \<Rightarrow> update_relay_log_failed E (he_source_event_hash event))
   }"

definition relay_decided ::
  "env \<Rightarrow> string \<Rightarrow> string \<Rightarrow> HotPathEvent \<Rightarrow> bool \<Rightarrow> u256 \<Rightarrow> ('m hot_path_scheme, unit) state" where
  "relay_decided E dest_rpc dest_bank event chain_active pool_depth =
     (case evaluate_relay_eligibility chain_active pool_depth (he_amount event) of
        Approved \<Rightarrow> relay_approved E dest_rpc dest_bank event
      | RejectedInactiveChain \<Rightarrow> insert_relay_log E event None RelayRejectedInactiveChain
      | RejectedInsufficientDepth \<Rightarrow> insert_relay_log E event None RelayRejectedInsufficientDepth)"

text \<open>The part after the idempotency guard.\<close>

definition relay_unrecorded :: "env \<Rightarrow> Config \<Rightarrow> HotPathEvent \<Rightarrow> ('m hot_path_scheme, unit) state" where
  "relay_unrecorded E cfg event = do {
     chain_active \<leftarrow> gets (\<lambda>s. is_chain_active s (he_dest_chain_id event));
     (case map_of (rpc_urls cfg) (he_dest_chain_id event) of
        None \<Rightarrow> ret ()
      | Some dest_rpc \<Rightarrow>
          (case map_of (contract_addresses cfg) (he_dest_chain_id event) of
             None \<Rightarrow> ret ()
           | Some dest_bank \<Rightarrow>
               if chain_active then do {
                 d \<leftarrow> fetch_pool_depth E dest_rpc dest_bank (selector E ''poolDepth()'');
                 (case d of
                    None \<Rightarrow> ret ()
                  | Some pool_depth \<Rightarrow> relay_decided E dest_rpc dest_bank event chain_active pool_depth)
               }
               else relay_decided E dest_rpc dest_bank event chain_active 0))
   }"

definition relay_event :: "env \<Rightarrow> Config \<Rightarrow> HotPathEvent \<Rightarrow> ('m hot_path_scheme, unit) state" where
  "relay_event E cfg event = do {
     recorded \<leftarrow> relay_already_recorded E (he_source_event_hash event);
     (if recorded then ret () else relay_unrecorded E cfg event)
   }"

section \<open>Polling\<close>

definition hot_path_topic :: "env \<Rightarrow> string" where
  "hot_path_topic E =
     event_topic E ''HotPathInitiated(address,address,uint256,uint256,bytes32,uint256)''"

definition poll_events_chain ::
  "env \<Rightarrow> ChainId \<times> string \<times> string \<Rightarrow> ('m hot_path_scheme, unit) state" where
  "poll_events_chain E entry = (case entry of (chain_id, rpc_url, bank_addr) \<Rightarrow> do {
     b \<leftarrow> fetch_block_number E rpc_url;
     (case b of
        None \<Rightarrow> ret ()
      | Some to_block \<Rightarrow> do {
          last_block \<leftarrow> gets hp_last_block;
          let scan_from = (case last_block chain_id of Some l \<Rightarrow> l | None \<Rightarrow> to_block);
          logs \<leftarrow> fetch_logs E rpc_url bank_addr (hot_path_topic E)
                    (clamp_from scan_from to_block) to_block;
          modify (\<lambda>s. s\<lparr>spawned := spawned s @ filter_map (\<lambda>log. parse_hot_path_event log chain_id) logs\<rparr>);
          modify (\<lambda>s. s\<lparr>hp_last_block := (hp_last_block s)(chain_id \<mapsto> to_block + 1)\<rparr>)
        })
   })"

definition poll_events_round :: "env \<Rightarrow> Config \<Rightarrow> ('m hot_path_scheme, unit) state" where
  "poll_events_round E cfg =
     for_each (poll_events_chain E) (chain_entries (rpc_urls cfg) (contract_addresses cfg))"

section \<open>Frame facts\<close>

lemma run_relay_already_recorded:
  "run_state (relay_already_recorded E h) s =
     (db_up E (tick s) \<and> find_relay s h \<noteq> None, tick_on E 0 s)"
  by (simp add: relay_already_recorded_def run_db)

lemma find_relay_tick [simp]: "find_relay (tick_on E d s) h = find_relay s h"
  and relay_logs_tick [simp]: "relay_logs (tick_on E d s) = relay_logs s"
  and is_chain_active_tick [simp]: "is_chain_active (tick_on E d s) c = is_chain_active s c"
  by (simp_all add: find_relay_def is_chain_active_def tick_on_def)

lemma beyond_signer_hot_path:
  "beyond_signer (relay_logs :: 'm hot_path_scheme \<Rightarrow> _)"
  "beyond_signer (decommissioned_chains :: 'm hot_path_scheme \<Rightarrow> _)"
  unfolding beyond_signer_def
  subgoal by (intro allI impI, case_tac s, case_tac t, simp)
  subgoal by (intro allI impI, case_tac s, case_tac t, simp)
  done

lemma relay_repo_keeps:
  "keeps calls (relay_already_recorded E h)" "keeps signer.more (relay_already_recorded E h)"
  "keeps calls (insert_relay_log E e tx st)" "keeps decommissioned_chains (insert_relay_log E e tx st)"
  "keeps calls (update_relay_log E h t st)" "keeps decommissioned_chains (update_relay_log E h t st)"
  "keeps calls (update_relay_log_failed E h)" "keeps decommissioned_chains (update_relay_log_failed E h)"
  by (simp_all add: keeps_def relay_already_recorded_def insert_relay_log_def update_relay_log_def
      update_relay_log_failed_def run_db tick_on_def)

lemma submit_release_keeps:
  "keeps signer.more (submit_release_with_retry E u b e)"
  unfolding submit_release_with_retry_def submit_release_once_def
  by (intro keeps)

text \<open>What a \<open>releaseHotPath\<close> transaction of an event is.\<close>

definition release_of :: "env \<Rightarrow> string \<Rightarrow> string \<Rightarrow> byte list \<Rightarrow> HotPathEvent \<Rightarrow> string \<times> json \<Rightarrow> bool" where
  "release_of E rpc bank key e =
     signed_for E rpc bank (he_dest_chain_id e) key 120000 [] (release_call E e)"

lemma submit_release_emits:
  assumes "relayer_key s = Some key"
  shows "\<exists>new. calls (snd (run_state (submit_release_with_retry E u b e) s)) = calls s @ new \<and>
    length (filter is_send new) \<le> 3 \<and> list_all (\<lambda>c. is_send c \<longrightarrow> release_of E u b key e c) new"
proof -
  have "emits (release_of E u b key e) 1 (submit_release_once E u b e key (he_dest_chain_id e))"
    unfolding submit_release_once_def release_of_def
    by (intro emits_then emits_case emits_ret emits_gets emits_first submit_tx_emits wait_emits)
  then have "emits (release_of E u b key e) 3 (with_retry E (he_dest_chain_id e)
      (submit_release_once E u b e key (he_dest_chain_id e)) MAX_RELAY_RETRIES)"
    unfolding MAX_RELAY_RETRIES_def by (rule with_retry_emits)
  from emitsD [OF this surjective_pairing, of s] assms show ?thesis
    by (simp add: submit_release_with_retry_def)
qed

lemma relay_repo_calls [simp]:
  "calls (snd (run_state (insert_relay_log E e tx st) s)) = calls s"
  "relayer_key (snd (run_state (insert_relay_log E e tx st) s)) = relayer_key s"
  "calls (snd (run_state (update_relay_log E h t st) s)) = calls s"
  "calls (snd (run_state (update_relay_log_failed E h) s)) = calls s"
  by (simp_all add: insert_relay_log_def update_relay_log_def update_relay_log_failed_def run_db
      tick_on_def)

lemma relay_approved_adds:
  "adds s 3 (\<lambda>c. \<exists>key. relayer_key s = Some key \<and> release_of E u b key e c)
     (snd (run_state (relay_approved E u b e) s))"
proof -
  let ?s1 = "snd (run_state (insert_relay_log E e None RelayPending) s)"
  obtain r s2 where r: "run_state (submit_release_with_retry E u b e) ?s1 = (r, s2)" by fastforce
  have c1: "calls ?s1 = calls s" "relayer_key ?s1 = relayer_key s" by simp_all
  have "adds ?s1 3 (\<lambda>c. \<exists>key. relayer_key s = Some key \<and> release_of E u b key e c) s2"
  proof (cases "relayer_key s")
    case None
    then show ?thesis using r c1
      by (auto simp: submit_release_with_retry_def intro!: adds_refl)
  next
    case (Some key)
    then have "relayer_key ?s1 = Some key" using c1 by simp
    from submit_release_emits [OF this, of E u b e] r Some show ?thesis
      by (auto simp: adds_def list_all_iff)
  qed
  moreover have "calls (snd (run_state (relay_approved E u b e) s)) = calls s2"
    by (simp add: relay_approved_def r split_beta split: sum.split)
  ultimately show ?thesis using c1 by (simp add: adds_def)
qed

lemma fetch_pool_depth_frame:
  "calls (snd (run_state (fetch_pool_depth E u a sel) s)) = calls s @ [(u, eth_call_body a (hex_0x sel))]"
  "sys.more (snd (run_state (fetch_pool_depth E u a sel) s)) = sys.more s"
  by (simp_all add: fetch_pool_depth_def fetch_u256_view_def run_post)

lemma relayer_key_beyond: "sys.more s = sys.more t \<Longrightarrow> relayer_key s = relayer_key t"
  by (cases s, cases t) simp

lemma relayer_address_beyond: "sys.more s = sys.more t \<Longrightarrow> relayer_address s = relayer_address t"
  by (cases s, cases t) simp

lemma relay_decided_adds:
  "adds s 3 (\<lambda>c. act \<and> he_amount e \<le> depth \<and> (\<exists>key. relayer_key s = Some key \<and> release_of E u b key e c))
     (snd (run_state (relay_decided E u b e act depth) s))"
proof (cases "evaluate_relay_eligibility act depth (he_amount e)")
  case Approved
  then have "act \<and> he_amount e \<le> depth" by (simp add: evaluate_relay_eligibility_Approved_iff)
  then show ?thesis
    using relay_approved_adds [of s E u b e] Approved by (simp add: relay_decided_def)
qed (simp_all add: relay_decided_def adds_refl)

definition depth_reported :: "env \<Rightarrow> 'm sys_scheme \<Rightarrow> string \<Rightarrow> string \<Rightarrow> u256 option" where
  "depth_reported E s rpc bank =
     map_option u256_from_be_bytes
       (word_result (http_post E (tick s) rpc (eth_call_body bank (hex_0x (selector E ''poolDepth()'')))))"

lemma run_fetch_pool_depth:
  "fst (run_state (fetch_pool_depth E u a (selector E ''poolDepth()'')) s) = depth_reported E s u a"
  by (simp add: fetch_pool_depth_def fetch_u256_view_def run_post depth_reported_def)

definition relay_allowed :: "env \<Rightarrow> Config \<Rightarrow> HotPathEvent \<Rightarrow> 'm hot_path_scheme \<Rightarrow> string \<times> json \<Rightarrow> bool" where
  "relay_allowed E cfg e s c \<longleftrightarrow> is_chain_active s (he_dest_chain_id e) \<and>
     (\<exists>rpc bank key depth. map_of (rpc_urls cfg) (he_dest_chain_id e) = Some rpc \<and>
        map_of (contract_addresses cfg) (he_dest_chain_id e) = Some bank \<and> relayer_key s = Some key \<and>
        depth_reported E s rpc bank = Some depth \<and> he_amount e \<le> depth \<and> release_of E rpc bank key e c)"

lemma relay_unrecorded_adds:
  "adds s 3 (relay_allowed E cfg e s) (snd (run_state (relay_unrecorded E cfg e) s))"
proof (cases "map_of (rpc_urls cfg) (he_dest_chain_id e)")
  case u: (Some u)
  show ?thesis
  proof (cases "map_of (contract_addresses cfg) (he_dest_chain_id e)")
    case b: (Some b)
    let ?sel = "selector E ''poolDepth()''"
    show ?thesis
    proof (cases "is_chain_active s (he_dest_chain_id e)")
      case True
      let ?s1 = "snd (run_state (fetch_pool_depth E u b ?sel) s)"
      have more: "relayer_key ?s1 = relayer_key s"
        by (rule relayer_key_beyond [OF fetch_pool_depth_frame(2)])
      have a0: "adds s 0 (relay_allowed E cfg e s) ?s1"
        by (simp add: adds_def fetch_pool_depth_frame)
      show ?thesis
      proof (cases "depth_reported E s u b")
        case None
        then show ?thesis using u b True adds_mono [OF a0]
          by (simp add: relay_unrecorded_def run_fetch_pool_depth split_beta)
      next
        case (Some d)
        have "adds ?s1 3 (relay_allowed E cfg e s)
            (snd (run_state (relay_decided E u b e True d) ?s1))"
          by (rule adds_mono [OF relay_decided_adds])
            (auto simp: relay_allowed_def u b True Some more)
        with adds_trans [OF a0 this] show ?thesis using u b True Some
          by (simp add: relay_unrecorded_def run_fetch_pool_depth split_beta)
      qed
    next
      case False
      have "adds s 3 (relay_allowed E cfg e s) (snd (run_state (relay_decided E u b e False 0) s))"
        by (rule adds_mono [OF relay_decided_adds]) auto
      with False show ?thesis using u b by (simp add: relay_unrecorded_def)
    qed
  qed (simp add: relay_unrecorded_def u adds_refl)
qed (simp add: relay_unrecorded_def adds_refl)

lemma relay_event_adds:
  "adds s 3 (\<lambda>c. relay_allowed E cfg e (tick_on E 0 s) c \<and>
       \<not> (db_up E (tick s) \<and> find_relay s (he_source_event_hash e) \<noteq> None))
     (snd (run_state (relay_event E cfg e) s))"
proof (cases "db_up E (tick s) \<and> find_relay s (he_source_event_hash e) \<noteq> None")
  case True
  then show ?thesis by (simp add: relay_event_def run_relay_already_recorded adds_refl)
next
  case False
  have "adds (tick_on E 0 s) 3 (relay_allowed E cfg e (tick_on E 0 s))
      (snd (run_state (relay_unrecorded E cfg e) (tick_on E 0 s)))"
    by (rule relay_unrecorded_adds)
  then show ?thesis using False
    by (auto simp: relay_event_def run_relay_already_recorded adds_def)
qed

text \<open>
  C1. Whatever the nodes and the database answer, relaying one event sends at most three raw
  transactions, each of them the \<open>releaseHotPath\<close> call of exactly that event (its recipient, amount
  and event id, with no value), signed for the destination chain and sent to that chain's
  configured node and Bank; and it sends any only if the destination was active, its pool depth as
  just reported covers the amount, and the event was not recorded or the database did not answer the
  query for its row (the guard then counts the event as new).
\<close>

theorem relay_event_safe:
  "adds s 3 (\<lambda>c. relay_allowed E cfg e (tick_on E 0 s) c \<and>
       \<not> (db_up E (tick s) \<and> find_relay s (he_source_event_hash e) \<noteq> None))
     (snd (run_state (relay_event E cfg e) s))"
  by (rule relay_event_adds)

lemma submit_release_sends:
  assumes "relayer_key s = Some key" "relayer_address s = Some addr" "can_submit E u b key addr"
  shows "sent s (release_of E u b key e) (snd (run_state (submit_release_with_retry E u b e) s))"
proof -
  let ?once = "submit_release_once E u b e key (he_dest_chain_id e)"
  have em: "emits (release_of E u b key e) 1 ?once"
    unfolding submit_release_once_def release_of_def
    by (intro emits_then emits_case emits_ret emits_gets emits_first submit_tx_emits wait_emits)
  obtain r s1 where r: "run_state (submit_tx E u b (he_dest_chain_id e) key addr 120000 []
      (release_call E e)) s = (r, s1)" by fastforce
  have s1: "sent s (release_of E u b key e) s1"
    using submit_tx_sends [OF assms(3), of s "he_dest_chain_id e" 120000 "[]" "release_call E e"] r
    by (simp add: release_of_def)
  have "sent s (release_of E u b key e) (snd (run_state ?once s))"
  proof (cases r)
    case (Inr h)
    from sent_adds [OF s1 emits_adds [OF wait_emits(1) [of "\<lambda>_. True" 0 E u h 60000] surjective_pairing]] Inr
    show ?thesis by (simp add: submit_release_once_def assms(2) r split_beta)
  qed (simp add: submit_release_once_def assms(2) r s1)
  from retry_sends [OF em this, of MAX_RELAY_RETRIES] assms(1) show ?thesis
    by (simp add: submit_release_with_retry_def with_retry_def split_beta MAX_RELAY_RETRIES_def)
qed

lemma relayer_insert [simp]:
  "relayer_address (snd (run_state (insert_relay_log E e tx st) s)) = relayer_address s"
  by (simp add: insert_relay_log_def run_db tick_on_def)

lemma relay_approved_sends:
  assumes "relayer_key s = Some key" "relayer_address s = Some addr" "can_submit E u b key addr"
  shows "sent s (release_of E u b key e) (snd (run_state (relay_approved E u b e) s))"
proof -
  let ?s1 = "snd (run_state (insert_relay_log E e None RelayPending) s)"
  have "sent ?s1 (release_of E u b key e) (snd (run_state (submit_release_with_retry E u b e) ?s1))"
    using assms by (intro submit_release_sends) auto
  then show ?thesis by (simp add: sent_def relay_approved_def split_beta split: sum.split)
qed

text \<open>
  C23. An eligible event is released: when the event is not recorded, its destination is configured
  and active, the reported depth covers the amount, and the node serves the relayer (nonce and gas
  price, a well-formed Bank address, a key that signs), the task sends the event's
  \<open>releaseHotPath\<close> transaction.
\<close>

theorem eligible_event_released:
  assumes "find_relay s (he_source_event_hash e) = None" "is_chain_active s (he_dest_chain_id e)"
    "map_of (rpc_urls cfg) (he_dest_chain_id e) = Some u"
    "map_of (contract_addresses cfg) (he_dest_chain_id e) = Some b"
    "depth_reported E (tick_on E 0 s) u b = Some depth" "he_amount e \<le> depth"
    "relayer_key s = Some key" "relayer_address s = Some addr" "can_submit E u b key addr"
  shows "sent s (release_of E u b key e) (snd (run_state (relay_event E cfg e) s))"
proof -
  let ?sel = "selector E ''poolDepth()''" and ?s1 = "tick_on E 0 s"
  let ?s2 = "snd (run_state (fetch_pool_depth E u b ?sel) ?s1)"
  have run: "run_state (relay_event E cfg e) s = run_state (relay_unrecorded E cfg e) ?s1"
    by (simp add: relay_event_def run_relay_already_recorded assms(1))
  have more: "sys.more ?s2 = sys.more ?s1" by (rule fetch_pool_depth_frame(2))
  have "relayer_key ?s2 = Some key" "relayer_address ?s2 = Some addr"
    using relayer_key_beyond [OF more] relayer_address_beyond [OF more] assms(7,8)
    by (simp_all add: tick_on_def)
  then have s2: "sent ?s2 (release_of E u b key e) (snd (run_state (relay_approved E u b e) ?s2))"
    using assms(9) by (rule relay_approved_sends)
  have eq: "snd (run_state (relay_unrecorded E cfg e) ?s1) = snd (run_state (relay_approved E u b e) ?s2)"
    using assms(2-6) by (simp add: relay_unrecorded_def relay_decided_def run_fetch_pool_depth split_beta
        evaluate_relay_eligibility_def)
  have "adds s 0 (\<lambda>_. True) ?s2" by (simp add: adds_def fetch_pool_depth_frame)
  from adds_sent [OF this s2] show ?thesis unfolding run eq .
qed

section \<open>Idempotency\<close>

interpretation relay_once:
  once_store "relay_already_recorded :: env \<Rightarrow> EventHash \<Rightarrow> ('m hot_path_scheme, bool) state" find_relay
  by unfold_locales (rule run_relay_already_recorded)

text \<open>
  A row of \<open>relay_logs\<close> is never removed, and the event data it was inserted with never changes.
\<close>

definition same_event :: "relay_log \<Rightarrow> relay_log \<Rightarrow> bool" where
  "same_event r r' \<longleftrightarrow> rl_source_event_hash r' = rl_source_event_hash r \<and>
     rl_source_chain_id r' = rl_source_chain_id r \<and> rl_dest_chain_id r' = rl_dest_chain_id r \<and>
     rl_sender r' = rl_sender r \<and> rl_recipient r' = rl_recipient r \<and> rl_amount_wei r' = rl_amount_wei r"

definition relays_kept :: "'m hot_path_scheme \<Rightarrow> 'm hot_path_scheme \<Rightarrow> bool" where
  "relays_kept s t \<longleftrightarrow> (\<forall>h r. find_relay s h = Some r \<longrightarrow>
     (\<exists>r'. find_relay t h = Some r' \<and> same_event r r'))"

lemma relays_keptI: "relay_logs s = relay_logs t \<Longrightarrow> relays_kept s t"
  by (simp add: relays_kept_def find_relay_def same_event_def)

interpretation relay_rows: step_preorder "relays_kept :: 'm hot_path_scheme \<Rightarrow> _"
proof unfold_locales
  fix s t u :: "'m hot_path_scheme"
  show "relays_kept s s" by (simp add: relays_keptI)
  assume st: "relays_kept s t" and tu: "relays_kept t u"
  have tr: "same_event a c" if "same_event a b" "same_event b c" for a b c
    using that by (simp add: same_event_def)
  show "relays_kept s u"
    unfolding relays_kept_def
  proof (intro allI impI)
    fix h r assume "find_relay s h = Some r"
    then obtain r1 where r1: "find_relay t h = Some r1" "same_event r r1"
      using st unfolding relays_kept_def by blast
    then obtain r2 where "find_relay u h = Some r2" "same_event r1 r2"
      using tu unfolding relays_kept_def by blast
    then show "\<exists>r'. find_relay u h = Some r' \<and> same_event r r'" using r1 tr by blast
  qed
qed

lemma relays_kept_insert:
  "relays_kept s (s\<lparr>relay_logs := insert_row rl_source_event_hash r (relay_logs s)\<rparr>)"
  by (auto simp: relays_kept_def find_relay_def find_row_insert_row same_event_def)

lemma relays_kept_update:
  assumes "\<And>r. same_event r (f r)"
  shows "relays_kept s (s\<lparr>relay_logs := update_rows rl_source_event_hash h f (relay_logs s)\<rparr>)"
proof -
  have "rl_source_event_hash (f r) = rl_source_event_hash r" for r
    using assms [of r] by (simp add: same_event_def)
  then show ?thesis using assms
    by (auto simp: relays_kept_def find_relay_def find_row_update_rows same_event_def)
qed

lemma db_kept: "step_rel relays_kept (db E)"
  by (simp add: step_rel_def run_db relays_keptI)

lemma relay_repo_kept:
  "step_rel relays_kept (relay_already_recorded E h)"
  "step_rel relays_kept (insert_relay_log E e tx st)"
  "step_rel relays_kept (update_relay_log E h t st)"
  "step_rel relays_kept (update_relay_log_failed E h)"
  unfolding relay_already_recorded_def insert_relay_log_def update_relay_log_def
    update_relay_log_failed_def
  by (intro relay_rows.rules db_kept step_rel_modify relays_kept_insert relays_kept_update;
      simp add: same_event_def)+

lemma relays_kept_signer:
  fixes m :: "('m hot_path_scheme, 'a) state"
  assumes "keeps signer.more m"
  shows "step_rel relays_kept m"
  by (rule relay_rows.from_keeps [OF relays_keptI keeps_beyond_signer [OF beyond_signer_hot_path(1) assms]])

lemma relay_approved_kept: "step_rel relays_kept (relay_approved E u b e)"
  unfolding relay_approved_def
  by (intro relay_rows.rules relay_repo_kept relays_kept_signer submit_release_keeps)

lemma relay_decided_kept: "step_rel relays_kept (relay_decided E u b e act d)"
  unfolding relay_decided_def by (simp add: relay_repo_kept relay_approved_kept split: RelayDecision.split)

lemma relay_event_kept: "step_rel relays_kept (relay_event E cfg e)"
  unfolding relay_event_def relay_unrecorded_def
  by (intro relay_rows.rules relay_repo_kept relay_decided_kept relays_kept_signer keeps_signer_more)

section \<open>The running module\<close>

text \<open>
  The steps of the background tasks and of the handler: a round of the route receiver loop, one
  chain of an event polling round, a spawned relay task, a status query.
\<close>

inductive hot_step :: "env \<Rightarrow> Config \<Rightarrow> hot_path \<Rightarrow> hot_path \<Rightarrow> bool" for E cfg where
  route: "run_state (route_round E cfg False) s = (r, s') \<Longrightarrow> hot_step E cfg s s'"
| poll: "entry \<in> set (chain_entries (rpc_urls cfg) (contract_addresses cfg)) \<Longrightarrow>
    run_state (poll_events_chain E entry) s = (r, s') \<Longrightarrow> hot_step E cfg s s'"
| relay: "spawned s = xs @ e # ys \<Longrightarrow>
    run_state (relay_event E cfg e) (s\<lparr>spawned := xs @ ys\<rparr>) = (r, s') \<Longrightarrow> hot_step E cfg s s'"
| query: "run_state (get_relay_status E h) s = (r, s') \<Longrightarrow> hot_step E cfg s s'"

inductive_cases hot_stepE: "hot_step E cfg s s'"

lemma relay_logs_beyond: "router.more s = router.more t \<Longrightarrow> relay_logs s = relay_logs t"
  by (cases s, cases t) simp

lemma relay_logs_route: "keeps relay_logs (route_round E cfg clamp)"
  using route_round_keeps unfolding keeps_def by (blast intro: relay_logs_beyond)

lemma beyond_sys_relay_logs: "beyond_sys (relay_logs :: 'm hot_path_scheme \<Rightarrow> _)"
  unfolding beyond_sys_def by (intro allI impI, case_tac s, case_tac t, simp)

lemma poll_events_chain_keeps:
  "keeps relay_logs (poll_events_chain E entry)" "keeps decommissioned_chains (poll_events_chain E entry)"
  unfolding poll_events_chain_def Let_def
  by (intro keeps keeps_modify fetch_keeps [THEN keeps_beyond_sys [OF beyond_sys_relay_logs]]
      fetch_keeps [THEN keeps_beyond_sys [OF beyond_sys_router(1)]]; simp)+

lemma poll_events_chain_emits: "emits Q 0 (poll_events_chain E entry)"
  unfolding poll_events_chain_def Let_def
  by (auto intro!: emits_then emits_case emits emits_modify)

lemma hot_step_kept: "hot_step E cfg s t \<Longrightarrow> relays_kept s t"
proof (induction rule: hot_step.induct)
  case (route s r s')
  then show ?case using keepsD [OF relay_logs_route route] by (simp add: relays_keptI)
next
  case (poll entry s r s')
  then show ?case using keepsD [OF poll_events_chain_keeps(1) poll(2)] by (simp add: relays_keptI)
next
  case (relay s xs e ys r s')
  have "relays_kept s (s\<lparr>spawned := xs @ ys\<rparr>)" by (simp add: relays_keptI)
  with step_relD [OF relay_event_kept relay(2)] show ?case by (rule relay_rows.trans [rotated])
next
  case (query h s r s')
  then show ?case
    by (auto simp: get_relay_status_def relay_repo_status_def run_db intro!: relays_keptI)
qed

text \<open>
  At most once: when an event's row exists, then in every later state of the module, after any
  interleaving of polling rounds, route receiver rounds, status queries and other relay tasks, a
  task for an event with that source event hash makes one database query and nothing else: no
  request to any chain, no change of any row. (The database is reachable throughout.)
\<close>

theorem relay_at_most_once:
  assumes "(hot_step E cfg)\<^sup>*\<^sup>* s t" "find_relay s (he_source_event_hash e) \<noteq> None"
    "\<forall>n. db_up E n"
  shows "run_state (relay_event E cfg e) t = ((), tick_on E 0 t)"
proof -
  have "relays_kept s t" using assms(1) hot_step_kept by (rule relay_rows.reachable)
  then have "find_relay t (he_source_event_hash e) \<noteq> None"
    using assms(2) unfolding relays_kept_def by force
  then show ?thesis unfolding relay_event_def using assms(3) by (intro relay_once.recorded_noop) auto
qed

section \<open>Decommissioned chains\<close>

lemma relay_event_keeps_decommissioned: "keeps decommissioned_chains (relay_event E cfg e)"
proof -
  note signer = keeps_beyond_signer [OF beyond_signer_hot_path(2)]
  show ?thesis
    unfolding relay_event_def relay_unrecorded_def relay_decided_def relay_approved_def
    by (intro keeps relay_repo_keeps relay_repo_keeps(2) [THEN signer] submit_release_keeps [THEN signer]
        fetch_keeps [THEN keeps_beyond_sys [OF beyond_sys_router(1)]])
      (auto intro!: keeps relay_repo_keeps submit_release_keeps [THEN signer] split: RelayDecision.split)
qed

definition release_outside :: "env \<Rightarrow> ChainId set \<Rightarrow> string \<times> json \<Rightarrow> bool" where
  "release_outside E D c \<longleftrightarrow>
     (\<exists>e rpc bank key. he_dest_chain_id e \<notin> D \<and> release_of E rpc bank key e c)"

definition avoids :: "env \<Rightarrow> ChainId set \<Rightarrow> 'm hot_path_scheme \<Rightarrow> 'm hot_path_scheme \<Rightarrow> bool" where
  "avoids E D s t \<longleftrightarrow> (D \<subseteq> decommissioned_chains s \<longrightarrow>
     D \<subseteq> decommissioned_chains t \<and>
     (\<exists>new. calls t = calls s @ new \<and> (\<forall>c\<in>set new. is_send c \<longrightarrow> release_outside E D c)))"

interpretation avoiding: step_preorder "avoids E D :: 'm hot_path_scheme \<Rightarrow> _"
proof unfold_locales
  fix s t u :: "'m hot_path_scheme"
  show "avoids E D s s" by (simp add: avoids_def)
  assume st: "avoids E D s t" and tu: "avoids E D t u"
  show "avoids E D s u"
    unfolding avoids_def
  proof
    assume "D \<subseteq> decommissioned_chains s"
    with st obtain v where v: "D \<subseteq> decommissioned_chains t" "calls t = calls s @ v"
      "\<forall>c\<in>set v. is_send c \<longrightarrow> release_outside E D c" unfolding avoids_def by blast
    with tu obtain w where "D \<subseteq> decommissioned_chains u" "calls u = calls t @ w"
      "\<forall>c\<in>set w. is_send c \<longrightarrow> release_outside E D c" unfolding avoids_def by blast
    with v show "D \<subseteq> decommissioned_chains u \<and> (\<exists>new. calls u = calls s @ new \<and>
        (\<forall>c\<in>set new. is_send c \<longrightarrow> release_outside E D c))"
      by (intro conjI exI [of _ "v @ w"]) auto
  qed
qed

lemma avoids_quiet:
  "decommissioned_chains s \<subseteq> decommissioned_chains t \<Longrightarrow> adds s 0 Q t \<Longrightarrow> avoids E D s t"
  unfolding avoids_def adds_def by (fastforce simp: filter_empty_conv)

lemma relay_event_avoids:
  assumes "run_state (relay_event E cfg e) s = (r, s')"
  shows "avoids E D s s'"
proof -
  have dec: "decommissioned_chains s' = decommissioned_chains s"
    using relay_event_keeps_decommissioned assms by (rule keepsD)
  have "adds s 3 (\<lambda>c. relay_allowed E cfg e (tick_on E 0 s) c \<and>
       \<not> (db_up E (tick s) \<and> find_relay s (he_source_event_hash e) \<noteq> None)) s'"
    using relay_event_adds [of s E cfg e] assms by simp
  moreover have "release_outside E D c" if "D \<subseteq> decommissioned_chains s"
    "relay_allowed E cfg e (tick_on E 0 s) c" for c
  proof -
    from that(2) obtain rpc bank key where "release_of E rpc bank key e c"
      unfolding relay_allowed_def by blast
    moreover from that(2) have "is_chain_active s (he_dest_chain_id e)"
      by (simp add: relay_allowed_def)
    then have "he_dest_chain_id e \<notin> D" using that(1) by (auto simp: is_chain_active_def)
    ultimately show ?thesis unfolding release_outside_def by blast
  qed
  ultimately show ?thesis unfolding avoids_def adds_def dec by auto
qed

lemma hot_step_avoids: "hot_step E cfg s t \<Longrightarrow> avoids E D s t"
proof (induction rule: hot_step.induct)
  case (route s r s')
  show ?case
    using step_relD [OF route_round_grows route] emits_adds [OF route_round_emits route]
    by (rule avoids_quiet)
next
  case (poll entry s r s')
  then show ?case
    using keepsD [OF poll_events_chain_keeps(2) poll(2)] emits_adds [OF poll_events_chain_emits poll(2)]
    by (intro avoids_quiet) auto
next
  case (relay s xs e ys r s')
  have "avoids E D s (s\<lparr>spawned := xs @ ys\<rparr>)" by (simp add: avoids_def)
  with relay_event_avoids [OF relay(2)] show ?case by (rule avoiding.trans [rotated])
next
  case (query h s r s')
  then have "s' = tick_on E 0 s" by (auto simp: get_relay_status_def relay_repo_status_def run_db)
  then show ?case by (simp add: avoids_def tick_on_def)
qed

text \<open>
  With relay tasks as whole steps of one process: a chain the module has seen finalised stays so, and
  every transaction sent afterwards is a release to another chain, whatever activation events arrive
  later and whatever is still queued. Theory \<open>RelayTasks\<close> has the statement for interleaved tasks.
\<close>

theorem no_release_to_decommissioned:
  assumes "(hot_step E cfg)\<^sup>*\<^sup>* s t" "is_chain_decommissioned s c"
  shows "is_chain_decommissioned t c \<and> \<not> is_chain_active t c \<and>
    (\<exists>new. calls t = calls s @ new \<and> (\<forall>x\<in>set new. is_send x \<longrightarrow> release_outside E {c} x))"
proof -
  have "avoids E {c} s t" using assms(1) hot_step_avoids by (rule avoiding.reachable)
  then show ?thesis using assms(2)
    by (simp add: avoids_def is_chain_decommissioned_def is_chain_active_def)
qed

section \<open>Life cycle of a row\<close>

lemma find_relay_insert:
  assumes "\<forall>n. db_up E n" "find_relay s (he_source_event_hash e) = None"
  shows "\<exists>now. \<forall>h. find_relay (snd (run_state (insert_relay_log E e tx st) s)) h =
    (if h = he_source_event_hash e then Some (relay_row e tx st now) else find_relay s h)"
  using assms
  by (auto simp: insert_relay_log_def run_db find_relay_def find_row_insert_row relay_row_def
      split: option.split)

lemma find_relay_update:
  assumes "\<forall>n. db_up E n"
  shows "\<exists>now. \<forall>k. find_relay (snd (run_state (update_relay_log E h tx st) s)) k =
      (if k = h then map_option (\<lambda>r. r\<lparr>rl_dest_tx_hash := Some tx, rl_status := relay_status_str st,
         rl_updated_at := now\<rparr>) (find_relay s k) else find_relay s k)"
    "\<exists>now. \<forall>k. find_relay (snd (run_state (update_relay_log_failed E h) s)) k =
      (if k = h then map_option (\<lambda>r. r\<lparr>rl_status := ''failed'', rl_updated_at := now\<rparr>) (find_relay s k)
       else find_relay s k)"
  using assms
  by (auto simp: update_relay_log_def update_relay_log_failed_def run_db find_relay_def
      find_row_update_rows)

text \<open>The state of an event's row when its task has ended, and that no other row changed.\<close>

definition row_final :: "HotPathEvent \<Rightarrow> bool \<Rightarrow> u256 \<Rightarrow> relay_log \<Rightarrow> bool" where
  "row_final e act depth r \<longleftrightarrow> same_event (relay_row e None RelayPending 0) r \<and>
     (if \<not> act then rl_status r = ''rejected_inactive_chain'' \<and> rl_dest_tx_hash r = None
      else if depth < he_amount e then rl_status r = ''rejected_insufficient_depth'' \<and> rl_dest_tx_hash r = None
      else rl_status r = ''completed'' \<and> rl_dest_tx_hash r \<noteq> None \<or>
           rl_status r = ''failed'' \<and> rl_dest_tx_hash r = None)"

definition ends_with :: "'m hot_path_scheme \<Rightarrow> EventHash \<Rightarrow> (relay_log \<Rightarrow> bool) \<Rightarrow> 'm hot_path_scheme \<Rightarrow> bool" where
  "ends_with s h F s' \<longleftrightarrow> (\<exists>r. find_relay s' h = Some r \<and> F r) \<and>
     (\<forall>k. k \<noteq> h \<longrightarrow> find_relay s' k = find_relay s k)"

lemma relay_approved_ends:
  assumes up: "\<forall>n. db_up E n" and new: "find_relay s (he_source_event_hash e) = None"
    and ok: "he_amount e \<le> depth"
  shows "ends_with s (he_source_event_hash e) (row_final e True depth) (snd (run_state (relay_approved E u b e) s))"
proof -
  let ?h = "he_source_event_hash e"
  let ?s1 = "snd (run_state (insert_relay_log E e None RelayPending) s)"
  obtain r s2 where r: "run_state (submit_release_with_retry E u b e) ?s1 = (r, s2)" by fastforce
  obtain now where s1: "\<And>k. find_relay ?s1 k = (if k = ?h then Some (relay_row e None RelayPending now)
      else find_relay s k)" using find_relay_insert [OF up new] by blast
  have "relay_logs s2 = relay_logs ?s1"
    using keeps_beyond_signer [OF beyond_signer_hot_path(1) submit_release_keeps] r by (rule keepsD)
  then have s2: "find_relay s2 k = (if k = ?h then Some (relay_row e None RelayPending now)
      else find_relay s k)" for k using s1 by (simp add: find_relay_def)
  show ?thesis
  proof (cases r)
    case (Inl err)
    then show ?thesis using find_relay_update(2) [OF up, of ?h s2] ok
      by (auto simp: relay_approved_def split_beta r s2 ends_with_def row_final_def same_event_def relay_row_def)
  next
    case (Inr tx)
    then show ?thesis using find_relay_update(1) [OF up, of ?h tx RelayCompleted s2] ok
      by (auto simp: relay_approved_def split_beta r s2 ends_with_def row_final_def same_event_def relay_row_def)
  qed
qed

lemma rejection_ends:
  assumes "\<forall>n. db_up E n" "find_relay s (he_source_event_hash e) = None"
    "\<And>now. row_final e act depth (relay_row e None st now)"
  shows "ends_with s (he_source_event_hash e) (row_final e act depth)
      (snd (run_state (insert_relay_log E e None st) s))"
  using find_relay_insert [OF assms(1,2), of None st] assms(3) by (auto simp: ends_with_def)

lemma relay_decided_ends:
  assumes "\<forall>n. db_up E n" "find_relay s (he_source_event_hash e) = None"
  shows "ends_with s (he_source_event_hash e) (row_final e act depth)
    (snd (run_state (relay_decided E u b e act depth) s))"
proof (cases "evaluate_relay_eligibility act depth (he_amount e)")
  case Approved
  then have "act" "he_amount e \<le> depth" by (simp_all add: evaluate_relay_eligibility_Approved_iff)
  with Approved relay_approved_ends [OF assms] show ?thesis by (simp add: relay_decided_def)
next
  case RejectedInactiveChain
  then show ?thesis using rejection_ends [OF assms, of act depth RelayRejectedInactiveChain]
    by (simp add: relay_decided_def evaluate_relay_eligibility_def row_final_def same_event_def
        relay_row_def split: if_splits)
next
  case RejectedInsufficientDepth
  then show ?thesis using rejection_ends [OF assms, of act depth RelayRejectedInsufficientDepth]
    by (simp add: relay_decided_def evaluate_relay_eligibility_def row_final_def same_event_def
        relay_row_def not_le split: if_splits)
qed

text \<open>
  Every run of a relay task on a fresh event ends in a final row (the database being
  reachable): with the destination configured and either inactive or its pool depth readable, the
  event's row exists afterwards with the event's own data, no other row has changed, and its status
  is \<open>rejected_inactive_chain\<close> when the chain is not active, \<open>rejected_insufficient_depth\<close> when the
  depth does not cover the amount, and otherwise \<open>completed\<close> with the destination transaction or
  \<open>failed\<close>; it is never left \<open>pending\<close>.
\<close>

theorem relay_event_final:
  assumes "\<forall>n. db_up E n" "find_relay s (he_source_event_hash e) = None"
    "map_of (rpc_urls cfg) (he_dest_chain_id e) = Some u"
    "map_of (contract_addresses cfg) (he_dest_chain_id e) = Some b"
    "is_chain_active s (he_dest_chain_id e) \<longrightarrow> depth_reported E (tick_on E 0 s) u b = Some depth"
  shows "ends_with s (he_source_event_hash e) (row_final e (is_chain_active s (he_dest_chain_id e)) depth)
    (snd (run_state (relay_event E cfg e) s))"
proof -
  let ?sel = "selector E ''poolDepth()''" and ?s1 = "tick_on E 0 s"
  let ?s2 = "snd (run_state (fetch_pool_depth E u b ?sel) ?s1)"
  have run: "run_state (relay_event E cfg e) s = run_state (relay_unrecorded E cfg e) ?s1"
    unfolding relay_event_def by (rule relay_once.otherwise_runs) (simp add: assms(2))
  show ?thesis
  proof (cases "is_chain_active s (he_dest_chain_id e)")
    case True
    have "relay_logs ?s2 = relay_logs ?s1"
      by (rule keepsD [OF keeps_beyond_sys [OF beyond_sys_relay_logs fetch_keeps(7)] surjective_pairing])
    then have find2: "find_relay ?s2 k = find_relay s k" for k
      by (simp add: find_relay_def)
    have "ends_with ?s2 (he_source_event_hash e) (row_final e True depth)
        (snd (run_state (relay_decided E u b e True depth) ?s2))"
      by (rule relay_decided_ends [OF assms(1)]) (simp add: find2 assms(2))
    then show ?thesis using True assms(3-5) find2
      by (simp add: run relay_unrecorded_def run_fetch_pool_depth split_beta ends_with_def)
  next
    case False
    have "ends_with ?s1 (he_source_event_hash e) (row_final e False 0)
        (snd (run_state (relay_decided E u b e False 0) ?s1))"
      by (rule relay_decided_ends [OF assms(1)]) (simp add: assms(2))
    then show ?thesis using False assms(3,4)
      by (simp add: run relay_unrecorded_def ends_with_def row_final_def)
  qed
qed

section \<open>Polling\<close>

text \<open>
  A log query that fails is not repeated: when the node reports its head but the log query of
  the round fails, the round spawns nothing and still moves the chain's cursor past the head, so
  the events of those blocks are not looked for again by the next round.
\<close>

theorem failed_log_query_skips_blocks:
  assumes "fst (run_state (fetch_block_number E u) s) = Some to_block"
    "\<And>body. http_post E (Suc (tick s)) u body = Inl err"
  shows "spawned (snd (run_state (poll_events_chain E (c, u, b)) s)) = spawned s \<and>
    hp_last_block (snd (run_state (poll_events_chain E (c, u, b)) s)) c = Some (to_block + 1)"
proof -
  have "snd (run_state (fetch_block_number E u) s) =
      (tick_on E 0 s)\<lparr>calls := calls s @ [(u, rpc_body ''eth_blockNumber'' [])]\<rparr>"
    by (simp add: fetch_block_number_def run_post)
  then show ?thesis using assms
    by (simp add: poll_events_chain_def Let_def split_beta fetch_logs_def run_post tick_on_def)
qed

section \<open>Reading an event\<close>

text \<open>
  The relayer reads back from a \<open>HotPathInitiated\<close> log exactly the event the Bank emitted, for
  every sender, recipient, amount, destination below \<open>2 ^ 64\<close>, event hash and fee; the row key is
  the hash of the transaction, so two events of one transaction get the same key.
\<close>

theorem parse_hot_path_event_abi:
  assumes "length sender = 20" "length to = 20" "length event_hash = 32"
  shows "parse_hot_path_event (initiated_log topic tx sender to amount dest event_hash fee) c =
    Some \<lparr>he_source_chain_id = c, he_source_event_hash = tx, he_sender = hex_0x sender,
      he_recipient = to, he_amount = amount, he_dest_chain_id = dest, he_event_id = event_hash\<rparr>"
  using assms
  by (simp add: parse_hot_path_event_def initiated_log_def slice_skip)

theorem parse_hot_path_event_abi_witness:
  "map_option he_amount (parse_hot_path_event (initiated_log ''t'' ''0xaa'' (replicate 20 1)
     (replicate 20 2) 500 10 (replicate 32 7) 0) 1) = Some 500"
  using parse_hot_path_event_abi [of "replicate 20 1" "replicate 20 2" "replicate 32 7"] by simp

section \<open>Concrete runs\<close>

definition sample_event :: HotPathEvent where
  "sample_event =
     \<lparr>he_source_chain_id = 1, he_source_event_hash = ''0xaa'', he_sender = ''0x01'',
      he_recipient = replicate 20 3, he_amount = 500, he_dest_chain_id = 2, he_event_id = replicate 32 7\<rparr>"

definition sample_answer :: "string \<Rightarrow> json" where
  "sample_answer m =
     (if m = ''eth_call'' then JStr (hex_0x (u256_to_be_bytes 1000))
      else if m = ''eth_getTransactionReceipt'' then JObj [(''status'', JStr ''0x1'')]
      else JStr ''0x10'')"

definition hot_start :: "ChainId set \<Rightarrow> relay_log list \<Rightarrow> hot_path" where
  "hot_start dec logs =
     \<lparr>now_ms = 0, tick = 0, calls = [], nonce_cache = Map.empty, active_chains = {1, 2},
      decommissioned_chains = dec, relayer_key = Some [1], relayer_address = Some (replicate 20 5),
      route_last_block = 0, relay_logs = logs, hp_last_block = Map.empty, spawned = []\<rparr>"

lemma hot_start_query:
  "(hot_step (sample_env a) cfg)\<^sup>*\<^sup>* (hot_start dec logs) (tick_on (sample_env a) 0 (hot_start dec logs))"
  by (intro r_into_rtranclp hot_step.query [where h = "[]"])
    (simp add: get_relay_status_def relay_repo_status_def run_db)

theorem relay_at_most_once_witness:
  "run_state (relay_event (sample_env sample_answer) sample_config sample_event)
      (tick_on (sample_env sample_answer) 0 (hot_start {} [relay_row sample_event None RelayFailed 0])) =
   ((), tick_on (sample_env sample_answer) 0
      (tick_on (sample_env sample_answer) 0 (hot_start {} [relay_row sample_event None RelayFailed 0])))"
  by (rule relay_at_most_once [OF hot_start_query])
    (simp_all add: hot_start_def find_relay_def find_row_def relay_row_def)

theorem no_release_to_decommissioned_witness:
  "is_chain_decommissioned (tick_on (sample_env sample_answer) 0 (hot_start {2} [])) 2"
  by (rule no_release_to_decommissioned [OF hot_start_query, THEN conjunct1])
    (simp add: hot_start_def is_chain_decommissioned_def)

lemma sample_depth: "depth_reported (sample_env sample_answer) s u b = Some 1000"
  by (simp add: depth_reported_def sample_env_def sample_answer_def eth_call_body_def rpc_body_def
      method_of_def word_result_def result_str_def jindex_def)

theorem relay_event_final_witness:
  "ends_with (hot_start {} []) (he_source_event_hash sample_event)
     (row_final sample_event (is_chain_active (hot_start {} []) (he_dest_chain_id sample_event)) 1000)
     (snd (run_state (relay_event (sample_env sample_answer) sample_config sample_event) (hot_start {} [])))"
proof (rule relay_event_final)
  show "is_chain_active (hot_start {} []) (he_dest_chain_id sample_event) \<longrightarrow>
      depth_reported (sample_env sample_answer) (tick_on (sample_env sample_answer) 0 (hot_start {} []))
        ''b'' (hex_0x (replicate 20 2)) = Some 1000" by (simp add: sample_depth)
qed (simp_all add: hot_start_def find_relay_def find_row_def sample_config_def sample_event_def)

definition release_answer :: "string \<Rightarrow> json" where
  "release_answer m = (if m = ''eth_call'' then JStr (hex_0x (u256_to_be_bytes 1000)) else JStr ''0x10'')"

theorem eligible_event_released_witness:
  "sent (hot_start {} []) (release_of (sample_env release_answer) ''b'' (hex_0x (replicate 20 2)) [1] sample_event)
     (snd (run_state (relay_event (sample_env release_answer) sample_config sample_event) (hot_start {} [])))"
proof (rule eligible_event_released)
  show "depth_reported (sample_env release_answer) (tick_on (sample_env release_answer) 0 (hot_start {} []))
      ''b'' (hex_0x (replicate 20 2)) = Some 1000"
    by (simp add: depth_reported_def sample_env_def release_answer_def eth_call_body_def rpc_body_def
        method_of_def word_result_def result_str_def jindex_def)
  show "can_submit (sample_env release_answer) ''b'' (hex_0x (replicate 20 2)) [1] (replicate 20 5)"
    by (simp add: can_submit_def address_bytes_def sample_env_def release_answer_def quantity_def
        jindex_def rpc_body_def method_of_def parse_0x10 del: trim_0x.simps)
qed (simp_all add: hot_start_def find_relay_def find_row_def sample_config_def sample_event_def
    is_chain_active_def)

theorem failed_log_query_skips_blocks_witness:
  "hp_last_block (snd (run_state (poll_events_chain
     ((sample_env sample_answer)\<lparr>http_post := (\<lambda>n u b. if n = 0 then Inr (JObj [(''result'', JStr ''0x10'')]) else Inl ''down'')\<rparr>)
     (1, ''a'', ''c'')) (hot_start {} []))) 1 = Some 17"
proof -
  let ?E = "(sample_env sample_answer)\<lparr>http_post := (\<lambda>n u b. if n = 0 then Inr (JObj [(''result'', JStr ''0x10'')]) else Inl ''down'')\<rparr>"
  have "fst (run_state (fetch_block_number ?E ''a'') (hot_start {} [])) = Some 16"
    by (simp add: fetch_block_number_def run_post hot_start_def result_str_def jindex_def parse_0x10
        del: trim_0x.simps)
  from failed_log_query_skips_blocks [OF this, of "''down''" 1 "''c''"] show ?thesis
    by (simp add: hot_start_def)
qed

end
