(* ===== verification/AccountQueries.thy ===== *)
theory AccountQueries
  imports AccountIndex HotPath "HOL-Library.Sublist"
begin

text \<open>
  The read side of the treasury service: the aggregated balance (\<open>account_balance.rs\<close>), the
  withdrawal routing (\<open>account_withdrawal_routing.rs\<close>), the activity feed (\<open>account_activity.rs\<close>), the
  pool depth snapshots (\<open>pool_manager.rs\<close>, \<open>db/pool_snapshot_repo.rs\<close>), the remaining handlers and
  start-up checks of \<open>server.rs\<close>. Each service keeps its own token address cache, so each is its own
  instance of the record.

  Balance and routing spawn one task per chain and await them in order. The tasks touch different keys
  of the caches and the world's answers are indexed by the request, so running the tasks one after
  another covers every interleaving of them.
\<close>

section \<open>State\<close>

record CachedBalance =
  bc_balance_wei :: string
  bc_degraded :: bool
  bc_fetched_at :: nat

record pool_snapshot =
  sn_chain_id :: ChainId
  sn_depth_wei :: string
  sn_recorded_at :: nat

record queries = accounts +
  balance_cache :: "string \<rightharpoonup> CachedBalance"
  query_relays :: "relay_log list"
  pool_snapshots :: "pool_snapshot list"

text \<open>Awaiting a list of tasks and keeping the answers that are there.\<close>

fun gather :: "('a \<Rightarrow> ('s, 'b option) state) \<Rightarrow> 'a list \<Rightarrow> ('s, 'b list) state" where
  "gather f [] = ret []"
| "gather f (x # xs) = do {
     y \<leftarrow> f x;
     ys \<leftarrow> gather f xs;
     ret (case y of None \<Rightarrow> ys | Some z \<Rightarrow> z # ys)
   }"

section \<open>The balance (account\_balance.rs)\<close>

definition BALANCE_CACHE_TTL :: nat where
  "BALANCE_CACHE_TTL = 4000"

definition read_chain_balance ::
  "env \<Rightarrow> ChainId \<Rightarrow> string \<Rightarrow> string \<Rightarrow> string \<Rightarrow> ('m accounts_scheme, ChainBalanceContribution option) state" where
  "read_chain_balance E chain_id rpc_url bank_addr user_address = do {
     t \<leftarrow> resolve_sync_usd E chain_id rpc_url bank_addr;
     (case t of
        None \<Rightarrow> ret None
      | Some token_addr \<Rightarrow> do {
          b \<leftarrow> fetch_balance_of E rpc_url token_addr user_address (selector E ''balanceOf(address)'');
          (case b of
             Some live \<Rightarrow> ret (Some \<lparr>cb_amount = live, cb_used_fallback = False\<rparr>)
           | None \<Rightarrow> do {
               indexed \<leftarrow> indexed_balance_on_chain E chain_id user_address;
               ret (Some \<lparr>cb_amount = (case u256_from_str E indexed of Some v \<Rightarrow> v | None \<Rightarrow> 0),
                          cb_used_fallback = True\<rparr>)
             })
        })
   }"

definition bank_entries :: "Config \<Rightarrow> (ChainId \<times> string \<times> string) list" where
  "bank_entries cfg = chain_entries (rpc_urls cfg) (contract_addresses cfg)"

definition fetch_aggregated_balance :: "env \<Rightarrow> Config \<Rightarrow> string \<Rightarrow> ('m accounts_scheme, string \<times> bool) state" where
  "fetch_aggregated_balance E cfg address = do {
     chains \<leftarrow> gets (\<lambda>s. filter (\<lambda>(c, _, _). \<not> is_chain_decommissioned s c) (bank_entries cfg));
     contributions \<leftarrow> gather (\<lambda>(c, rpc_url, bank_addr). read_chain_balance E c rpc_url bank_addr address) chains;
     ret (case aggregate_balances contributions of (tot, degraded) \<Rightarrow> (show_nat (unat tot), degraded))
   }"

definition refresh_balance :: "env \<Rightarrow> Config \<Rightarrow> string \<Rightarrow> ('m queries_scheme, string \<times> bool) state" where
  "refresh_balance E cfg address = do {
     r \<leftarrow> fetch_aggregated_balance E cfg address;
     modify (\<lambda>s. s\<lparr>balance_cache := (balance_cache s)(to_lowercase address \<mapsto>
       \<lparr>bc_balance_wei = fst r, bc_degraded = snd r, bc_fetched_at = now_ms s\<rparr>)\<rparr>);
     ret r
   }"

definition get_balance :: "env \<Rightarrow> Config \<Rightarrow> string \<Rightarrow> ('m queries_scheme, string \<times> bool) state" where
  "get_balance E cfg address = do {
     hit \<leftarrow> gets (\<lambda>s. balance_cache s (to_lowercase address));
     now \<leftarrow> gets now_ms;
     (case hit of
        Some entry \<Rightarrow>
          if now - bc_fetched_at entry < BALANCE_CACHE_TTL then ret (bc_balance_wei entry, bc_degraded entry)
          else refresh_balance E cfg address
      | None \<Rightarrow> refresh_balance E cfg address)
   }"

section \<open>Withdrawal routing (account\_withdrawal\_routing.rs)\<close>

definition reserve_depth_sel :: "env \<Rightarrow> byte list" where
  "reserve_depth_sel E = selector E ''reserveDepth()''"

definition read_chain_withdrawal_input ::
  "env \<Rightarrow> ChainId \<Rightarrow> string \<Rightarrow> string \<Rightarrow> string \<Rightarrow> ('m accounts_scheme, ChainWithdrawalInput option) state" where
  "read_chain_withdrawal_input E chain_id rpc_url bank_addr user_address = do {
     decommissioned \<leftarrow> gets (\<lambda>s. is_chain_decommissioned s chain_id);
     active \<leftarrow> gets (\<lambda>s. is_chain_active s chain_id);
     b \<leftarrow> read_chain_balance E chain_id rpc_url bank_addr user_address;
     (case b of
        None \<Rightarrow> ret None
      | Some balance \<Rightarrow> do {
          d \<leftarrow> fetch_reserve_depth E rpc_url bank_addr (reserve_depth_sel E);
          ret (Some \<lparr>wi_chain_id = chain_id, wi_balance_wei = cb_amount balance,
            wi_reserve_depth_wei = (case d of Some v \<Rightarrow> v | None \<Rightarrow> 0), wi_active = active,
            wi_decommissioned = decommissioned\<rparr>)
        })
   }"

definition gather_chain_inputs ::
  "env \<Rightarrow> Config \<Rightarrow> string \<Rightarrow> ('m accounts_scheme, ChainWithdrawalInput list) state" where
  "gather_chain_inputs E cfg address =
     gather (\<lambda>(c, rpc_url, bank_addr). read_chain_withdrawal_input E c rpc_url bank_addr address) (bank_entries cfg)"

record WithdrawalRoutingEntry =
  wr_chain_id :: u64
  wr_withdrawable_wei :: string
  wr_available :: bool
  wr_reason :: string
  wr_balance_wei :: string

definition routing_entry :: "ChainWithdrawalEntry \<Rightarrow> WithdrawalRoutingEntry" where
  "routing_entry e =
     \<lparr>wr_chain_id = we_chain_id e, wr_withdrawable_wei = show_nat (unat (we_withdrawable_wei e)),
      wr_available = we_available e, wr_reason = (case we_reason e of Some r \<Rightarrow> r | None \<Rightarrow> []),
      wr_balance_wei = show_nat (unat (we_balance_wei e))\<rparr>"

definition get_withdrawal_routing ::
  "env \<Rightarrow> Config \<Rightarrow> string \<Rightarrow> ('m accounts_scheme, WithdrawalRoutingEntry list) state" where
  "get_withdrawal_routing E cfg address = do {
     inputs \<leftarrow> gather_chain_inputs E cfg address;
     ret (map routing_entry (compute_withdrawal_routing inputs))
   }"

section \<open>The activity feed (account\_activity.rs)\<close>

definition query_relay_status :: "env \<Rightarrow> string \<Rightarrow> ('m queries_scheme, string option) state" where
  "query_relay_status E source_event_hash = do {
     r \<leftarrow> gets (\<lambda>s. find_row rl_source_event_hash source_event_hash (query_relays s));
     up \<leftarrow> db E;
     ret (if up then map_option rl_status r else None)
   }"

definition activity_entry :: "env \<Rightarrow> string \<Rightarrow> AccountEventRow \<Rightarrow> ('m queries_scheme, ActivityView option) state" where
  "activity_entry E address row = do {
     relay_status \<leftarrow> (if ae_event_kind row = ''hot_path_initiated'' then query_relay_status E (ae_tx_hash row)
                      else ret None);
     ret (map_event_to_activity row address relay_status)
   }"

definition clamp_limit :: "u32 \<Rightarrow> nat" where
  "clamp_limit limit = max 1 (min 100 (unat limit))"

definition get_account_activity :: "env \<Rightarrow> string \<Rightarrow> u32 \<Rightarrow> ('m queries_scheme, ActivityView list) state" where
  "get_account_activity E address limit = do {
     rows \<leftarrow> list_activity_for_user E address (clamp_limit limit);
     gather (activity_entry E address) rows
   }"

section \<open>Pool depth snapshots (pool\_manager.rs, pool\_snapshot\_repo.rs)\<close>

definition record_snapshot :: "env \<Rightarrow> ChainId \<Rightarrow> u256 \<Rightarrow> ('m queries_scheme, unit) state" where
  "record_snapshot E chain_id depth = do {
     up \<leftarrow> db E;
     (if up then modify (\<lambda>s. s\<lparr>pool_snapshots := pool_snapshots s @
        [\<lparr>sn_chain_id = chain_id, sn_depth_wei = show_nat (unat depth), sn_recorded_at = now_ms s\<rparr>]\<rparr>)
      else ret ())
   }"

text \<open>\<open>ORDER BY recorded_at DESC LIMIT 1\<close>\<close>

definition latest_snapshot :: "ChainId \<Rightarrow> pool_snapshot list \<Rightarrow> pool_snapshot option" where
  "latest_snapshot chain_id rows =
     (let own = filter (\<lambda>r. sn_chain_id r = chain_id) rows
      in if own = [] then None else Some (last (sort_key sn_recorded_at own)))"

definition get_latest_depth :: "env \<Rightarrow> ChainId \<Rightarrow> ('m queries_scheme, string option) state" where
  "get_latest_depth E chain_id = do {
     r \<leftarrow> gets (\<lambda>s. latest_snapshot chain_id (pool_snapshots s));
     up \<leftarrow> db E;
     ret (if up then map_option sn_depth_wei r else None)
   }"

definition get_pool_depth :: "env \<Rightarrow> ChainId \<Rightarrow> ('m queries_scheme, Status + string) state" where
  "get_pool_depth E chain_id = do {
     d \<leftarrow> get_latest_depth E chain_id;
     ret (case d of Some depth_wei \<Rightarrow> Inr depth_wei | None \<Rightarrow> Inl (not_found ''no pool depth snapshot for that chain''))
   }"

definition snapshot_chain :: "env \<Rightarrow> ChainId \<times> string \<times> string \<Rightarrow> ('m queries_scheme, unit) state" where
  "snapshot_chain E entry = (case entry of (chain_id, rpc_url, bank_addr) \<Rightarrow> do {
     d \<leftarrow> fetch_pool_depth E rpc_url bank_addr (selector E ''poolDepth()'');
     (case d of Some depth \<Rightarrow> record_snapshot E chain_id depth | None \<Rightarrow> ret ())
   })"

definition snapshot_round :: "env \<Rightarrow> Config \<Rightarrow> ('m queries_scheme, unit) state" where
  "snapshot_round E cfg = for_each (snapshot_chain E) (bank_entries cfg)"

section \<open>Health (server.rs)\<close>

definition check_relayer_key :: "string option \<Rightarrow> bool" where
  "check_relayer_key contents =
     (case contents of
        None \<Rightarrow> False
      | Some c \<Rightarrow> (let hex = trim_0x (trim c) in length hex = 64 \<and> list_all is_hex_char hex))"

text \<open>\<open>success\<close>: whether a request was answered with a success status.\<close>

fun check_rpc_reachable :: "(nat \<Rightarrow> string \<Rightarrow> json \<Rightarrow> bool) \<Rightarrow> env \<Rightarrow> string list \<Rightarrow> ('m sys_scheme, bool) state" where
  "check_rpc_reachable success E [] = ret True"
| "check_rpc_reachable success E (url # urls) = do {
     n \<leftarrow> gets tick;
     _ \<leftarrow> post E url (rpc_body ''eth_blockNumber'' []);
     (if success n url (rpc_body ''eth_blockNumber'' []) then check_rpc_reachable success E urls else ret False)
   }"

definition rpc_reachable_at_startup :: "(nat \<Rightarrow> string \<Rightarrow> json \<Rightarrow> bool) \<Rightarrow> env \<Rightarrow> Config \<Rightarrow> ('m sys_scheme, bool) state" where
  "rpc_reachable_at_startup success E cfg =
     (if rpc_urls cfg = [] then ret False else check_rpc_reachable success E (map snd (rpc_urls cfg)))"

record HealthCheckResponse =
  hc_serving :: bool
  hc_db_connected :: bool
  hc_rpc_reachable :: bool
  hc_relayer_key_loaded :: bool

definition health_check :: "env \<Rightarrow> bool \<Rightarrow> bool \<Rightarrow> ('m sys_scheme, HealthCheckResponse) state" where
  "health_check E rpc_reachable relayer_key_loaded = do {
     db_connected \<leftarrow> db E;
     ret \<lparr>hc_serving = (db_connected \<and> rpc_reachable \<and> relayer_key_loaded), hc_db_connected = db_connected,
          hc_rpc_reachable = rpc_reachable, hc_relayer_key_loaded = relayer_key_loaded\<rparr>
   }"

section \<open>Lists of tasks\<close>

text \<open>
  One answer per task. The tasks have different keys, and a task leaves alone what another one sees
  (\<open>g\<close> at its key), so each answers from the first state.
\<close>

lemma gather_all2:
  assumes "\<And>x y. k x \<noteq> k y \<Longrightarrow> keeps (g (k y)) (f x)" "distinct (map k xs)" "run_state (gather f xs) s = (ys, t)"
  shows "\<exists>rs. ys = filter_map (\<lambda>r. r) rs \<and>
    list_all2 (\<lambda>x r. \<exists>u. g (k x) u = g (k x) s \<and> fst (run_state (f x) u) = r) xs rs"
  using assms(2,3)
proof (induction xs arbitrary: s ys t)
  case (Cons x xs)
  obtain y s1 where y: "run_state (f x) s = (y, s1)" by (rule prod.exhaust)
  obtain rest s2 where r: "run_state (gather f xs) s1 = (rest, s2)" by (rule prod.exhaust)
  have "distinct (map k xs)" using Cons.prems(1) by simp
  from Cons.IH [OF this r] obtain rs where rs: "rest = filter_map (\<lambda>r. r) rs"
    "list_all2 (\<lambda>x r. \<exists>u. g (k x) u = g (k x) s1 \<and> fst (run_state (f x) u) = r) xs rs" by blast
  have "g (k x') s1 = g (k x') s" if "x' \<in> set xs" for x'
    using assms(1) [of x x'] y Cons.prems(1) that by (auto dest: keepsD)
  with rs(2) have "list_all2 (\<lambda>x r. \<exists>u. g (k x) u = g (k x) s \<and> fst (run_state (f x) u) = r) xs rs"
    by (elim list.rel_mono_strong) simp
  moreover have "ys = filter_map (\<lambda>r. r) (y # rs)" using Cons.prems(2) y r rs(1) by (auto split: option.split)
  moreover have "\<exists>u. g (k x) u = g (k x) s \<and> fst (run_state (f x) u) = y" using y by (intro exI [of _ s]) simp
  ultimately show ?case by (intro exI [of _ "y # rs"] conjI list.rel_intros(2))
qed simp

lemma gather_keeps: "(\<And>x. keeps g (f x)) \<Longrightarrow> keeps g (gather f xs)"
  by (induction xs) (auto intro!: keeps)

lemma gather_length: "length (fst (run_state (gather f xs) s)) \<le> length xs"
proof (induction xs arbitrary: s)
  case (Cons x xs)
  obtain y s1 where y: "run_state (f x) s = (y, s1)" by (rule prod.exhaust)
  have "length (fst (run_state (gather f xs) s1)) \<le> length xs" by (rule Cons.IH)
  then show ?case by (auto simp: y prod.case_eq_if split: option.split)
qed simp

lemma gather_none:
  assumes "\<And>x. x \<in> set xs \<Longrightarrow> step_rel R (f x)" "\<And>x s. x \<in> set xs \<Longrightarrow> P s \<Longrightarrow> fst (run_state (f x) s) = None"
    "\<And>s t. P s \<Longrightarrow> R s t \<Longrightarrow> P t" "P s"
  shows "fst (run_state (gather f xs) s) = []"
  using assms(1,2,4)
proof (induction xs arbitrary: s)
  case (Cons x xs)
  obtain y s1 where y: "run_state (f x) s = (y, s1)" by (rule prod.exhaust)
  have "step_rel R (f x)" using Cons.prems(1) by simp
  then have "P s1" using assms(3) Cons.prems(3) step_relD y by metis
  moreover have "y = None" using Cons.prems(2) [of x s] Cons.prems(3) y by simp
  ultimately show ?case using Cons.IH [of s1] Cons.prems(1,2) by (simp add: y prod.case_eq_if)
qed simp

section \<open>Reading one chain\<close>

text \<open>A part of the state that reading the chain \<open>c\<close> leaves alone.\<close>

definition read_safe :: "ChainId \<Rightarrow> ('m accounts_scheme \<Rightarrow> 'b) \<Rightarrow> bool" where
  "read_safe c f \<longleftrightarrow> beyond_sys f \<and> (\<forall>s v. f (s\<lparr>sync_usd_cache := (sync_usd_cache s)(c \<mapsto> v)\<rparr>) = f s)"

text \<open>What a task for a chain sees of the shared state.\<close>

definition chain_view :: "ChainId \<Rightarrow> 'm accounts_scheme \<Rightarrow> string option \<times> AccountEventRow list \<times> ChainId set \<times> ChainId set" where
  "chain_view c s = (sync_usd_cache s c, account_events s, active_chains s, decommissioned_chains s)"

lemma read_safe_view: "c \<noteq> c' \<Longrightarrow> read_safe c (chain_view c' :: 'm accounts_scheme \<Rightarrow> _)"
  unfolding read_safe_def beyond_sys_def
  by (intro conjI allI impI, case_tac s, case_tac t) (simp_all add: chain_view_def)

lemma read_chain_balance_keeps:
  assumes "read_safe c f"
  shows "keeps f (read_chain_balance E c u b a)"
proof -
  have b: "beyond_sys f" and m: "\<And>v. keeps f (modify (\<lambda>s. s\<lparr>sync_usd_cache := (sync_usd_cache s)(c \<mapsto> v)\<rparr>))"
    using assms by (simp_all add: read_safe_def keeps_modify)
  show ?thesis
    unfolding read_chain_balance_def resolve_sync_usd_def indexed_balance_on_chain_def
    by (intro keeps m fetch_keeps [THEN keeps_beyond_sys [OF b]] keeps_db(1) [THEN keeps_beyond_sys [OF b]])
qed

lemma read_chain_withdrawal_input_keeps:
  assumes "read_safe c f"
  shows "keeps f (read_chain_withdrawal_input E c u b a)"
proof -
  have b: "beyond_sys f" using assms by (simp add: read_safe_def)
  show ?thesis
    unfolding read_chain_withdrawal_input_def
    by (intro keeps read_chain_balance_keeps assms fetch_keeps [THEN keeps_beyond_sys [OF b]])
qed

text \<open>
  The readings a chain can give for a user. The token address is the cached one, or else what the node
  answers for the Bank's \<open>syncUSD()\<close>; without it there is no reading. The amount is what the node
  answers to \<open>balanceOf\<close> of the user on that token; if it does not, the ledger of the indexed events of
  that user on that chain (zero when it is negative or the database is down), marked as a fallback.
\<close>

definition token_answer :: "env \<Rightarrow> nat \<Rightarrow> string \<Rightarrow> string \<Rightarrow> string option" where
  "token_answer E n rpc_url bank_addr = map_option (\<lambda>w. hex_0x (slice 12 32 w))
     (word_result (http_post E n rpc_url (eth_call_body bank_addr (hex_0x (selector E ''syncUSD()'')))))"

definition live_answer :: "env \<Rightarrow> nat \<Rightarrow> string \<Rightarrow> string \<Rightarrow> string \<Rightarrow> u256 option" where
  "live_answer E n rpc_url token user =
     (case encode_balance_of (selector E ''balanceOf(address)'') user of
        None \<Rightarrow> None
      | Some data \<Rightarrow> map_option u256_from_be_bytes (word_result (http_post E n rpc_url (eth_call_body token data))))"

definition ledger_text :: "env \<Rightarrow> nat \<Rightarrow> ChainId \<Rightarrow> string \<Rightarrow> AccountEventRow list \<Rightarrow> string" where
  "ledger_text E n c user events =
     (if db_up E n then show_int (sum_list (map (delta c (to_lowercase user)) events)) else ''0'')"

definition token_reading ::
  "env \<Rightarrow> (ChainId \<rightharpoonup> string) \<Rightarrow> ChainId \<times> string \<times> string \<Rightarrow> string option \<Rightarrow> bool" where
  "token_reading E cache entry tok = (case entry of (c, u, b) \<Rightarrow>
     (case cache c of Some addr \<Rightarrow> tok = Some addr | None \<Rightarrow> (\<exists>n. tok = token_answer E n u b)))"

definition balance_reading :: "env \<Rightarrow> (ChainId \<rightharpoonup> string) \<Rightarrow> AccountEventRow list \<Rightarrow> string \<Rightarrow>
  ChainId \<times> string \<times> string \<Rightarrow> ChainBalanceContribution option \<Rightarrow> bool" where
  "balance_reading E cache events user entry r = (case entry of (c, u, b) \<Rightarrow>
     \<exists>tok. token_reading E cache entry tok \<and>
       (case tok of
          None \<Rightarrow> r = None
        | Some token \<Rightarrow> \<exists>n m. r = Some
            (case live_answer E n u token user of
               Some v \<Rightarrow> \<lparr>cb_amount = v, cb_used_fallback = False\<rparr>
             | None \<Rightarrow> \<lparr>cb_amount = (case u256_from_str E (ledger_text E m c user events) of Some v \<Rightarrow> v | None \<Rightarrow> 0),
                        cb_used_fallback = True\<rparr>)))"

lemma resolve_sync_usd_reading: "token_reading E (sync_usd_cache s) (c, u, b) (fst (run_state (resolve_sync_usd E c u b) s))"
  by (auto simp: token_reading_def token_answer_def resolve_sync_usd_def fetch_address_view_def run_post
      split: option.split intro!: exI [of _ "tick s"])

lemma read_chain_balance_reading:
  "balance_reading E (sync_usd_cache s) (account_events s) a (c, u, b) (fst (run_state (read_chain_balance E c u b a) s))"
proof -
  obtain x s1 where x: "run_state (resolve_sync_usd E c u b) s = (x, s1)" by (rule prod.exhaust)
  then have tok: "token_reading E (sync_usd_cache s) (c, u, b) x" using resolve_sync_usd_reading by (metis fst_conv)
  have events: "account_events s1 = account_events s" using quiet_events(4) x by (rule keepsD)
  show ?thesis
  proof (cases x)
    case None
    then show ?thesis using tok x by (auto simp: balance_reading_def read_chain_balance_def)
  next
    case (Some token)
    obtain y s2 where y: "run_state (fetch_balance_of E u token a (selector E ''balanceOf(address)'')) s1 = (y, s2)"
      by (rule prod.exhaust)
    have live: "live_answer E (tick s1) u token a = y"
      using y by (auto simp: live_answer_def fetch_balance_of_def run_post split: option.split_asm)
    have events2: "account_events s2 = account_events s1" using fetch_events(12) y by (rule keepsD)
    have "fst (run_state (read_chain_balance E c u b a) s) = Some
        (case live_answer E (tick s1) u token a of
           Some v \<Rightarrow> \<lparr>cb_amount = v, cb_used_fallback = False\<rparr>
         | None \<Rightarrow> \<lparr>cb_amount = (case u256_from_str E (ledger_text E (tick s2) c a (account_events s)) of Some v \<Rightarrow> v | None \<Rightarrow> 0),
                    cb_used_fallback = True\<rparr>)"
      using x Some y events events2
      by (auto simp: live read_chain_balance_def indexed_balance_on_chain_def run_db ledger_text_def balance_query_delta
          split: option.split)
    then show ?thesis
      unfolding balance_reading_def prod.case using tok [unfolded Some]
      by (intro exI [of _ "Some token"] conjI) (simp_all only: option.case, blast)
  qed
qed

lemma chain_entries_subset: "fst ` set (chain_entries us as) \<subseteq> fst ` set us"
  by (induction us) (auto simp: chain_entries_def split: option.split)

lemma chain_entries_distinct: "distinct (map fst us) \<Longrightarrow> distinct (map fst (chain_entries us as))"
proof (induction us)
  case (Cons x us)
  have "chain_entries (x # us) as = (case map_of as (fst x) of None \<Rightarrow> [] | Some b \<Rightarrow> [(fst x, snd x, b)]) @ chain_entries us as"
    by (simp add: chain_entries_def split_beta split: option.split)
  with Cons chain_entries_subset [of us as] show ?case by (auto split: option.split)
qed (simp add: chain_entries_def)

lemma bank_entries_distinct: "distinct (map fst (rpc_urls cfg)) \<Longrightarrow> distinct (map fst (bank_entries cfg))"
  by (simp add: bank_entries_def chain_entries_distinct)

section \<open>Withdrawal routing\<close>

text \<open>What the node answers to \<open>reserveDepth()\<close> on request \<open>n\<close>, zero when it does not.\<close>

definition reserve_answer :: "env \<Rightarrow> nat \<Rightarrow> string \<Rightarrow> string \<Rightarrow> u256" where
  "reserve_answer E n rpc_url bank_addr =
     (case word_result (http_post E n rpc_url (eth_call_body bank_addr (hex_0x (reserve_depth_sel E)))) of
        Some w \<Rightarrow> u256_from_be_bytes w | None \<Rightarrow> 0)"

definition chain_input :: "'m accounts_scheme \<Rightarrow> ChainId \<Rightarrow> u256 \<Rightarrow> ChainBalanceContribution \<Rightarrow> ChainWithdrawalInput" where
  "chain_input s c depth k = \<lparr>wi_chain_id = c, wi_balance_wei = cb_amount k, wi_reserve_depth_wei = depth,
     wi_active = is_chain_active s c, wi_decommissioned = is_chain_decommissioned s c\<rparr>"

definition input_reading :: "env \<Rightarrow> 'm accounts_scheme \<Rightarrow> string \<Rightarrow> ChainId \<times> string \<times> string \<Rightarrow>
  ChainWithdrawalInput option \<Rightarrow> bool" where
  "input_reading E s user entry i = (case entry of (c, u, b) \<Rightarrow>
     \<exists>r n. balance_reading E (sync_usd_cache s) (account_events s) user (c, u, b) r \<and>
       i = map_option (chain_input s c (reserve_answer E n u b)) r)"

lemma withdrawal_input_reading:
  "input_reading E s a (c, u, b) (fst (run_state (read_chain_withdrawal_input E c u b a) s))"
proof -
  obtain x s1 where x: "run_state (read_chain_balance E c u b a) s = (x, s1)" by (rule prod.exhaust)
  have "balance_reading E (sync_usd_cache s) (account_events s) a (c, u, b) x"
    using read_chain_balance_reading [of E s a c u b] x by simp
  moreover have "fst (run_state (read_chain_withdrawal_input E c u b a) s) =
      map_option (chain_input s c (reserve_answer E (tick s1) u b)) x"
    using x by (auto simp: read_chain_withdrawal_input_def fetch_reserve_depth_def fetch_u256_view_def run_post
        reserve_answer_def chain_input_def split: option.split)
  ultimately show ?thesis unfolding input_reading_def by auto
qed

lemma balance_reading_view:
  "sync_usd_cache s (fst entry) = sync_usd_cache s' (fst entry) \<Longrightarrow>
     balance_reading E (sync_usd_cache s) ev a entry r = balance_reading E (sync_usd_cache s') ev a entry r"
  by (cases entry) (simp add: balance_reading_def token_reading_def)

lemma input_reading_view: "chain_view (fst entry) s = chain_view (fst entry) s' \<Longrightarrow>
    input_reading E s a entry i = input_reading E s' a entry i"
proof -
  assume view: "chain_view (fst entry) s = chain_view (fst entry) s'"
  then have "chain_input s (fst entry) = chain_input s' (fst entry)"
    by (simp add: chain_view_def chain_input_def fun_eq_iff is_chain_active_def is_chain_decommissioned_def)
  moreover have "balance_reading E (sync_usd_cache s) (account_events s) a entry r =
      balance_reading E (sync_usd_cache s') (account_events s') a entry r" for r
    using view balance_reading_view [of s entry s'] by (simp add: chain_view_def)
  ultimately show ?thesis by (cases entry) (simp add: input_reading_def)
qed

lemma gather_chain_inputs_readings:
  fixes s :: "'m accounts_scheme"
  assumes "distinct (map fst (rpc_urls cfg))" "run_state (gather_chain_inputs E cfg a) s = (inputs, t)"
  shows "\<exists>rs. inputs = filter_map (\<lambda>r. r) rs \<and> list_all2 (input_reading E s a) (bank_entries cfg) rs"
proof -
  let ?f = "\<lambda>(c, u, b). read_chain_withdrawal_input E c u b a :: ('m accounts_scheme, _) state"
  have keeps: "keeps (chain_view (fst y)) (?f x)" if "fst x \<noteq> fst y" for x y :: "ChainId \<times> string \<times> string"
    using that by (cases x) (auto intro!: read_chain_withdrawal_input_keeps read_safe_view)
  have "\<exists>rs. inputs = filter_map (\<lambda>r. r) rs \<and> list_all2 (\<lambda>x r. \<exists>v. chain_view (fst x) v = chain_view (fst x) s \<and>
      fst (run_state (?f x) v) = r) (bank_entries cfg) rs"
    by (rule gather_all2 [where k = fst and g = chain_view, OF keeps bank_entries_distinct [OF assms(1)]
          assms(2) [unfolded gather_chain_inputs_def]])
  then obtain rs where rs: "inputs = filter_map (\<lambda>r. r) rs" "list_all2 (\<lambda>x r. \<exists>v. chain_view (fst x) v = chain_view (fst x) s \<and>
      fst (run_state (?f x) v) = r) (bank_entries cfg) rs" by (elim exE conjE)
  have "input_reading E s a x r" if view: "\<exists>v. chain_view (fst x) v = chain_view (fst x) s \<and>
      fst (run_state (?f x) v) = r" for x r
  proof -
    obtain v c u b where v: "chain_view (fst x) v = chain_view (fst x) s" "fst (run_state (?f x) v) = r" "x = (c, u, b)"
      using view by (cases x) auto
    with withdrawal_input_reading [of E v a c u b] have "input_reading E v a x r" by simp
    then show ?thesis using input_reading_view [OF v(1)] by simp
  qed
  with rs(2) have "list_all2 (input_reading E s a) (bank_entries cfg) rs" by (rule list_all2_mono)
  with rs(1) show ?thesis by (intro exI conjI)
qed

lemma all2_left: "list_all2 P xs ys \<Longrightarrow> x \<in> set xs \<Longrightarrow> \<exists>y\<in>set ys. P x y"
  and all2_right: "list_all2 P xs ys \<Longrightarrow> y \<in> set ys \<Longrightarrow> \<exists>x\<in>set xs. P x y"
  by (induction rule: list_all2_induct) auto

lemma filter_map_id_mem: "z \<in> set (filter_map (\<lambda>r. r) rs) \<longleftrightarrow> Some z \<in> set rs"
  by (induction rs) (auto split: option.split)

text \<open>A computed entry against the readings, one per configured chain.\<close>

lemma routing_entry_from:
  assumes "list_all2 (input_reading E s a) (bank_entries cfg) rs" "w \<in> set (compute_withdrawal_routing (filter_map (\<lambda>r. r) rs))"
  shows "\<exists>c u b n k. (c, u, b) \<in> set (bank_entries cfg) \<and> we_chain_id w = c \<and> \<not> is_chain_decommissioned s c \<and>
    balance_reading E (sync_usd_cache s) (account_events s) a (c, u, b) (Some k) \<and> we_balance_wei w = cb_amount k \<and>
    (we_available w \<longleftrightarrow> is_chain_active s c \<and> 0 < min (cb_amount k) (reserve_answer E n u b)) \<and>
    we_withdrawable_wei w = (if is_chain_active s c then min (cb_amount k) (reserve_answer E n u b) else 0)"
proof -
  obtain i where i: "i \<in> set (filter_map (\<lambda>r. r) rs)"
    "we_chain_id w = wi_chain_id i" "\<not> wi_decommissioned i" "we_balance_wei w = wi_balance_wei i"
    "we_available w \<longleftrightarrow> wi_active i \<and> 0 < min (wi_balance_wei i) (wi_reserve_depth_wei i)"
    "we_withdrawable_wei w = (if wi_active i then min (wi_balance_wei i) (wi_reserve_depth_wei i) else 0)"
    using withdrawal_entry_sound [of "filter_map (\<lambda>r. r) rs"] assms(2) unfolding list_all_iff by blast
  then obtain c u b where x: "(c, u, b) \<in> set (bank_entries cfg)" "input_reading E s a (c, u, b) (Some i)"
    using all2_right [OF assms(1)] by (metis filter_map_id_mem prod_cases3)
  from x(2) obtain k n where "balance_reading E (sync_usd_cache s) (account_events s) a (c, u, b) (Some k)"
    "i = chain_input s c (reserve_answer E n u b) k"
    unfolding input_reading_def by (auto simp: map_option_case split: option.split_asm)
  with i(2-) x(1) show ?thesis
    by - (rule exI [where x = c], rule exI [where x = u], rule exI [where x = b], rule exI [where x = n],
        rule exI [where x = k], simp add: chain_input_def)
qed

lemma routing_entry_for:
  assumes "list_all2 (input_reading E s a) (bank_entries cfg) rs" "(c, u, b) \<in> set (bank_entries cfg)"
    "\<not> is_chain_decommissioned s c"
  shows "\<exists>r. balance_reading E (sync_usd_cache s) (account_events s) a (c, u, b) r \<and>
    (\<forall>k. r = Some k \<longrightarrow> cb_amount k \<noteq> 0 \<longrightarrow>
      (\<exists>w\<in>set (compute_withdrawal_routing (filter_map (\<lambda>r. r) rs)). we_chain_id w = c \<and> we_balance_wei w = cb_amount k))"
proof -
  from all2_left [OF assms(1,2)] obtain i where i: "i \<in> set rs" "input_reading E s a (c, u, b) i" by (elim bexE)
  from i(2) obtain r n where r: "balance_reading E (sync_usd_cache s) (account_events s) a (c, u, b) r"
    "i = map_option (chain_input s c (reserve_answer E n u b)) r"
    unfolding input_reading_def by auto
  have "\<exists>w\<in>set (compute_withdrawal_routing (filter_map (\<lambda>r. r) rs)). we_chain_id w = c \<and> we_balance_wei w = cb_amount k"
    if k: "r = Some k" "cb_amount k \<noteq> 0" for k
  proof -
    have "chain_input s c (reserve_answer E n u b) k \<in> set (filter_map (\<lambda>r. r) rs)"
      using i(1) r(2) k(1) by (simp add: filter_map_id_mem)
    from withdrawal_entry_complete [OF this] assms(3) k(2) show ?thesis by (auto simp: list_ex_iff chain_input_def)
  qed
  with r(1) show ?thesis by blast
qed

text \<open>
  C21. A withdrawal is routed where it can be paid, and nowhere else. Every entry of the answer is for a
  configured chain that is not decommissioned in the hot path's view; its balance is a reading of that
  user on that chain; it is available exactly when the chain is active and both the balance and the
  reserve the chain's node reported (zero when it did not) are positive; it offers the smaller of the
  two when the chain is active, and nothing otherwise. Conversely every configured chain that is
  active and not decommissioned has an entry with the balance read, unless that is zero or the token
  address of the chain is neither cached nor answered. (The chains of the configuration are
  distinct, being keys of a map. A reading falls back to the indexed ledger when the node fails.)
\<close>

theorem withdrawal_routing_sound:
  assumes "distinct (map fst (rpc_urls cfg))" "run_state (get_withdrawal_routing E cfg address) s = (entries, t)"
  shows "(\<forall>e\<in>set entries. \<exists>u b n k. (wr_chain_id e, u, b) \<in> set (bank_entries cfg) \<and>
      \<not> is_chain_decommissioned s (wr_chain_id e) \<and>
      balance_reading E (sync_usd_cache s) (account_events s) address (wr_chain_id e, u, b) (Some k) \<and>
      wr_balance_wei e = show_nat (unat (cb_amount k)) \<and>
      (wr_available e \<longleftrightarrow> is_chain_active s (wr_chain_id e) \<and> 0 < min (cb_amount k) (reserve_answer E n u b)) \<and>
      wr_withdrawable_wei e = show_nat (unat
        (if is_chain_active s (wr_chain_id e) then min (cb_amount k) (reserve_answer E n u b) else 0))) \<and>
    (\<forall>(c, u, b)\<in>set (bank_entries cfg). is_chain_active s c \<longrightarrow> \<not> is_chain_decommissioned s c \<longrightarrow>
      (\<exists>r. balance_reading E (sync_usd_cache s) (account_events s) address (c, u, b) r \<and>
        (case r of None \<Rightarrow> True | Some k \<Rightarrow> cb_amount k = 0 \<or>
          (\<exists>e\<in>set entries. wr_chain_id e = c \<and> wr_balance_wei e = show_nat (unat (cb_amount k))))))"
proof -
  obtain inputs s1 where inputs: "run_state (gather_chain_inputs E cfg address) s = (inputs, s1)" by (rule prod.exhaust)
  from gather_chain_inputs_readings [OF assms(1) inputs] obtain rs where rs: "inputs = filter_map (\<lambda>r. r) rs"
    "list_all2 (input_reading E s address) (bank_entries cfg) rs" by blast
  have entries: "set entries = routing_entry ` set (compute_withdrawal_routing (filter_map (\<lambda>r. r) rs))"
    using assms(2) inputs rs(1) by (auto simp: get_withdrawal_routing_def)
  show ?thesis
  proof (intro conjI ballI)
    fix e assume "e \<in> set entries"
    then obtain w where w: "e = routing_entry w" "w \<in> set (compute_withdrawal_routing (filter_map (\<lambda>r. r) rs))"
      using entries by auto
    from routing_entry_from [OF rs(2) w(2)] show "\<exists>u b n k. (wr_chain_id e, u, b) \<in> set (bank_entries cfg) \<and>
      \<not> is_chain_decommissioned s (wr_chain_id e) \<and>
      balance_reading E (sync_usd_cache s) (account_events s) address (wr_chain_id e, u, b) (Some k) \<and>
      wr_balance_wei e = show_nat (unat (cb_amount k)) \<and>
      (wr_available e \<longleftrightarrow> is_chain_active s (wr_chain_id e) \<and> 0 < min (cb_amount k) (reserve_answer E n u b)) \<and>
      wr_withdrawable_wei e = show_nat (unat
        (if is_chain_active s (wr_chain_id e) then min (cb_amount k) (reserve_answer E n u b) else 0))"
      by (elim exE conjE) (rule exI, rule exI, rule exI, rule exI, simp add: w(1) routing_entry_def)
  next
    fix x assume x: "x \<in> set (bank_entries cfg)"
    obtain c u b where xs: "x = (c, u, b)" by (rule prod_cases3)
    show "case x of (c, u, b) \<Rightarrow> is_chain_active s c \<longrightarrow> \<not> is_chain_decommissioned s c \<longrightarrow>
      (\<exists>r. balance_reading E (sync_usd_cache s) (account_events s) address (c, u, b) r \<and>
        (case r of None \<Rightarrow> True | Some k \<Rightarrow> cb_amount k = 0 \<or>
          (\<exists>e\<in>set entries. wr_chain_id e = c \<and> wr_balance_wei e = show_nat (unat (cb_amount k)))))"
      unfolding xs prod.case entries
    proof (intro impI)
      assume "\<not> is_chain_decommissioned s c"
      from routing_entry_for [OF rs(2) x [unfolded xs] this] obtain r where
        "balance_reading E (sync_usd_cache s) (account_events s) address (c, u, b) r"
        "\<forall>k. r = Some k \<longrightarrow> cb_amount k \<noteq> 0 \<longrightarrow> (\<exists>w\<in>set (compute_withdrawal_routing (filter_map (\<lambda>r. r) rs)).
           we_chain_id w = c \<and> we_balance_wei w = cb_amount k)" by (elim exE conjE)
      then show "\<exists>r. balance_reading E (sync_usd_cache s) (account_events s) address (c, u, b) r \<and>
        (case r of None \<Rightarrow> True | Some k \<Rightarrow> cb_amount k = 0 \<or>
          (\<exists>e\<in>routing_entry ` set (compute_withdrawal_routing (filter_map (\<lambda>r. r) rs)).
            wr_chain_id e = c \<and> wr_balance_wei e = show_nat (unat (cb_amount k))))"
        by (intro exI [of _ r]) (fastforce simp: routing_entry_def split: option.split)
    qed
  qed
qed

section \<open>The balance\<close>

definition fresh_entry :: "'m queries_scheme \<Rightarrow> string \<Rightarrow> CachedBalance option" where
  "fresh_entry s address =
     (case balance_cache s (to_lowercase address) of
        Some entry \<Rightarrow> if now_ms s - bc_fetched_at entry < BALANCE_CACHE_TTL then Some entry else None
      | None \<Rightarrow> None)"

lemma run_get_balance:
  "run_state (get_balance E cfg a) s =
     (case fresh_entry s a of
        Some entry \<Rightarrow> ((bc_balance_wei entry, bc_degraded entry), s)
      | None \<Rightarrow> run_state (refresh_balance E cfg a) s)"
  by (simp add: get_balance_def fresh_entry_def split: option.split)

text \<open>
  C22. What a balance query answers when no entry of the last four seconds is cached: there is one
  reading of the user for each configured chain that is not decommissioned in the hot path's view, in
  the order of the configuration; the answer is the decimal text of the sum of the readings, capped at
  the largest \<open>U256\<close>, where a chain whose token address is neither cached nor answered by its node
  counts nothing, and it is degraded exactly when some reading fell back to the indexed ledger. The
  answer is then cached, and every query for any spelling of the address in the next four seconds
  gives it again without asking anything of the chains or the database. (The chains of the
  configuration are distinct, being keys of a map.)
\<close>

theorem balance_answer:
  fixes s :: "'m queries_scheme"
  assumes "distinct (map fst (rpc_urls cfg))" "fresh_entry s a = None"
    "run_state (get_balance E cfg a) s = ((text, degraded), t)"
  shows "(\<exists>rs. list_all2 (balance_reading E (sync_usd_cache s) (account_events s) a)
        (filter (\<lambda>(c, _, _). \<not> is_chain_decommissioned s c) (bank_entries cfg)) rs \<and>
      text = show_nat (min (\<Sum>k\<leftarrow>filter_map (\<lambda>r. r) rs. unat (cb_amount k)) (2 ^ 256 - 1)) \<and>
      degraded = list_ex cb_used_fallback (filter_map (\<lambda>r. r) rs)) \<and>
    (\<forall>E' cfg' a' (u :: 'm queries_scheme). to_lowercase a' = to_lowercase a \<longrightarrow> balance_cache u = balance_cache t \<longrightarrow>
       now_ms u < now_ms t + 4000 \<longrightarrow> run_state (get_balance E' cfg' a') u = ((text, degraded), u))"
proof -
  let ?chains = "filter (\<lambda>(c, _, _). \<not> is_chain_decommissioned s c) (bank_entries cfg)"
    and ?read = "\<lambda>(c, u, b). read_chain_balance E c u b a :: ('m queries_scheme, _) state"
  obtain cs s1 where cs: "run_state (gather ?read ?chains) s = (cs, s1)" by (rule prod.exhaust)
  obtain tot g where agg: "aggregate_balances cs = (tot, g)" by (rule prod.exhaust)
  have t: "text = show_nat (unat tot)" "degraded = g" "t = s1\<lparr>balance_cache := (balance_cache s1)(to_lowercase a \<mapsto>
      \<lparr>bc_balance_wei = text, bc_degraded = degraded, bc_fetched_at = now_ms s1\<rparr>)\<rparr>"
    using assms(2,3) cs agg by (auto simp: run_get_balance refresh_balance_def fetch_aggregated_balance_def)
  have sum: "unat tot = min (\<Sum>k\<leftarrow>cs. unat (cb_amount k)) (2 ^ 256 - 1)" "g = list_ex cb_used_fallback cs"
    using aggregate_balances_correct [of cs] agg by simp_all
  have keeps: "keeps (chain_view (fst y)) (?read x)" if "fst x \<noteq> fst y" for x y :: "ChainId \<times> string \<times> string"
    using that by (cases x) (auto intro!: read_chain_balance_keeps read_safe_view)
  have "distinct (map fst ?chains)" using bank_entries_distinct [OF assms(1)] by (rule distinct_map_filter)
  from gather_all2 [where k = fst and g = chain_view, OF keeps this cs] obtain rs where rs: "cs = filter_map (\<lambda>r. r) rs"
    "list_all2 (\<lambda>x r. \<exists>v. chain_view (fst x) v = chain_view (fst x) s \<and> fst (run_state (?read x) v) = r) ?chains rs" by blast
  have "balance_reading E (sync_usd_cache s) (account_events s) a x r"
    if view: "\<exists>v. chain_view (fst x) v = chain_view (fst x) s \<and> fst (run_state (?read x) v) = r" for x r
  proof -
    obtain v c u b where v: "chain_view c v = chain_view c s" "fst (run_state (?read x) v) = r" "x = (c, u, b)"
      using view by (cases x) auto
    from read_chain_balance_reading [of E v a c u b] v have "balance_reading E (sync_usd_cache v) (account_events s) a x r"
      by (simp add: chain_view_def)
    moreover have "sync_usd_cache v (fst x) = sync_usd_cache s (fst x)" using v(1,3) by (simp add: chain_view_def)
    ultimately show ?thesis using balance_reading_view by blast
  qed
  with rs(2) have readings: "list_all2 (balance_reading E (sync_usd_cache s) (account_events s) a) ?chains rs"
    by (rule list_all2_mono)
  have again: "run_state (get_balance E' cfg' a') u = ((text, degraded), u)"
    if "to_lowercase a' = to_lowercase a" "balance_cache u = balance_cache t" "now_ms u < now_ms t + 4000"
    for E' cfg' a' and u :: "'m queries_scheme"
    using that by (auto simp: run_get_balance fresh_entry_def t(3) BALANCE_CACHE_TTL_def)
  have "\<exists>rs. list_all2 (balance_reading E (sync_usd_cache s) (account_events s) a) ?chains rs \<and>
      text = show_nat (min (\<Sum>k\<leftarrow>filter_map (\<lambda>r. r) rs. unat (cb_amount k)) (2 ^ 256 - 1)) \<and>
      degraded = list_ex cb_used_fallback (filter_map (\<lambda>r. r) rs)"
    using readings sum by (intro exI [of _ rs]) (simp add: t(1,2) rs(1))
  then show ?thesis using again by blast
qed

text \<open>
  A chain that cannot be reached is left out in silence: when no node answers and the token
  addresses are not cached, the balance is reported as \<open>0\<close> and not as degraded, whatever the indexed
  events say, and this answer is cached.
\<close>

theorem unreachable_balance_zero:
  fixes s :: "'m queries_scheme"
  assumes "\<forall>n u body. \<exists>e. http_post E n u body = Inl e" "\<forall>c. sync_usd_cache s c = None" "fresh_entry s a = None"
    "run_state (get_balance E cfg a) s = (r, t)"
  shows "r = (''0'', False) \<and> fresh_entry t a \<noteq> None"
proof -
  let ?chains = "filter (\<lambda>(c, _, _). \<not> is_chain_decommissioned s c) (bank_entries cfg)"
    and ?read = "\<lambda>(c, u, b). read_chain_balance E c u b a :: ('m queries_scheme, _) state"
  have none: "run_state (?read x) u = (None, tick_on E 0 (u\<lparr>calls := calls u @ [(fst (snd x),
      eth_call_body (snd (snd x)) (hex_0x (selector E ''syncUSD()'')))]\<rparr>))"
    if "\<forall>c. sync_usd_cache u c = None" for x and u :: "'m queries_scheme"
  proof -
    obtain c v b e where "x = (c, v, b)" "http_post E (tick u) v (eth_call_body b (hex_0x (selector E ''syncUSD()''))) = Inl e"
      using assms(1) by (metis prod_cases3)
    then show ?thesis
      using that by (simp add: read_chain_balance_def resolve_sync_usd_def fetch_address_view_def run_post
          word_result_def result_str_def tick_on_def)
  qed
  have "fst (run_state (gather ?read ?chains) s) = []"
    by (rule gather_none [where P = "\<lambda>u. \<forall>c. sync_usd_cache u c = None"
          and R = "\<lambda>u v. (\<forall>c. sync_usd_cache u c = None) \<longrightarrow> (\<forall>c. sync_usd_cache v c = None)"])
      (use none assms(2) in \<open>auto simp: step_rel_def tick_on_def\<close>)
  then obtain s1 where "run_state (gather ?read ?chains) s = ([], s1)" by (metis prod.collapse)
  moreover have "show_nat 0 = ''0''" by code_simp
  ultimately show ?thesis
    using assms(3,4)
    by (auto simp: run_get_balance refresh_balance_def fetch_aggregated_balance_def aggregate_balances_def
        fresh_entry_def BALANCE_CACHE_TTL_def)
qed

section \<open>The activity feed\<close>

lemma gather_pairs:
  assumes "run_state (gather f xs) s = (ys, t)"
  shows "\<exists>ps. ys = map snd ps \<and> subseq (map fst ps) xs \<and> (\<forall>(x, y)\<in>set ps. \<exists>u. fst (run_state (f x) u) = Some y)"
  using assms
proof (induction xs arbitrary: s ys t)
  case (Cons x xs)
  obtain y s1 where y: "run_state (f x) s = (y, s1)" by (rule prod.exhaust)
  obtain rest s2 where r: "run_state (gather f xs) s1 = (rest, s2)" by (rule prod.exhaust)
  from Cons.IH [OF r] obtain ps where ps: "rest = map snd ps" "subseq (map fst ps) xs"
    "\<forall>(x, y)\<in>set ps. \<exists>u. fst (run_state (f x) u) = Some y" by blast
  show ?case
  proof (cases y)
    case None
    then show ?thesis using Cons.prems y r ps by (intro exI [of _ ps]) auto
  next
    case (Some z)
    then have "\<exists>u. fst (run_state (f x) u) = Some z" using y by (intro exI [of _ s]) simp
    moreover have "ys = z # rest" using Cons.prems y r Some by simp
    ultimately show ?thesis using ps by (intro exI [of _ "(x, z) # ps"]) simp
  qed
qed simp

lemma activity_before_trans: "activity_before p q \<Longrightarrow> activity_before q r \<Longrightarrow> activity_before p r"
  by (auto simp: activity_before_def Let_def split: option.split_asm)

lemma activity_before_total: "\<not> activity_before p q \<Longrightarrow> activity_before q p"
  by (auto simp: activity_before_def Let_def split: option.split_asm option.split)

lemma activity_insort_set [simp]: "set (activity_insort r rs) = insert r (set rs)"
  by (induction rs) auto

lemma activity_insort_mset: "mset (activity_insort r rs) = add_mset r (mset rs)"
  by (induction rs) auto

lemma activity_insort_sorted:
  "sorted_wrt activity_before rs \<Longrightarrow> sorted_wrt activity_before (activity_insort r rs)"
proof (induction rs)
  case (Cons q qs)
  show ?case
  proof (cases "activity_before r q")
    case True
    then show ?thesis using Cons.prems activity_before_trans [OF True] by simp
  next
    case False
    then show ?thesis using Cons activity_before_total [OF False] by simp
  qed
qed simp

lemma activity_sort_sorted: "sorted_wrt activity_before (activity_sort rows)" "mset (activity_sort rows) = mset rows"
  unfolding activity_sort_def by (induction rows) (simp_all add: activity_insort_sorted activity_insort_mset)

lemma sorted_wrt_subseq: "subseq xs ys \<Longrightarrow> sorted_wrt R ys \<Longrightarrow> sorted_wrt R xs"
proof (induction rule: list_emb.induct)
  case (list_emb_Cons2 x y xs ys)
  then show ?case using list_emb_set [OF list_emb_Cons2(2)] by fastforce
qed simp_all

text \<open>
  The activity feed shows a user only events to which the user is a party (outgoing as the sender,
  incoming as the recipient, in any spelling of the address), with the amount and transaction of the
  event, newest first, and between one and a hundred of them at most as the limit asks; an event of
  the user is dropped from the feed only for at least as many that are not older.
\<close>

theorem activity_feed:
  fixes s :: "'m queries_scheme"
  assumes "run_state (get_account_activity E address limit) s = (entries, t)" "db_up E (tick s)"
  shows "length entries \<le> max 1 (min 100 (unat limit)) \<and>
    (\<exists>ps rows. entries = map snd ps \<and> subseq (map fst ps) (take (max 1 (min 100 (unat limit))) rows) \<and>
      sorted_wrt activity_before rows \<and> mset rows = mset (filter (\<lambda>r.
        map_option to_lowercase (ae_address_from r) = Some (to_lowercase address) \<or>
        map_option to_lowercase (ae_address_to r) = Some (to_lowercase address)) (account_events s)) \<and>
      (\<forall>(row, v)\<in>set ps. av_amount_wei v = ae_amount_wei row \<and> av_tx_hash v = ae_tx_hash row \<and>
        (av_direction v = ''outgoing'' \<and> is_user (ae_address_from row) address \<or>
         av_direction v = ''incoming'' \<and> is_user (ae_address_to row) address)))"
proof -
  define own where "own = filter (\<lambda>r. map_option to_lowercase (ae_address_from r) = Some (to_lowercase address) \<or>
    map_option to_lowercase (ae_address_to r) = Some (to_lowercase address)) (account_events s)"
  have run: "run_state (gather (activity_entry E address) (take (clamp_limit limit) (activity_sort own))) (tick_on E 0 s) =
      (entries, t)"
    using assms by (simp add: get_account_activity_def list_activity_for_user_def run_db Let_def own_def)
  from gather_length [of "activity_entry E address" "take (clamp_limit limit) (activity_sort own)" "tick_on E 0 s"]
  have len: "length entries \<le> clamp_limit limit" unfolding run by simp
  from gather_pairs [OF run] obtain ps where ps: "entries = map snd ps"
    "subseq (map fst ps) (take (clamp_limit limit) (activity_sort own))"
    "\<forall>(row, v)\<in>set ps. \<exists>u :: 'm queries_scheme. fst (run_state (activity_entry E address row) u) = Some v" by blast
  have party: "av_amount_wei v = ae_amount_wei row \<and> av_tx_hash v = ae_tx_hash row \<and>
      (av_direction v = ''outgoing'' \<and> is_user (ae_address_from row) address \<or>
       av_direction v = ''incoming'' \<and> is_user (ae_address_to row) address)" if p: "(row, v) \<in> set ps" for row v
  proof -
    obtain u :: "'m queries_scheme" where "fst (run_state (activity_entry E address row) u) = Some v"
      using ps(3) p by blast
    then obtain st where "map_event_to_activity row address st = Some v"
      by (auto simp: activity_entry_def prod.case_eq_if split: if_split_asm)
    then show ?thesis using map_event_to_activity_party by blast
  qed
  show ?thesis
    unfolding own_def [symmetric] clamp_limit_def [symmetric]
    using len ps(1,2) party activity_sort_sorted [of own]
    by (intro conjI exI [of _ ps] exI [of _ "activity_sort own"]) auto
qed

section \<open>Pool depth\<close>

lemma sort_key_snoc:
  assumes "\<forall>r\<in>set xs. f r \<le> f x"
  shows "sort_key f (xs @ [x]) = sort_key f xs @ [x]"
proof (rule properties_for_sort_key)
  show "filter (\<lambda>y. f k = f y) (sort_key f xs @ [x]) = filter (\<lambda>y. f k = f y) (xs @ [x])" for k
    using sort_key_stable [of f "f k" xs] by (simp add: eq_commute)
  show "sorted (map f (sort_key f xs @ [x]))" using assms by (auto simp: sorted_append)
qed simp

text \<open>
  The pool depth served is the last one recorded: after a polling round in which the chain's node
  reported a depth, \<open>get_pool_depth\<close> answers the decimal text of that depth, whatever was recorded
  before.
\<close>

theorem pool_depth_latest:
  assumes "\<forall>n. db_up E n" "\<forall>r\<in>set (pool_snapshots s). sn_recorded_at r \<le> now_ms s"
    "fst (run_state (fetch_pool_depth E u b (selector E ''poolDepth()'')) s) = Some depth"
  shows "fst (run_state (do { snapshot_chain E (c, u, b); get_pool_depth E c }) s) = Inr (show_nat (unat depth))"
proof -
  obtain s1 where s1: "run_state (fetch_pool_depth E u b (selector E ''poolDepth()'')) s = (Some depth, s1)"
    using assms(3) by (metis prod.collapse)
  then have old: "pool_snapshots s1 = pool_snapshots s" "now_ms s \<le> now_ms s1"
    by (auto simp: fetch_pool_depth_def fetch_u256_view_def run_post tick_on_def)
  let ?now = "now_ms (tick_on E 0 s1)" and ?own = "filter (\<lambda>r. sn_chain_id r = c) (pool_snapshots s)"
  let ?new = "\<lparr>sn_chain_id = c, sn_depth_wei = show_nat (unat depth), sn_recorded_at = ?now\<rparr>"
  have "\<forall>r\<in>set ?own. sn_recorded_at r \<le> sn_recorded_at ?new" using assms(2) old(2) by auto
  then have "sort_key sn_recorded_at (?own @ [?new]) = sort_key sn_recorded_at ?own @ [?new]"
    by (intro sort_key_snoc)
  then have "latest_snapshot c (pool_snapshots s @ [?new]) = Some ?new"
    by (simp add: latest_snapshot_def Let_def)
  then show ?thesis
    using assms(1) s1 old(1)
    by (simp add: snapshot_chain_def record_snapshot_def get_pool_depth_def get_latest_depth_def run_db tick_on_def)
qed

section \<open>Concrete runs\<close>

definition queries_start :: queries where
  "queries_start =
     \<lparr>now_ms = 5, tick = 0, calls = [], nonce_cache = Map.empty, active_chains = {1, 2},
      decommissioned_chains = {}, relayer_key = Some [1], relayer_address = Some (replicate 20 5),
      route_last_block = 0, account_events = [sample_deposit (sample_address CHR ''a'') 0],
      index_cursors = Map.empty, sync_usd_cache = Map.empty, block_time_cache = Map.empty, user_db = sample_db,
      balance_cache = Map.empty, query_relays = [], pool_snapshots = []\<rparr>"

definition one_chain :: Config where
  "one_chain = sample_config\<lparr>rpc_urls := [(1, ''a'')]\<rparr>"

lemma one_chain_entries: "bank_entries one_chain = [(1, ''a'', hex_0x (replicate 20 1))]"
  by (simp add: bank_entries_def one_chain_def sample_config_def chain_entries_def)

lemma sample_word:
  "word_result (http_post (sample_env release_answer) n u (eth_call_body b d)) = Some (u256_to_be_bytes 1000)"
  by (simp add: sample_env_def release_answer_def eth_call_body_def rpc_body_def method_of_def word_result_def
      result_str_def jindex_def)

lemma queries_start_views:
  "is_chain_active queries_start 1" "\<not> is_chain_decommissioned queries_start 1" "sync_usd_cache queries_start = Map.empty"
  "fresh_entry queries_start a = None" "pool_snapshots queries_start = []"
  by (simp_all add: queries_start_def is_chain_active_def is_chain_decommissioned_def fresh_entry_def)

lemma sample_encoded:
  obtains d where "encode_balance_of sel (hex_0x (replicate 20 3)) = Some d"
  by (simp add: encode_balance_of_def hex_0x_def Let_def)

lemma sample_balance:
  assumes "sync_usd_cache s c = None"
  obtains t where "run_state (read_chain_balance (sample_env release_answer) c u b (hex_0x (replicate 20 3))) s =
    (Some \<lparr>cb_amount = 1000, cb_used_fallback = False\<rparr>, t)"
proof -
  obtain d where "encode_balance_of (selector (sample_env release_answer) ''balanceOf(address)'') (hex_0x (replicate 20 3)) = Some d"
    by (rule sample_encoded)
  then show ?thesis
    using that assms
    by (simp add: read_chain_balance_def resolve_sync_usd_def fetch_address_view_def fetch_balance_of_def run_post sample_word)
qed

lemma one_chain_distinct: "distinct (map fst (rpc_urls one_chain))"
  by (simp add: one_chain_def)

theorem withdrawal_routing_sound_witness:
  "\<exists>u b n k. (1, u, b) \<in> set (bank_entries one_chain) \<and> 0 < reserve_answer (sample_env release_answer) n u b \<and>
     balance_reading (sample_env release_answer) Map.empty (account_events queries_start) (hex_0x (replicate 20 3)) (1, u, b) (Some k) \<and>
     show_nat (unat (cb_amount k)) = show_nat 1000"
proof -
  let ?a = "hex_0x (replicate 20 3)"
  obtain s1 where "run_state (read_chain_balance (sample_env release_answer) 1 ''a'' (hex_0x (replicate 20 1)) ?a) queries_start =
      (Some \<lparr>cb_amount = 1000, cb_used_fallback = False\<rparr>, s1)"
    by (rule sample_balance [of queries_start 1]) (simp_all add: queries_start_views)
  note balance = this
  obtain entries t where run: "run_state (get_withdrawal_routing (sample_env release_answer) one_chain ?a) queries_start =
      (entries, t)" by (rule prod.exhaust)
  have "entries = [\<lparr>wr_chain_id = 1, wr_withdrawable_wei = show_nat 1000, wr_available = True, wr_reason = [],
      wr_balance_wei = show_nat 1000\<rparr>]"
    using run balance queries_start_views(1,2)
    by (simp add: get_withdrawal_routing_def gather_chain_inputs_def one_chain_entries read_chain_withdrawal_input_def
        fetch_reserve_depth_def fetch_u256_view_def run_post sample_word routing_entry_def)
  then show ?thesis
    using withdrawal_routing_sound [OF one_chain_distinct run, THEN conjunct1] by (fastforce simp: queries_start_views)
qed

theorem balance_answer_witness:
  "let E = sample_env release_answer; r = run_state (get_balance E one_chain ''0xab'') queries_start in
   (\<exists>k. balance_reading E Map.empty (account_events queries_start) ''0xab'' (1, ''a'', hex_0x (replicate 20 1)) k \<and>
      fst (fst r) = show_nat (min (\<Sum>k\<leftarrow>filter_map (\<lambda>r. r) [k]. unat (cb_amount k)) (2 ^ 256 - 1))) \<and>
   fst (run_state (get_balance E one_chain ''0xAB'') (snd r)) = fst r"
proof -
  obtain tx degraded t where run:
    "run_state (get_balance (sample_env release_answer) one_chain ''0xab'') queries_start = ((tx, degraded), t)"
    by (metis prod.collapse)
  have "to_lowercase ''0xAB'' = to_lowercase ''0xab''" by code_simp
  with balance_answer [OF one_chain_distinct queries_start_views(4) run] queries_start_views(2) show ?thesis
    by (auto simp: run one_chain_entries queries_start_views(3) list_all2_Cons1 Let_def)
qed

theorem unreachable_balance_zero_witness:
  "fst (run_state (get_balance ((sample_env release_answer)\<lparr>http_post := (\<lambda>n u b. Inl ''down'')\<rparr>) one_chain
     (sample_address CHR ''a'')) queries_start) = (''0'', False)"
proof -
  let ?E = "(sample_env release_answer)\<lparr>http_post := (\<lambda>n u b. Inl ''down'')\<rparr>"
  obtain r t where run: "run_state (get_balance ?E one_chain (sample_address CHR ''a'')) queries_start = (r, t)"
    by (rule prod.exhaust)
  from unreachable_balance_zero [OF _ _ queries_start_views(4) run] show ?thesis
    by (simp add: run queries_start_views)
qed

theorem activity_feed_witness:
  "length (fst (run_state (get_account_activity (sample_env release_answer) (sample_address CHR ''a'') 0) queries_start)) \<le> 1"
  using activity_feed [OF surjective_pairing, of "sample_env release_answer" queries_start "sample_address CHR ''a''" 0]
  by (simp add: sample_env_def)

theorem pool_depth_latest_witness:
  "fst (run_state (do { snapshot_chain (sample_env release_answer) (1, ''a'', ''b'');
     get_pool_depth (sample_env release_answer) 1 }) queries_start) = Inr (show_nat 1000)"
proof -
  have "fst (run_state (fetch_pool_depth (sample_env release_answer) ''a'' ''b''
      (selector (sample_env release_answer) ''poolDepth()'')) queries_start) = Some 1000"
    by (simp add: fetch_pool_depth_def fetch_u256_view_def run_post sample_word)
  from pool_depth_latest [OF _ _ this, of 1] show ?thesis by (simp add: queries_start_views sample_env_def)
qed

end
