(* ===== verification/Watcher.thy ===== *)
theory Watcher
  imports Effects Table Route
begin

text \<open>
  The watcher (\<open>watcher.rs\<close>) with its repository (\<open>db/watcher_repo.rs\<close>): the cache of
  \<open>HotPathInitiated\<close> events, the classification of each \<open>HotPathReleased\<close> event against it, the
  emergency \<open>pause()\<close> transaction and the table \<open>treasury.watcher_alerts\<close>. As in the hot path, a
  polling round spawns one verification task per parsed release, kept in \<open>released_tasks\<close>.
\<close>

section \<open>The table watcher\_alerts\<close>

record alert_row =
  al_id :: nat
  al_source_event_hash :: string
  al_alert_type :: string
  al_detail :: string

record watcher = signer +
  pauser_key :: "byte list option"
  pauser_address :: "Address option"
  initiated_cache :: "B256 \<rightharpoonup> InitiatedEvent"
  wi_last_block :: "ChainId \<rightharpoonup> u64"
  wr_last_block :: "ChainId \<rightharpoonup> u64"
  released_tasks :: "ReleasedEvent list"
  watcher_alerts :: "alert_row list"
  alert_seq :: nat

definition find_alert :: "'m watcher_scheme \<Rightarrow> string \<Rightarrow> alert_row option" where
  "find_alert s k = find_row al_source_event_hash k (watcher_alerts s)"

definition already_verified :: "env \<Rightarrow> string \<Rightarrow> ('m watcher_scheme, bool) state" where
  "already_verified E transfer_id_hex = do {
     r \<leftarrow> gets (\<lambda>s. find_alert s transfer_id_hex);
     up \<leftarrow> db E;
     ret (if up then r \<noteq> None else False)
   }"

text \<open>An insert takes the next value of the id sequence even when the row is a duplicate.\<close>

definition insert_alert :: "env \<Rightarrow> string \<Rightarrow> AlertType \<Rightarrow> string \<Rightarrow> ('m watcher_scheme, unit) state" where
  "insert_alert E transfer_id_hex alert_type detail = do {
     up \<leftarrow> db E;
     (if up then modify (\<lambda>s. s\<lparr>
        watcher_alerts := insert_row al_source_event_hash
          \<lparr>al_id = alert_seq s, al_source_event_hash = transfer_id_hex,
           al_alert_type = alert_type_str alert_type, al_detail = detail\<rparr> (watcher_alerts s),
        alert_seq := Suc (alert_seq s)\<rparr>)
      else ret ())
   }"

text \<open>Rows are stored in the order of their creation, so the newest come first in reverse.\<close>

definition get_alert_ids :: "env \<Rightarrow> nat \<Rightarrow> ('m watcher_scheme, string + string list) state" where
  "get_alert_ids E limit = do {
     rows \<leftarrow> gets watcher_alerts;
     up \<leftarrow> db E;
     ret (if up then Inr (map (\<lambda>r. show_nat (al_id r)) (take limit (rev rows))) else Inl ''database error'')
   }"

definition get_watcher_alerts :: "env \<Rightarrow> int \<Rightarrow> ('m watcher_scheme, Status + string list) state" where
  "get_watcher_alerts E limit = do {
     r \<leftarrow> get_alert_ids E (nat (min (max limit 1) 100));
     ret (map_sum internal id r)
   }"

section \<open>Event parsing\<close>

definition parse_initiated_event :: "RpcLog \<Rightarrow> ChainId \<Rightarrow> (B256 \<times> InitiatedEvent) option" where
  "parse_initiated_event log chain_id =
     (if length (topics log) < 3 then None
      else
        (case decode_hex (topics log ! 2) of
           None \<Rightarrow> None
         | Some recipient_raw \<Rightarrow>
             if length recipient_raw < 32 then None
             else
               (case decode_hex (log_data log) of
                  None \<Rightarrow> None
                | Some data \<Rightarrow>
                    if length data < 128 then None
                    else Some (slice 64 96 data,
                      \<lparr>ie_source_chain_id = chain_id, ie_source_tx_hash = transaction_hash log,
                       ie_recipient = slice 12 32 recipient_raw,
                       ie_amount = u256_from_be_bytes (slice 0 32 data)\<rparr>))))"

definition parse_released_event :: "RpcLog \<Rightarrow> ChainId \<Rightarrow> ReleasedEvent option" where
  "parse_released_event log chain_id =
     (if length (topics log) < 3 then None
      else
        (case decode_hex (topics log ! 1) of
           None \<Rightarrow> None
         | Some recipient_raw \<Rightarrow>
             if length recipient_raw < 32 then None
             else
               (case decode_hex (topics log ! 2) of
                  None \<Rightarrow> None
                | Some transfer_id_raw \<Rightarrow>
                    if length transfer_id_raw < 32 then None
                    else
                      (case decode_hex (log_data log) of
                         None \<Rightarrow> None
                       | Some data \<Rightarrow>
                           if length data < 32 then None
                           else Some
                             \<lparr>re_dest_chain_id = chain_id, re_dest_tx_hash = transaction_hash log,
                              re_transfer_id = slice 0 32 transfer_id_raw,
                              re_recipient = slice 12 32 recipient_raw,
                              re_amount = u256_from_be_bytes (slice 0 32 data)\<rparr>))))"

section \<open>Pausing\<close>

definition effective_rpc_urls :: "Config \<Rightarrow> (u64 \<times> string) list" where
  "effective_rpc_urls cfg = (case watcher_rpc_urls cfg of Some m \<Rightarrow> m | None \<Rightarrow> rpc_urls cfg)"

definition MAX_PAUSE_RETRIES :: nat where
  "MAX_PAUSE_RETRIES = 3"

definition PAUSE_GAS_LIMIT :: u64 where
  "PAUSE_GAS_LIMIT = 80000"

definition pause_call :: "env \<Rightarrow> byte list" where
  "pause_call E = selector E ''pause()''"

definition submit_pause_once ::
  "env \<Rightarrow> string \<Rightarrow> string \<Rightarrow> ChainId \<Rightarrow> byte list \<Rightarrow> Address
     \<Rightarrow> ('m watcher_scheme, TxError + string) state" where
  "submit_pause_once E rpc_url bank_addr chain_id key pauser_addr = do {
     t \<leftarrow> submit_tx E rpc_url bank_addr chain_id key pauser_addr PAUSE_GAS_LIMIT [] (pause_call E);
     (case t of
        Inl e \<Rightarrow> ret (Inl e)
      | Inr tx_hash \<Rightarrow> do {
          w \<leftarrow> wait_for_receipt E rpc_url tx_hash 60000;
          ret (case w of Inl e \<Rightarrow> Inl e | Inr _ \<Rightarrow> Inr tx_hash)
        })
   }"

definition pause_contract :: "env \<Rightarrow> Config \<Rightarrow> ReleasedEvent \<Rightarrow> ('m watcher_scheme, string option) state" where
  "pause_contract E cfg release = do {
     k \<leftarrow> gets pauser_key;
     a \<leftarrow> gets pauser_address;
     (case (k, a, map_of (effective_rpc_urls cfg) (re_dest_chain_id release),
              map_of (contract_addresses cfg) (re_dest_chain_id release)) of
        (Some key, Some pauser_addr, Some rpc_url, Some bank_addr) \<Rightarrow>
          retry_loop E (re_dest_chain_id release)
            (submit_pause_once E rpc_url bank_addr (re_dest_chain_id release) key pauser_addr)
            MAX_PAUSE_RETRIES 1000
      | _ \<Rightarrow> ret None)
   }"

section \<open>Verification of a release\<close>

definition classify :: "ReleasedEvent \<Rightarrow> InitiatedEvent option \<Rightarrow> AlertType" where
  "classify release initiated =
     (case initiated of Some i \<Rightarrow> verify_against release i | None \<Rightarrow> SourceNotFound)"

definition alert_detail ::
  "env \<Rightarrow> ReleasedEvent \<Rightarrow> InitiatedEvent option \<Rightarrow> string option \<Rightarrow> string" where
  "alert_detail E release initiated pause_tx =
     (let tx = (case pause_tx of Some t \<Rightarrow> [(''pause_tx_hash'', JStr t)] | None \<Rightarrow> []) in
      json_text E (JObj (
        (case initiated of
           Some i \<Rightarrow>
             [(''source_chain_id'', JNum (unat (ie_source_chain_id i))),
              (''dest_chain_id'', JNum (unat (re_dest_chain_id release))),
              (''source_tx_hash'', JStr (ie_source_tx_hash i)),
              (''dest_tx_hash'', JStr (re_dest_tx_hash release)),
              (''expected_recipient'', JStr (hex_0x (ie_recipient i))),
              (''actual_recipient'', JStr (hex_0x (re_recipient release))),
              (''expected_amount'', JStr (show_nat (unat (ie_amount i)))),
              (''actual_amount'', JStr (show_nat (unat (re_amount release))))]
         | None \<Rightarrow>
             [(''dest_chain_id'', JNum (unat (re_dest_chain_id release))),
              (''dest_tx_hash'', JStr (re_dest_tx_hash release)),
              (''actual_recipient'', JStr (hex_0x (re_recipient release))),
              (''actual_amount'', JStr (show_nat (unat (re_amount release))))]) @ tx)))"

definition verify_unrecorded :: "env \<Rightarrow> Config \<Rightarrow> ReleasedEvent \<Rightarrow> ('m watcher_scheme, unit) state" where
  "verify_unrecorded E cfg release = do {
     initiated \<leftarrow> gets (\<lambda>s. initiated_cache s (re_transfer_id release));
     pause_tx \<leftarrow> (if classify release initiated \<noteq> Verified then pause_contract E cfg release else ret None);
     insert_alert E (hex_0x (re_transfer_id release)) (classify release initiated)
       (alert_detail E release initiated pause_tx)
   }"

definition verify_release :: "env \<Rightarrow> Config \<Rightarrow> ReleasedEvent \<Rightarrow> ('m watcher_scheme, unit) state" where
  "verify_release E cfg release = do {
     seen \<leftarrow> already_verified E (hex_0x (re_transfer_id release));
     (if seen then ret () else verify_unrecorded E cfg release)
   }"

section \<open>Polling\<close>

definition cache_logs :: "RpcLog list \<Rightarrow> ChainId \<Rightarrow> (B256 \<rightharpoonup> InitiatedEvent) \<Rightarrow> (B256 \<rightharpoonup> InitiatedEvent)" where
  "cache_logs logs chain_id cache =
     fold (\<lambda>(event_id, event) c. c(event_id \<mapsto> event))
       (filter_map (\<lambda>log. parse_initiated_event log chain_id) logs) cache"

definition poll_initiated_chain ::
  "env \<Rightarrow> ChainId \<times> string \<times> string \<Rightarrow> ('m watcher_scheme, unit) state" where
  "poll_initiated_chain E entry = (case entry of (chain_id, rpc_url, bank_addr) \<Rightarrow> do {
     b \<leftarrow> fetch_block_number E rpc_url;
     (case b of
        None \<Rightarrow> ret ()
      | Some to_block \<Rightarrow> do {
          last_block \<leftarrow> gets wi_last_block;
          let scan_from = (case last_block chain_id of Some l \<Rightarrow> l | None \<Rightarrow> to_block);
          logs \<leftarrow> fetch_logs E rpc_url bank_addr
            (event_topic E ''HotPathInitiated(address,address,uint256,uint256,bytes32,uint256)'')
            (clamp_from scan_from to_block) to_block;
          modify (\<lambda>s. s\<lparr>initiated_cache := cache_logs logs chain_id (initiated_cache s)\<rparr>);
          modify (\<lambda>s. s\<lparr>wi_last_block := (wi_last_block s)(chain_id \<mapsto> to_block + 1)\<rparr>)
        })
   })"

definition poll_released_chain ::
  "env \<Rightarrow> ChainId \<times> string \<times> string \<Rightarrow> ('m watcher_scheme, unit) state" where
  "poll_released_chain E entry = (case entry of (chain_id, rpc_url, bank_addr) \<Rightarrow> do {
     b \<leftarrow> fetch_block_number E rpc_url;
     (case b of
        None \<Rightarrow> ret ()
      | Some to_block \<Rightarrow> do {
          last_block \<leftarrow> gets wr_last_block;
          let scan_from = (case last_block chain_id of Some l \<Rightarrow> l | None \<Rightarrow> to_block);
          logs \<leftarrow> fetch_logs E rpc_url bank_addr
            (event_topic E ''HotPathReleased(address,uint256,bytes32)'')
            (clamp_from scan_from to_block) to_block;
          modify (\<lambda>s. s\<lparr>released_tasks :=
            released_tasks s @ filter_map (\<lambda>log. parse_released_event log chain_id) logs\<rparr>);
          modify (\<lambda>s. s\<lparr>wr_last_block := (wr_last_block s)(chain_id \<mapsto> to_block + 1)\<rparr>)
        })
   })"

definition watched_chains :: "Config \<Rightarrow> (ChainId \<times> string \<times> string) list" where
  "watched_chains cfg = chain_entries (effective_rpc_urls cfg) (contract_addresses cfg)"

definition poll_initiated_round :: "env \<Rightarrow> Config \<Rightarrow> ('m watcher_scheme, unit) state" where
  "poll_initiated_round E cfg = for_each (poll_initiated_chain E) (watched_chains cfg)"

definition poll_released_round :: "env \<Rightarrow> Config \<Rightarrow> ('m watcher_scheme, unit) state" where
  "poll_released_round E cfg = for_each (poll_released_chain E) (watched_chains cfg)"

section \<open>Facts\<close>

lemma run_already_verified:
  "run_state (already_verified E k) s = (db_up E (tick s) \<and> find_alert s k \<noteq> None, tick_on E 0 s)"
  by (simp add: already_verified_def run_db)

interpretation alert_once:
  once_store "already_verified :: env \<Rightarrow> string \<Rightarrow> ('m watcher_scheme, bool) state" find_alert
  by unfold_locales (rule run_already_verified)

lemma watcher_tick [simp]:
  "find_alert (tick_on E d s) k = find_alert s k"
  "initiated_cache (tick_on E d s) = initiated_cache s"
  "pauser_key (tick_on E d s) = pauser_key s" "pauser_address (tick_on E d s) = pauser_address s"
  by (simp_all add: find_alert_def tick_on_def)

lemma insert_alert_calls [simp]: "calls (snd (run_state (insert_alert E k a d) s)) = calls s"
  by (simp add: insert_alert_def run_db)

definition is_pause :: "env \<Rightarrow> Config \<Rightarrow> ChainId \<Rightarrow> byte list \<Rightarrow> string \<times> json \<Rightarrow> bool" where
  "is_pause E cfg chain key c \<longleftrightarrow> (\<exists>rpc bank. map_of (effective_rpc_urls cfg) chain = Some rpc \<and>
     map_of (contract_addresses cfg) chain = Some bank \<and>
     signed_for E rpc bank chain key PAUSE_GAS_LIMIT [] (pause_call E) c)"

lemma submit_pause_emits:
  "emits (signed_for E u b c key PAUSE_GAS_LIMIT [] (pause_call E)) 1 (submit_pause_once E u b c key addr)"
  unfolding submit_pause_once_def
  by (intro emits_first emits_case emits_ret submit_tx_emits wait_emits emits_then)

lemma submit_pause_sends:
  assumes "can_submit E u b key addr"
  shows "sent s (signed_for E u b c key PAUSE_GAS_LIMIT [] (pause_call E))
    (snd (run_state (submit_pause_once E u b c key addr) s))"
proof -
  obtain r s1 where r: "run_state (submit_tx E u b c key addr PAUSE_GAS_LIMIT [] (pause_call E)) s = (r, s1)"
    by fastforce
  have s1: "sent s (signed_for E u b c key PAUSE_GAS_LIMIT [] (pause_call E)) s1"
    using submit_tx_sends [OF assms, of s c PAUSE_GAS_LIMIT "[]" "pause_call E"] r by simp
  show ?thesis
  proof (cases r)
    case (Inr h)
    from sent_adds [OF s1 emits_adds [OF wait_emits(1) [of "\<lambda>_. True" 0 E u h 60000] surjective_pairing]] Inr
    show ?thesis by (simp add: submit_pause_once_def r split_beta)
  qed (simp add: submit_pause_once_def r s1)
qed

lemma submit_pause_keeps: "keeps signer.more (submit_pause_once E u b c key addr)"
  unfolding submit_pause_once_def by (intro keeps)

lemma pause_contract_keeps: "keeps signer.more (pause_contract E cfg r)"
  unfolding pause_contract_def by (intro keeps submit_pause_keeps)

lemma pause_contract_adds:
  "adds s 3 (\<lambda>c. \<exists>key. pauser_key s = Some key \<and> is_pause E cfg (re_dest_chain_id r) key c)
     (snd (run_state (pause_contract E cfg r) s))"
proof (cases "(pauser_key s, pauser_address s, map_of (effective_rpc_urls cfg) (re_dest_chain_id r),
    map_of (contract_addresses cfg) (re_dest_chain_id r))")
  case (fields k a u b)
  show ?thesis
  proof (cases "k = None \<or> a = None \<or> u = None \<or> b = None")
    case True
    then show ?thesis using fields
      by (auto simp: pause_contract_def intro!: adds_refl split: option.split)
  next
    case False
    then obtain key addr rpc bank where f: "pauser_key s = Some key" "pauser_address s = Some addr"
      "map_of (effective_rpc_urls cfg) (re_dest_chain_id r) = Some rpc"
      "map_of (contract_addresses cfg) (re_dest_chain_id r) = Some bank" using fields by auto
    have "emits (signed_for E rpc bank (re_dest_chain_id r) key PAUSE_GAS_LIMIT [] (pause_call E)) 3
        (retry_loop E (re_dest_chain_id r)
          (submit_pause_once E rpc bank (re_dest_chain_id r) key addr) MAX_PAUSE_RETRIES 1000)"
      unfolding MAX_PAUSE_RETRIES_def by (rule retry_emits [OF submit_pause_emits])
    from adds_mono [OF emits_adds [OF this surjective_pairing], of 3
        "\<lambda>c. \<exists>key. pauser_key s = Some key \<and> is_pause E cfg (re_dest_chain_id r) key c" s] f
    show ?thesis by (simp add: pause_contract_def is_pause_def)
  qed
qed

lemma pause_contract_sends:
  assumes "pauser_key s = Some key" "pauser_address s = Some addr"
    "map_of (effective_rpc_urls cfg) (re_dest_chain_id r) = Some u"
    "map_of (contract_addresses cfg) (re_dest_chain_id r) = Some b" "can_submit E u b key addr"
  shows "sent s (is_pause E cfg (re_dest_chain_id r) key) (snd (run_state (pause_contract E cfg r) s))"
proof -
  have "sent s (signed_for E u b (re_dest_chain_id r) key PAUSE_GAS_LIMIT [] (pause_call E))
      (snd (run_state (pause_contract E cfg r) s))"
    using retry_sends [OF submit_pause_emits submit_pause_sends [OF assms(5)], of MAX_PAUSE_RETRIES] assms
    by (simp add: pause_contract_def MAX_PAUSE_RETRIES_def)
  then show ?thesis using assms(3,4) unfolding sent_def is_pause_def by blast
qed

lemma beyond_signer_watcher:
  "beyond_signer (watcher_alerts :: 'm watcher_scheme \<Rightarrow> _)"
  "beyond_signer (alert_seq :: 'm watcher_scheme \<Rightarrow> _)"
  unfolding beyond_signer_def
  subgoal by (intro allI impI, case_tac s, case_tac t, simp)
  subgoal by (intro allI impI, case_tac s, case_tac t, simp)
  done

lemma find_alert_insert:
  assumes "\<forall>n. db_up E n" "find_alert s k = None"
  shows "find_alert (snd (run_state (insert_alert E k a d) s)) j =
    (if j = k then Some \<lparr>al_id = alert_seq s, al_source_event_hash = k,
       al_alert_type = alert_type_str a, al_detail = d\<rparr> else find_alert s j)"
  using assms by (auto simp: insert_alert_def run_db find_alert_def find_row_insert_row tick_on_def
      split: option.split)

text \<open>
  C9. A release that the watcher has not recorded yet is classified and recorded, when the database is
  reachable throughout its verification and no other verification runs in between: its alert carries
  the verdict of comparing the release with the cached source event (\<open>SourceNotFound\<close> when there is none)
  and no other alert changes. (A failed insert is only logged, and leaves no alert.)
\<close>

theorem verify_release_records:
  assumes "\<forall>n. db_up E n" "find_alert s (hex_0x (re_transfer_id r)) = None"
  shows "\<exists>a. find_alert (snd (run_state (verify_release E cfg r) s)) (hex_0x (re_transfer_id r)) = Some a \<and>
      al_alert_type a = alert_type_str (classify r (initiated_cache s (re_transfer_id r))) \<and>
      (\<forall>k. k \<noteq> hex_0x (re_transfer_id r) \<longrightarrow>
        find_alert (snd (run_state (verify_release E cfg r) s)) k = find_alert s k)"
proof -
  let ?s1 = "tick_on E 0 s" and ?k = "hex_0x (re_transfer_id r)"
  let ?a = "classify r (initiated_cache s (re_transfer_id r))"
  have run: "run_state (verify_release E cfg r) s = run_state (verify_unrecorded E cfg r) ?s1"
    unfolding verify_release_def by (rule alert_once.otherwise_runs) (simp add: assms(2))
  obtain p s2 where p: "run_state (if ?a \<noteq> Verified then pause_contract E cfg r else ret None) ?s1 = (p, s2)"
    by fastforce
  have "keeps watcher_alerts (if ?a \<noteq> Verified then pause_contract E cfg r else ret None)"
    by (intro keeps_if keeps_ret keeps_beyond_signer [OF beyond_signer_watcher(1) pause_contract_keeps])
  from keepsD [OF this p] have f2: "find_alert s2 k = find_alert s k" for k
    by (simp add: find_alert_def tick_on_def)
  show ?thesis
    using find_alert_insert [OF assms(1), of s2 ?k ?a] assms(2) f2
    by (simp add: run verify_unrecorded_def p split_beta)
qed

lemma verify_release_calls:
  "calls (snd (run_state (verify_release E cfg r) s)) =
     (if (db_up E (tick s) \<and> find_alert s (hex_0x (re_transfer_id r)) \<noteq> None) \<or>
         classify r (initiated_cache s (re_transfer_id r)) = Verified
      then calls s else calls (snd (run_state (pause_contract E cfg r) (tick_on E 0 s))))"
  by (auto simp: verify_release_def run_already_verified verify_unrecorded_def split_beta)

text \<open>
  C24. The watcher touches a chain only to pause it: verifying a release sends nothing when the release
  matches its cached source event, or is already recorded and the database answers the query for it;
  otherwise, an outage at that query included, it sends at most three transactions, each of them the
  \<open>pause()\<close> call to the Bank of the release's destination chain, signed with the pauser key for that chain.
\<close>

theorem verify_release_only_pauses:
  "adds s 3 (\<lambda>c. classify r (initiated_cache s (re_transfer_id r)) \<noteq> Verified \<and>
       \<not> (db_up E (tick s) \<and> find_alert s (hex_0x (re_transfer_id r)) \<noteq> None) \<and>
       (\<exists>key. pauser_key s = Some key \<and> is_pause E cfg (re_dest_chain_id r) key c))
     (snd (run_state (verify_release E cfg r) s))"
  using pause_contract_adds [of "tick_on E 0 s" E cfg r]
  by (auto simp: adds_def verify_release_calls)

text \<open>
  C25. An anomaly is acted on: when the release differs from its cached source event or has none, its id
  has no alert yet, and the pauser key, the destination's node and its Bank address are configured and the
  node serves the pauser (nonce and gas price), then a \<open>pause()\<close> transaction for the destination
  chain is sent.
\<close>

theorem anomaly_pauses:
  assumes "classify r (initiated_cache s (re_transfer_id r)) \<noteq> Verified"
    "find_alert s (hex_0x (re_transfer_id r)) = None"
    "pauser_key s = Some key" "pauser_address s = Some addr"
    "map_of (effective_rpc_urls cfg) (re_dest_chain_id r) = Some u"
    "map_of (contract_addresses cfg) (re_dest_chain_id r) = Some b" "can_submit E u b key addr"
  shows "sent s (is_pause E cfg (re_dest_chain_id r) key) (snd (run_state (verify_release E cfg r) s))"
  using pause_contract_sends [of "tick_on E 0 s", OF _ _ assms(5-7)] assms(1-4)
  by (simp add: sent_def verify_release_calls)

text \<open>
  The cache is the watcher's only memory of source events, and it starts empty: until the
  initiation has been seen by this process, a release that agrees with its source event in every
  field is classified as \<open>SourceNotFound\<close> and its chain is paused.
\<close>

theorem restart_pauses_honest_release:
  assumes "initiated_cache s = Map.empty" "verify_against r i = Verified"
    "find_alert s (hex_0x (re_transfer_id r)) = None"
    "pauser_key s = Some key" "pauser_address s = Some addr"
    "map_of (effective_rpc_urls cfg) (re_dest_chain_id r) = Some u"
    "map_of (contract_addresses cfg) (re_dest_chain_id r) = Some b" "can_submit E u b key addr"
  shows "classify r (Some i) = Verified \<and>
    sent s (is_pause E cfg (re_dest_chain_id r) key) (snd (run_state (verify_release E cfg r) s))"
  using pause_contract_sends [of "tick_on E 0 s", OF _ _ assms(6-8)] assms(1-5)
  by (simp add: sent_def verify_release_calls classify_def)

lemma parse_released_log:
  assumes "length to = 20" "length event_hash = 32"
  shows "parse_released_event (released_log topic tx to event_hash amount) c =
    Some \<lparr>re_dest_chain_id = c, re_dest_tx_hash = tx, re_transfer_id = event_hash,
      re_recipient = to, re_amount = amount\<rparr>"
  using assms by (simp add: parse_released_event_def released_log_def slice_skip)

lemma parse_initiated_log:
  assumes "length sender = 20" "length to = 20" "length event_hash = 32"
  shows "parse_initiated_event (initiated_log topic tx sender to amount dest event_hash fee) c =
    Some (event_hash, \<lparr>ie_source_chain_id = c, ie_source_tx_hash = tx, ie_recipient = to, ie_amount = amount\<rparr>)"
  using assms by (simp add: parse_initiated_event_def initiated_log_def slice_skip)

section \<open>Concrete runs\<close>

definition sample_release :: ReleasedEvent where
  "sample_release =
     \<lparr>re_dest_chain_id = 2, re_dest_tx_hash = ''0xbb'', re_transfer_id = replicate 32 7,
      re_recipient = replicate 20 3, re_amount = 500\<rparr>"

definition watcher_start :: "(B256 \<rightharpoonup> InitiatedEvent) \<Rightarrow> watcher" where
  "watcher_start cache =
     \<lparr>now_ms = 0, tick = 0, calls = [], nonce_cache = Map.empty, pauser_key = Some [1],
      pauser_address = Some (replicate 20 5), initiated_cache = cache, wi_last_block = Map.empty,
      wr_last_block = Map.empty, released_tasks = [], watcher_alerts = [], alert_seq = 1\<rparr>"

lemma sample_bank_2:
  "map_of (effective_rpc_urls sample_config) (re_dest_chain_id sample_release) = Some ''b''"
  "map_of (contract_addresses sample_config) (re_dest_chain_id sample_release) = Some (hex_0x (replicate 20 2))"
  by (simp_all add: effective_rpc_urls_def sample_config_def sample_release_def)

theorem verify_release_records_witness:
  "\<exists>a. find_alert (snd (run_state (verify_release (sample_env quantity_answer) sample_config sample_release)
      (watcher_start Map.empty))) (hex_0x (re_transfer_id sample_release)) = Some a \<and>
    al_alert_type a = ''SourceNotFound''"
  using verify_release_records [of "sample_env quantity_answer" "watcher_start Map.empty" sample_release sample_config]
  by (auto simp: sample_env_def watcher_start_def find_alert_def find_row_def classify_def)

theorem anomaly_pauses_witness:
  "sent (watcher_start Map.empty) (is_pause (sample_env quantity_answer) sample_config
      (re_dest_chain_id sample_release) [1])
    (snd (run_state (verify_release (sample_env quantity_answer) sample_config sample_release) (watcher_start Map.empty)))"
  by (rule anomaly_pauses [OF _ _ _ _ sample_bank_2 sample_can_submit])
    (simp_all add: watcher_start_def classify_def find_alert_def find_row_def)

theorem restart_pauses_honest_release_witness:
  "classify sample_release (Some \<lparr>ie_source_chain_id = 1, ie_source_tx_hash = ''0xaa'',
      ie_recipient = replicate 20 3, ie_amount = 500\<rparr>) = Verified \<and>
   sent (watcher_start Map.empty) (is_pause (sample_env quantity_answer) sample_config
      (re_dest_chain_id sample_release) [1])
    (snd (run_state (verify_release (sample_env quantity_answer) sample_config sample_release) (watcher_start Map.empty)))"
  by (rule restart_pauses_honest_release [OF _ _ _ _ _ sample_bank_2 sample_can_submit])
    (simp_all add: watcher_start_def verify_against_def sample_release_def find_alert_def find_row_def)

end
