(* ===== verification/Rebalance.thy ===== *)
theory Rebalance
  imports Prelude
begin

text \<open>
  The pure rebalancing algorithm of \<open>services/treasury/src/domain/rebalance.rs\<close>, and the chunking
  of one operation by the on-chain cap (\<open>split_amount_by_cap\<close> of \<open>cold_path.rs\<close>).

  The Rust loop walks two vectors with the indices \<open>si\<close> and \<open>di\<close> and keeps the remaining amounts
  in two further vectors. Entries before the indices are never read again, so the model passes
  the rest of each vector, paired with its remaining amounts, as two lists: the head is the entry
  at the index, advancing an index drops the head. The loop need not end (a cap of zero makes no
  progress), so it is a \<^theory_text>\<open>partial_function (option)\<close> and \<open>None\<close> is divergence.
\<close>

type_synonym pool_delta = "u64 \<times> u256"
type_synonym rebalance_op = "u64 \<times> u64 \<times> u256"

section \<open>Definitions\<close>

definition sort_desc :: "pool_delta list \<Rightarrow> pool_delta list" where
  "sort_desc xs = sort_key (\<lambda>p. 2 ^ 256 - 1 - unat (snd p)) xs"

definition capped :: "u256 option \<Rightarrow> u256 \<Rightarrow> u256" where
  "capped max_per_op amount =
     (case max_per_op of None \<Rightarrow> amount | Some cap \<Rightarrow> min amount cap)"

definition advance :: "u64 \<Rightarrow> u256 \<Rightarrow> pool_delta list \<Rightarrow> pool_delta list" where
  "advance c rem rest = (if rem = 0 then rest else (c, rem) # rest)"

partial_function (option) rebalance_loop ::
  "u256 option \<Rightarrow> pool_delta list \<Rightarrow> pool_delta list \<Rightarrow> rebalance_op list
     \<Rightarrow> rebalance_op list option" where
  "rebalance_loop max_per_op sur def ops =
     (case sur of
        [] \<Rightarrow> Some ops
      | (s, sr) # sur' \<Rightarrow>
          (case def of
             [] \<Rightarrow> Some ops
           | (d, dr) # def' \<Rightarrow>
               if sr = 0 then rebalance_loop max_per_op sur' def ops
               else if dr = 0 then rebalance_loop max_per_op sur def' ops
               else (let amount = capped max_per_op (min sr dr) in
                 rebalance_loop max_per_op
                   (advance s (saturating_sub sr amount) sur')
                   (advance d (saturating_sub dr amount) def')
                   (if amount \<noteq> 0 then ops @ [(s, d, amount)] else ops))))"

definition compute_rebalance_ops ::
  "pool_delta list \<Rightarrow> pool_delta list \<Rightarrow> u256 option \<Rightarrow> rebalance_op list option" where
  "compute_rebalance_ops surpluses deficits max_per_op =
     rebalance_loop max_per_op (sort_desc surpluses) (sort_desc deficits) []"

datatype RebalanceOpDecision = Submit | SkipInsufficientDepth | SkipOpInFlight

definition evaluate_rebalance_op :: "u256 \<Rightarrow> u256 \<Rightarrow> bool \<Rightarrow> RebalanceOpDecision" where
  "evaluate_rebalance_op live_depth required_amount op_in_flight =
     (if live_depth < required_amount then SkipInsufficientDepth
      else if op_in_flight then SkipOpInFlight
      else Submit)"

function split_loop :: "u256 \<Rightarrow> u256 \<Rightarrow> u256 list" where
  "split_loop remaining cap =
     (if 0 < remaining \<and> 0 < cap
      then (let chunk = min remaining cap in chunk # split_loop (remaining - chunk) cap)
      else [])"
  by pat_completeness auto
termination
proof (relation "measure (\<lambda>(remaining, cap). unat remaining)", goal_cases)
  case 1
  show ?case by simp
next
  case (2 remaining cap chunk)
  then show ?case
    by (auto simp: unat_sub word_less_nat_alt word_nat)
qed

declare split_loop.simps [simp del]

definition split_amount_by_cap :: "u256 \<Rightarrow> u256 \<Rightarrow> u256 list" where
  "split_amount_by_cap amount cap =
     (if amount = 0 \<or> cap = 0 then [] else split_loop amount cap)"

section \<open>What a plan moves\<close>

text \<open>Amounts are read as natural numbers, so that sums do not wrap.\<close>

definition total :: "pool_delta list \<Rightarrow> nat" where
  "total xs = (\<Sum>p\<leftarrow>xs. unat (snd p))"

definition avail :: "u64 \<Rightarrow> pool_delta list \<Rightarrow> nat" where
  "avail c xs = (\<Sum>p\<leftarrow>xs. if fst p = c then unat (snd p) else 0)"

definition moved :: "rebalance_op list \<Rightarrow> nat" where
  "moved ops = (\<Sum>p\<leftarrow>ops. unat (snd (snd p)))"

definition moved_from :: "u64 \<Rightarrow> rebalance_op list \<Rightarrow> nat" where
  "moved_from c ops = (\<Sum>p\<leftarrow>ops. if fst p = c then unat (snd (snd p)) else 0)"

definition moved_to :: "u64 \<Rightarrow> rebalance_op list \<Rightarrow> nat" where
  "moved_to c ops = (\<Sum>p\<leftarrow>ops. if fst (snd p) = c then unat (snd (snd p)) else 0)"

definition op_ok :: "u256 option \<Rightarrow> u64 set \<Rightarrow> u64 set \<Rightarrow> rebalance_op \<Rightarrow> bool" where
  "op_ok cap S D = (\<lambda>(s, d, a).
     0 < a \<and> (case cap of None \<Rightarrow> True | Some m \<Rightarrow> a \<le> m) \<and> s \<in> S \<and> d \<in> D)"

definition plan_ok ::
  "u256 option \<Rightarrow> pool_delta list \<Rightarrow> pool_delta list \<Rightarrow> rebalance_op list \<Rightarrow> bool" where
  "plan_ok cap sur def ops \<longleftrightarrow>
     list_all (op_ok cap (fst ` set sur) (fst ` set def)) ops \<and>
     (\<forall>c. moved_from c ops \<le> avail c sur) \<and>
     (\<forall>c. moved_to c ops \<le> avail c def) \<and>
     moved ops = min (total sur) (total def)"

lemmas plan_sums = total_def avail_def moved_def moved_from_def moved_to_def

lemma plan_sums_simps [simp]:
  "total [] = 0" "total (p # xs) = unat (snd p) + total xs"
  "avail c [] = 0" "avail c (p # xs) = (if fst p = c then unat (snd p) else 0) + avail c xs"
  "moved [] = 0" "moved (q # ops) = unat (snd (snd q)) + moved ops"
  "moved_from c [] = 0"
  "moved_from c (q # ops) = (if fst q = c then unat (snd (snd q)) else 0) + moved_from c ops"
  "moved_to c [] = 0"
  "moved_to c (q # ops) = (if fst (snd q) = c then unat (snd (snd q)) else 0) + moved_to c ops"
  by (simp_all add: plan_sums)

section \<open>Sorting keeps the amounts\<close>

lemma mset_sort_desc [simp]: "mset (sort_desc xs) = mset xs"
  by (simp add: sort_desc_def)

lemma set_sort_desc [simp]: "set (sort_desc xs) = set xs"
  by (simp add: sort_desc_def)

lemma sum_list_sort_desc: "(\<Sum>p\<leftarrow>sort_desc xs. f p) = (\<Sum>p\<leftarrow>xs. f p :: nat)"
  by (metis mset_sort_desc mset_map sum_mset_sum_list)

lemma total_sort_desc [simp]: "total (sort_desc xs) = total xs"
  and avail_sort_desc [simp]: "avail c (sort_desc xs) = avail c xs"
  by (simp_all only: total_def avail_def sum_list_sort_desc)

lemma plan_ok_sort_desc: "plan_ok cap (sort_desc sur) (sort_desc def) ops = plan_ok cap sur def ops"
  by (simp add: plan_ok_def)

lemma sort_desc_descending: "sorted_wrt (\<lambda>p q. snd q \<le> snd p) (sort_desc xs)"
proof -
  have "sorted (map (\<lambda>p. 2 ^ 256 - 1 - unat (snd p)) (sort_desc xs))"
    by (simp add: sort_desc_def)
  moreover have "snd q \<le> snd p" if "2 ^ 256 - 1 - unat (snd p) \<le> 2 ^ 256 - 1 - unat (snd q)"
    for p q :: pool_delta
    using that unat_bound [of "snd p"] unat_bound [of "snd q"]
    by (simp add: word_le_nat_alt)
  ultimately show ?thesis
    by (auto simp: sorted_map intro: sorted_wrt_mono_rel [rotated])
qed

section \<open>The loop\<close>

lemma capped_bounds:
  assumes "cap \<noteq> Some 0" and "0 < x"
  shows "0 < capped cap x" and "capped cap x \<le> x"
    and "case cap of None \<Rightarrow> True | Some m \<Rightarrow> capped cap x \<le> m"
  using assms by (auto simp: capped_def word_gt_0 split: option.splits)

lemma avail_advance [simp]:
  "avail c (advance d r xs) = (if d = c then unat r else 0) + avail c xs"
  by (simp add: advance_def)

lemma total_advance [simp]: "total (advance d r xs) = unat r + total xs"
  by (simp add: advance_def)

lemma fst_set_advance: "fst ` set (advance d r xs) \<subseteq> insert d (fst ` set xs)"
  by (auto simp: advance_def)

lemma length_advance: "length (advance d r xs) \<le> Suc (length xs)"
  by (simp add: advance_def)


lemma op_ok_mono:
  "list_all (op_ok cap S D) ops \<Longrightarrow> S \<subseteq> S' \<Longrightarrow> D \<subseteq> D' \<Longrightarrow> list_all (op_ok cap S' D') ops"
  by (auto simp: op_ok_def list_all_iff)

text \<open>One round of the loop: the operation it emits and what is left on both sides.\<close>

lemma plan_ok_round:
  assumes new: "plan_ok cap (advance s (saturating_sub sr a) sur) (advance d (saturating_sub dr a) def) ops"
    and a: "0 < a" "a \<le> sr" "a \<le> dr" "case cap of None \<Rightarrow> True | Some m \<Rightarrow> a \<le> m"
  shows "plan_ok cap ((s, sr) # sur) ((d, dr) # def) ((s, d, a) # ops)"
proof -
  have le: "unat a \<le> unat sr" "unat a \<le> unat dr"
    using a by (simp_all add: word_le_nat_alt)
  have mem: "list_all (op_ok cap (fst ` set ((s, sr) # sur)) (fst ` set ((d, dr) # def))) ops"
  proof (rule op_ok_mono)
    show "list_all (op_ok cap (fst ` set (advance s (saturating_sub sr a) sur))
        (fst ` set (advance d (saturating_sub dr a) def))) ops"
      using new by (simp add: plan_ok_def)
  qed (use fst_set_advance in auto)
  have out_le: "moved_from c ((s, d, a) # ops) \<le> avail c ((s, sr) # sur)" for c
  proof -
    have "moved_from c ops \<le> avail c (advance s (saturating_sub sr a) sur)"
      using new by (simp add: plan_ok_def del: avail_advance)
    then show ?thesis using le by (simp add: word_nat split: if_splits)
  qed
  have in_le: "moved_to c ((s, d, a) # ops) \<le> avail c ((d, dr) # def)" for c
  proof -
    have "moved_to c ops \<le> avail c (advance d (saturating_sub dr a) def)"
      using new by (simp add: plan_ok_def del: avail_advance)
    then show ?thesis using le by (simp add: word_nat split: if_splits)
  qed
  have "moved ((s, d, a) # ops) = min (total ((s, sr) # sur)) (total ((d, dr) # def))"
    using new le by (simp add: plan_ok_def word_nat)
  with mem out_le in_le a show ?thesis
    by (simp add: plan_ok_def op_ok_def)
qed

lemma plan_ok_skip:
  "plan_ok cap sur def ops \<Longrightarrow> plan_ok cap ((s, 0) # sur) def ops"
  "plan_ok cap sur def ops \<Longrightarrow> plan_ok cap sur ((d, 0) # def) ops"
  by (auto simp: plan_ok_def elim: op_ok_mono)

lemma plan_ok_Nil: "plan_ok cap [] def []" "plan_ok cap sur [] []"
  by (simp_all add: plan_ok_def)

lemma rebalance_loop_simps [simp]:
  "rebalance_loop cap [] def ops = Some ops"
  "rebalance_loop cap sur [] ops = Some ops"
  "rebalance_loop cap ((s, 0) # sur) (q # def) ops = rebalance_loop cap sur (q # def) ops"
  "sr \<noteq> 0 \<Longrightarrow> rebalance_loop cap ((s, sr) # sur) ((d, 0) # def) ops =
     rebalance_loop cap ((s, sr) # sur) def ops"
  by (subst rebalance_loop.simps, auto split: list.split)+

lemma rebalance_loop_round:
  "sr \<noteq> 0 \<Longrightarrow> dr \<noteq> 0 \<Longrightarrow> capped cap (min sr dr) = a \<Longrightarrow>
     rebalance_loop cap ((s, sr) # sur) ((d, dr) # def) ops =
       rebalance_loop cap (advance s (saturating_sub sr a) sur) (advance d (saturating_sub dr a) def)
         (if a \<noteq> 0 then ops @ [(s, d, a)] else ops)"
  by (subst rebalance_loop.simps) (simp add: Let_def)

lemma rebalance_loop_total:
  assumes "cap \<noteq> Some 0"
  shows "\<exists>new. rebalance_loop cap sur def ops = Some (ops @ new) \<and> plan_ok cap sur def new"
proof (induction "total sur + length sur + total def + length def" arbitrary: sur def ops rule: less_induct)
  case less
  show ?case
  proof (cases sur)
    case Nil
    then show ?thesis by (simp add: plan_ok_Nil)
  next
    case (Cons p sur')
    obtain s sr where sur: "sur = (s, sr) # sur'" using Cons by (cases p) simp
    show ?thesis
    proof (cases "def")
      case Nil
      then show ?thesis by (simp add: plan_ok_Nil)
    next
      case (Cons q def')
      obtain d dr where "def": "def = (d, dr) # def'" using Cons by (cases q) simp
      consider "sr = 0" | "sr \<noteq> 0" "dr = 0" | "sr \<noteq> 0" "dr \<noteq> 0" by blast
      then show ?thesis
      proof cases
        case 1
        from less [of sur' "def" ops] obtain new where
          "rebalance_loop cap sur' def ops = Some (ops @ new)" "plan_ok cap sur' def new"
          by (auto simp: sur)
        with 1 show ?thesis
          by (auto simp: sur "def" intro: plan_ok_skip)
      next
        case 2
        from less [of sur def' ops] obtain new where
          "rebalance_loop cap sur def' ops = Some (ops @ new)" "plan_ok cap sur def' new"
          by (auto simp: "def")
        with 2 show ?thesis
          by (auto simp: sur "def" intro: plan_ok_skip)
      next
        case 3
        define a where "a = capped cap (min sr dr)"
        have "0 < min sr dr" using 3 by (simp add: word_gt_0)
        note b = capped_bounds [OF assms this, folded a_def]
        have le: "a \<le> sr" "a \<le> dr" using b(2) by auto
        have pos: "0 < unat a" using b(1) by (simp add: word_less_nat_alt)
        have nat_le: "unat a \<le> unat sr" "unat a \<le> unat dr"
          using le by (simp_all add: word_le_nat_alt)
        let ?sur = "advance s (saturating_sub sr a) sur'"
        let ?def = "advance d (saturating_sub dr a) def'"
        have "total ?sur + length ?sur + total ?def + length ?def
            < total sur + length sur + total def + length def"
          using pos nat_le length_advance [of s "saturating_sub sr a" sur']
            length_advance [of d "saturating_sub dr a" def']
          by (simp add: sur "def" word_nat)
        from less [OF this, of "ops @ [(s, d, a)]"] obtain new where
          run: "rebalance_loop cap ?sur ?def (ops @ [(s, d, a)]) = Some (ops @ [(s, d, a)] @ new)"
          and ok: "plan_ok cap ?sur ?def new" by auto
        have "rebalance_loop cap sur def ops = Some (ops @ (s, d, a) # new)"
          using 3 b(1) run
          by (simp add: rebalance_loop_round [OF _ _ a_def [symmetric]] sur "def" word_gt_0)
        moreover have "plan_ok cap sur def ((s, d, a) # new)"
          unfolding sur "def" using ok b(1) le b(3) by (rule plan_ok_round)
        ultimately show ?thesis by blast
      qed
    qed
  qed
qed

lemma rebalance_loop_stuck:
  assumes "rebalance_loop cap sur def ops = Some res"
  shows "cap = Some 0 \<longrightarrow> sur = (s, sr) # sur' \<longrightarrow> def = (d, dr) # def' \<longrightarrow>
    sr \<noteq> 0 \<longrightarrow> dr = 0"
proof (rule rebalance_loop.raw_induct [where P = "\<lambda>cap sur def ops res.
    cap = Some 0 \<longrightarrow> sur = (s, sr) # sur' \<longrightarrow> def = (d, dr) # def' \<longrightarrow> sr \<noteq> 0 \<longrightarrow> dr = 0",
    OF _ assms], goal_cases)
  case (1 loop cap sur "def" ops res)
  show ?case
  proof (intro impI, rule ccontr)
    assume *: "cap = Some 0" "sur = (s, sr) # sur'" "def = (d, dr) # def'" "sr \<noteq> 0" "dr \<noteq> 0"
    then have "loop cap sur def ops = Some res"
      using 1(2) by (simp add: capped_def advance_def)
    from 1(1) [OF this] * show False by simp
  qed
qed

lemma compute_rebalance_ops_plan:
  assumes "max_per_op \<noteq> Some 0"
  shows "\<exists>ops. compute_rebalance_ops surpluses deficits max_per_op = Some ops \<and>
    plan_ok max_per_op surpluses deficits ops"
proof -
  from rebalance_loop_total [OF assms, of "sort_desc surpluses" "sort_desc deficits" "[]"]
  show ?thesis
    by (simp add: compute_rebalance_ops_def plan_ok_sort_desc)
qed

lemma compute_rebalance_ops_stuck:
  assumes "\<exists>p \<in> set surpluses. snd p \<noteq> 0" and "\<exists>q \<in> set deficits. snd q \<noteq> 0"
  shows "compute_rebalance_ops surpluses deficits (Some 0) = None"
proof -
  have head: "\<exists>c r rest. sort_desc xs = (c, r) # rest \<and> r \<noteq> 0" if "\<exists>p \<in> set xs. snd p \<noteq> 0" for xs
  proof -
    from that obtain p where p: "p \<in> set (sort_desc xs)" "snd p \<noteq> 0" by auto
    then obtain c r rest where e: "sort_desc xs = (c, r) # rest"
      by (cases "sort_desc xs") auto
    with p sort_desc_descending [of xs] have "snd p \<le> r" by auto
    with p(2) have "r \<noteq> 0" by auto
    with e show ?thesis by blast
  qed
  from head [OF assms(1)] head [OF assms(2)] obtain s sr sur' d dr def' where
    "sort_desc surpluses = (s, sr) # sur'" "sr \<noteq> 0" "sort_desc deficits = (d, dr) # def'" "dr \<noteq> 0"
    by blast
  then show ?thesis
    using rebalance_loop_stuck [of "Some 0" "sort_desc surpluses" "sort_desc deficits" "[]"]
    by (cases "rebalance_loop (Some 0) (sort_desc surpluses) (sort_desc deficits) []")
      (auto simp: compute_rebalance_ops_def)
qed

section \<open>Properties\<close>

text \<open>
  C10. The rebalancing algorithm returns whenever the per-operation cap is not zero, and the plan
  it returns is right: every operation moves a positive amount within the cap from a surplus
  chain to a deficit chain, no chain sends more than its surplus or receives more than its
  deficit, and the plan as a whole moves exactly the smaller of the two totals.
\<close>

theorem compute_rebalance_ops_correct:
  assumes "max_per_op \<noteq> Some 0"
  shows "\<exists>ops. compute_rebalance_ops surpluses deficits max_per_op = Some ops \<and>
    plan_ok max_per_op surpluses deficits ops"
  using assms by (rule compute_rebalance_ops_plan)

theorem compute_rebalance_ops_correct_witness:
  "Some 200 \<noteq> Some (0 :: u256) \<and>
   (\<exists>ops. compute_rebalance_ops [(1, 500)] [(2, 500)] (Some 200) = Some ops \<and>
     plan_ok (Some 200) [(1, 500)] [(2, 500)] ops \<and> moved ops = 500)"
proof -
  have h: "Some 200 \<noteq> Some (0 :: u256)" by simp
  from compute_rebalance_ops_correct [OF h, of "[(1, 500)]" "[(2, 500)]"] h show ?thesis
    by (auto simp: plan_ok_def)
qed

text \<open>
  A cap of zero (\<open>COLD_PATH_MAX_WEI=0\<close>, \<open>RESERVE_PATH_MAX_WEI=0\<close>) makes the algorithm run
  forever as soon as some chain has a surplus and some chain a deficit.
\<close>

theorem compute_rebalance_ops_zero_cap_diverges:
  assumes "\<exists>p \<in> set surpluses. snd p \<noteq> 0" and "\<exists>q \<in> set deficits. snd q \<noteq> 0"
  shows "compute_rebalance_ops surpluses deficits (Some 0) = None"
  using assms by (rule compute_rebalance_ops_stuck)

theorem compute_rebalance_ops_zero_cap_diverges_witness:
  "compute_rebalance_ops [(1, 267)] [(3, 233), (2, 34)] (Some 0) = None"
  by (rule compute_rebalance_ops_zero_cap_diverges) simp_all

lemma split_loop_0 [simp]: "split_loop 0 cap = []" "split_loop r 0 = []"
  by (subst split_loop.simps, simp)+

lemma split_loop_step:
  "r \<noteq> 0 \<Longrightarrow> cap \<noteq> 0 \<Longrightarrow> split_loop r cap = min r cap # split_loop (r - min r cap) cap"
  by (subst split_loop.simps) (simp add: word_gt_0 Let_def)

lemma split_loop_sum:
  "0 < cap \<Longrightarrow> (\<Sum>c\<leftarrow>split_loop remaining cap. unat c) = unat remaining"
proof (induction remaining cap rule: split_loop.induct)
  case (1 remaining cap)
  show ?case
  proof (cases "remaining = 0")
    case False
    have "unat (remaining - min remaining cap) = unat remaining - unat (min remaining cap)"
      by (simp add: unat_sub)
    moreover have "unat (min remaining cap) \<le> unat remaining" by (simp add: word_nat)
    ultimately show ?thesis
      using 1 False by (simp add: split_loop_step word_gt_0)
  qed simp
qed

lemma split_loop_chunks: "\<forall>c \<in> set (split_loop remaining cap). 0 < c \<and> c \<le> cap"
proof (induction remaining cap rule: split_loop.induct)
  case (1 remaining cap)
  show ?case
  proof (cases "remaining = 0 \<or> cap = 0")
    case False
    then have pos: "remaining \<noteq> 0" "cap \<noteq> 0" by auto
    with 1 have "\<forall>c \<in> set (split_loop (remaining - min remaining cap) cap). 0 < c \<and> c \<le> cap"
      by (simp add: word_gt_0)
    with pos show ?thesis
      by (simp add: split_loop_step [OF pos] word_gt_0)
  qed auto
qed

lemma split_chunk:
  assumes "c \<in> set (split_amount_by_cap amount cap)"
  shows "0 < c \<and> c \<le> cap \<and> c \<le> amount"
proof -
  have pos: "0 < cap" and mem: "c \<in> set (split_loop amount cap)"
    using assms by (auto simp: split_amount_by_cap_def word_gt_0 split: if_splits)
  have "unat c \<le> unat amount"
    using member_le_sum_list [of "unat c" "map unat (split_loop amount cap)"] mem split_loop_sum [OF pos]
    by auto
  then show ?thesis using split_loop_chunks mem by (auto simp: word_le_nat_alt)
qed

lemma split_loop_length:
  "0 < cap \<Longrightarrow> length (split_loop remaining cap) * unat cap < unat remaining + unat cap"
proof (induction remaining cap rule: split_loop.induct)
  case (1 remaining cap)
  have pos: "0 < unat cap" using 1 by (simp add: word_less_nat_alt)
  show ?case
  proof (cases "cap < remaining")
    case True
    then have lt: "0 < remaining" "min remaining cap = cap" "unat (remaining - cap) = unat remaining - unat cap"
        "unat cap < unat remaining"
      by (auto simp: word_less_nat_alt unat_sub word_le_nat_alt min_def)
    with 1 have "length (split_loop (remaining - cap) cap) * unat cap < unat (remaining - cap) + unat cap"
      by simp
    with lt 1 show ?thesis by (simp add: split_loop_step word_gt_0)
  next
    case False
    then have m: "min remaining cap = remaining" by (simp add: min_def not_less)
    show ?thesis
    proof (cases "remaining = 0")
      case False
      with m pos 1 show ?thesis
        by (simp add: split_loop_step word_gt_0 unat_gt_0)
    qed (use pos in simp)
  qed
qed

text \<open>
  C31. Splitting an operation by the on-chain cap loses nothing: for a non-zero cap the chunks add
  up to the amount, each is positive and within the cap, and there are as few as possible.
\<close>

theorem split_amount_by_cap_correct:
  assumes "cap \<noteq> 0"
  shows "(\<Sum>c\<leftarrow>split_amount_by_cap amount cap. unat c) = unat amount \<and>
    (\<forall>c \<in> set (split_amount_by_cap amount cap). 0 < c \<and> c \<le> cap) \<and>
    length (split_amount_by_cap amount cap) = (unat amount + unat cap - 1) div unat cap"
proof -
  have pos: "0 < cap" "0 < unat cap" using assms by (simp_all add: word_gt_0 unat_gt_0)
  let ?xs = "split_amount_by_cap amount cap"
  have sum: "(\<Sum>c\<leftarrow>?xs. unat c) = unat amount"
    using split_loop_sum [OF pos(1), of amount] assms by (simp add: split_amount_by_cap_def)
  have chunks: "\<forall>c \<in> set ?xs. 0 < c \<and> c \<le> cap"
    using split_loop_chunks by (simp add: split_amount_by_cap_def)
  have "(\<Sum>c\<leftarrow>?xs. unat c) \<le> (\<Sum>c\<leftarrow>?xs. unat cap)"
    using chunks by (intro sum_list_mono) (auto simp: word_le_nat_alt)
  then have lower: "unat amount \<le> length ?xs * unat cap"
    using sum by (simp add: sum_list_triv)
  have upper: "length ?xs * unat cap < unat amount + unat cap"
    using split_loop_length [OF pos(1), of amount] pos(2) by (simp add: split_amount_by_cap_def)
  have "(unat amount + unat cap - 1) div unat cap = length ?xs"
    using lower upper pos(2) by (intro div_nat_eqI) (simp_all add: algebra_simps)
  with sum chunks show ?thesis by simp
qed

theorem split_amount_by_cap_correct_witness:
  "(200 :: u256) \<noteq> 0 \<and> (\<Sum>c\<leftarrow>split_amount_by_cap 500 200. unat c) = 500 \<and>
    length (split_amount_by_cap 500 200) = 3"
proof -
  have h: "(200 :: u256) \<noteq> 0" by simp
  from split_amount_by_cap_correct [OF h, of 500] h show ?thesis by simp
qed

end
