(* ===== verification/Planner.thy ===== *)
theory Planner
  imports Route Rebalance
begin

text \<open>
  What the planning cycles of the cold path and the reserve path share: the choice of the chains,
  the depth queries, and the split of the depths into surpluses and deficits around a target. The
  two modules spell these steps out separately (\<open>run_rebalance_cycle\<close> of \<open>cold_path.rs\<close> and
  \<open>run_planner_cycle\<close> of \<open>reserve_path.rs\<close>); where they differ, the module's own theory has it.

  The depths are kept in the order of the queries; a walk over the hash map \<open>depths\<close> visits them in
  the order \<open>hash_order E\<close> gives.
\<close>

section \<open>Definitions\<close>

type_synonym depths = "(u64 \<times> u256) list"

definition eligible_chains ::
  "Config \<Rightarrow> ChainId set \<Rightarrow> ChainId set \<Rightarrow> (ChainId \<times> string \<times> string) list" where
  "eligible_chains cfg active decommissioned =
     filter_map (\<lambda>(chain_id, rpc_url).
       if chain_id \<notin> active \<or> chain_id \<in> decommissioned then None
       else map_option (\<lambda>addr. (chain_id, rpc_url, addr)) (map_of (contract_addresses cfg) chain_id))
       (rpc_urls cfg)"

fun fetch_depths ::
  "env \<Rightarrow> byte list \<Rightarrow> (ChainId \<times> string \<times> string) list \<Rightarrow> ('m sys_scheme, depths option) state" where
  "fetch_depths E sel [] = ret (Some [])"
| "fetch_depths E sel ((chain_id, rpc_url, bank_addr) # rest) = do {
     d \<leftarrow> fetch_pool_depth E rpc_url bank_addr sel;
     (case d of
        None \<Rightarrow> ret None
      | Some depth \<Rightarrow> do {
          r \<leftarrow> fetch_depths E sel rest;
          ret (map_option (Cons (chain_id, depth)) r)
        })
   }"

text \<open>\<open>U256\<close> addition wraps.\<close>

definition total_depth :: "depths \<Rightarrow> u256" where
  "total_depth ds = fold (\<lambda>(_, d) acc. acc + d) ds 0"

definition surpluses :: "u256 \<Rightarrow> depths \<Rightarrow> pool_delta list" where
  "surpluses target ds = filter_map (\<lambda>(c, d). if target < d then Some (c, d - target) else None) ds"

definition deficits :: "u256 \<Rightarrow> depths \<Rightarrow> pool_delta list" where
  "deficits target ds = filter_map (\<lambda>(c, d). if d < target then Some (c, target - d) else None) ds"

definition below_min :: "u256 \<Rightarrow> u32 \<Rightarrow> depths \<Rightarrow> bool" where
  "below_min target min_bps ds =
     list_ex (\<lambda>(_, d). d * 10000 div target < ucast min_bps) ds"

text \<open>A configured per-operation cap; a text that does not parse means no cap.\<close>

definition max_wei_per_op :: "env \<Rightarrow> string \<Rightarrow> u256 option" where
  "max_wei_per_op E text = (if text = [] then None else u256_from_str E text)"

section \<open>Facts\<close>

lemma fetch_depths_emits: "emits Q 0 (fetch_depths E sel entries)"
  by (induction entries rule: fetch_depths.induct) (auto intro!: emits_then emits_case emits)

lemma fetch_depths_keeps: "keeps sys.more (fetch_depths E sel entries)"
  by (induction entries rule: fetch_depths.induct) (auto intro!: keeps)

lemma fetch_depths_chains:
  "run_state (fetch_depths E sel entries) s = (Some ds, s') \<Longrightarrow> map fst ds = map fst entries"
proof (induction entries arbitrary: ds s rule: fetch_depths.induct)
  case (2 E sel chain_id rpc_url bank_addr rest)
  then show ?case
    by (auto split: prod.splits option.splits)
qed simp

lemma eligible_chains_mem:
  "(c, u, b) \<in> set (eligible_chains cfg active dec) \<Longrightarrow>
     c \<in> active \<and> c \<notin> dec \<and> map_of (contract_addresses cfg) c = Some b \<and> (c, u) \<in> set (rpc_urls cfg)"
  by (auto simp: eligible_chains_def set_filter_map split: if_splits)

lemma eligible_chains_distinct:
  assumes "distinct (map fst (rpc_urls cfg))"
  shows "distinct (map fst (eligible_chains cfg active dec))"
proof -
  have "distinct (map fst (filter_map (\<lambda>(c, u). if P c then None else map_option (\<lambda>a. (c, u, a)) (f c)) xs))"
    if "distinct (map fst xs)" for xs :: "(u64 \<times> string) list" and P and f :: "u64 \<Rightarrow> string option"
    using that
    by (induction xs) (auto simp: set_filter_map image_iff split: option.split if_splits)
  from this [OF assms] show ?thesis unfolding eligible_chains_def .
qed

lemma gap_exists:
  "(c, d) \<in> set ds \<Longrightarrow> target < d \<Longrightarrow> \<exists>p\<in>set (surpluses target ds). snd p \<noteq> 0"
  "(c, d) \<in> set ds \<Longrightarrow> d < target \<Longrightarrow> \<exists>p\<in>set (deficits target ds). snd p \<noteq> 0"
  by (rule bexI [of _ "(c, d - target)"] bexI [of _ "(c, target - d)"];
      force simp: surpluses_def deficits_def set_filter_map)+

text \<open>
  A plan over these surpluses and deficits takes no chain below the target and lifts no chain
  above it.
\<close>

lemma avail_absent:
  assumes "c \<notin> fst ` set ds"
  shows "avail c (surpluses target ds) = 0" "avail c (deficits target ds) = 0"
  using assms by (induction ds) (auto simp: surpluses_def deficits_def split: if_splits)

lemma unat_gap:
  fixes a b :: u256
  shows "(if b < a then unat (a - b) else 0) = unat a - unat b"
  using unat_sub [of b a] by (cases "b < a") (auto simp: word_less_nat_alt word_le_nat_alt)

lemma avail_Cons:
  "avail c (surpluses target ((c', d) # ds)) =
     (if c' = c then unat d - unat target else 0) + avail c (surpluses target ds)"
  "avail c (deficits target ((c', d) # ds)) =
     (if c' = c then unat target - unat d else 0) + avail c (deficits target ds)"
  using unat_gap [of target d] unat_gap [of d target]
  by (auto simp: surpluses_def deficits_def split: if_splits)

lemma avail_surplus:
  assumes "distinct (map fst ds)" "(c, d) \<in> set ds"
  shows "avail c (surpluses target ds) = unat d - unat target \<and>
    avail c (deficits target ds) = unat target - unat d"
  using assms
proof (induction ds)
  case (Cons p ds)
  obtain c' d' where p: "p = (c', d')" by fastforce
  show ?case
  proof (cases "c' = c")
    case True
    then have "c \<notin> fst ` set ds" "d = d'" using Cons.prems p by (auto simp: rev_image_eqI)
    then show ?thesis using True p by (simp add: avail_Cons avail_absent)
  next
    case False
    then show ?thesis using Cons p by (auto simp: avail_Cons)
  qed
qed simp

section \<open>Plans\<close>

text \<open>The moves a plan may contain, around a target for the given depths.\<close>

definition plan_within :: "u256 option \<Rightarrow> u256 \<Rightarrow> depths \<Rightarrow> rebalance_op list \<Rightarrow> bool" where
  "plan_within cap target ds ops \<longleftrightarrow>
     (\<forall>(s, d, a) \<in> set ops. s \<noteq> d \<and> s \<in> fst ` set ds \<and> d \<in> fst ` set ds \<and> 0 < a \<and>
        (case cap of None \<Rightarrow> True | Some m \<Rightarrow> a \<le> m)) \<and>
     (\<forall>(c, d) \<in> set ds. moved_from c ops \<le> unat d - unat target \<and> moved_to c ops \<le> unat target - unat d)"

lemma surplus_deficit_apart:
  assumes "distinct (map fst ds)" "s \<in> fst ` set (surpluses target ds)" "d \<in> fst ` set (deficits target ds)"
  shows "s \<noteq> d"
proof
  assume "s = d"
  with assms(2,3) obtain x y where "(s, x) \<in> set ds" "target < x" "(s, y) \<in> set ds" "y < target"
    by (auto simp: surpluses_def deficits_def set_filter_map split: if_splits)
  with assms(1) show False by (metis eq_key_imp_eq_value less_asym)
qed

lemma surplus_chains:
  "fst ` set (surpluses target ds) \<subseteq> fst ` set ds" "fst ` set (deficits target ds) \<subseteq> fst ` set ds"
  by (force simp: surpluses_def deficits_def set_filter_map split: if_splits)+

lemma plan_ok_within:
  assumes "plan_ok cap (surpluses target ds) (deficits target ds) ops" "distinct (map fst ds)"
  shows "plan_within cap target ds ops"
  unfolding plan_within_def
proof (intro conjI ballI, goal_cases)
  case (1 op)
  obtain s d a where op: "op = (s, d, a)" by (cases op)
  with 1 assms(1) have "op_ok cap (fst ` set (surpluses target ds)) (fst ` set (deficits target ds)) (s, d, a)"
    by (simp add: plan_ok_def list_all_iff)
  then have m: "s \<in> fst ` set (surpluses target ds)" "d \<in> fst ` set (deficits target ds)" "0 < a"
    "case cap of None \<Rightarrow> True | Some m \<Rightarrow> a \<le> m" by (simp_all add: op_ok_def)
  have "s \<in> fst ` set ds" "d \<in> fst ` set ds" using m(1,2) surplus_chains by blast+
  moreover have "s \<noteq> d" using surplus_deficit_apart [OF assms(2) m(1,2)] .
  ultimately show ?case using m(3,4) unfolding op by simp
next
  case (2 p)
  obtain c d where p: "p = (c, d)" by fastforce
  have "moved_from c ops \<le> avail c (surpluses target ds)" "moved_to c ops \<le> avail c (deficits target ds)"
    using assms(1) by (simp_all add: plan_ok_def)
  with avail_surplus [OF assms(2), of c d target] 2 p show ?case by simp
qed

lemma plan_within_Nil [simp]: "plan_within cap target ds []"
  by (simp add: plan_within_def)

lemma planned:
  assumes "mset (hash_order E ds) = mset ds" "distinct (map fst ds)" "cap \<noteq> Some 0"
  shows "\<exists>ops. compute_rebalance_ops (surpluses target (hash_order E ds)) (deficits target (hash_order E ds)) cap
      = Some ops \<and> plan_within cap target ds ops"
proof -
  let ?ds = "hash_order E ds"
  have set: "set ?ds = set ds" using assms(1) by (metis set_mset_mset)
  have dis: "distinct (map fst ?ds)" using assms(1,2) by (metis mset_map mset_eq_imp_distinct_iff)
  obtain ops where ops: "compute_rebalance_ops (surpluses target ?ds) (deficits target ?ds) cap = Some ops"
    "plan_ok cap (surpluses target ?ds) (deficits target ?ds) ops"
    using compute_rebalance_ops_plan [OF assms(3)] by blast
  from plan_ok_within [OF this(2) dis] have "plan_within cap target ds ops"
    by (simp add: plan_within_def set)
  with ops(1) show ?thesis by blast
qed

lemma plan_withinD:
  assumes "plan_within cap target ds ops" "(src, dst, x) \<in> set ops"
  shows "src \<noteq> dst \<and> src \<in> fst ` set ds \<and> dst \<in> fst ` set ds \<and>
      (case cap of None \<Rightarrow> True | Some m \<Rightarrow> x \<le> m)"
  using assms(1) [unfolded plan_within_def, THEN conjunct1, THEN bspec, OF assms(2)] by simp

lemma fetch_sending:
  "step_rel (only_sends Q) (fetch_pool_depth E u a sel)"
  "step_rel (only_sends Q) (fetch_max_rebalance_amount E u a sel)"
  "step_rel (only_sends Q) (fetch_depths E sel entries)"
  by (rule emits_sending, rule fetch_emits fetch_depths_emits)+

lemma eligible_active:
  assumes "map fst ds = map fst (eligible_chains cfg (active_chains s) (decommissioned_chains s))"
    "c \<in> fst ` set ds"
  shows "is_chain_active s c"
proof -
  have "c \<in> fst ` set (eligible_chains cfg (active_chains s) (decommissioned_chains s))"
    using assms by (metis list.set_map)
  then show ?thesis using eligible_chains_mem by (force simp: is_chain_active_def)
qed

section \<open>A planning cycle\<close>

text \<open>
  The two modules' cycles have the same shape: choose the chains, read their depths, plan, run the
  planned operations in turn. The locale states what the cycle needs from a module's plan and from
  its operations (\<open>sends A\<close> describes the transactions the module may send when \<open>A\<close> are the chains it
  may use), and derives what the whole cycle does; each module interprets it.
\<close>

definition planning_cycle ::
  "env \<Rightarrow> Config \<Rightarrow> byte list \<Rightarrow> (depths \<Rightarrow> rebalance_op list option)
     \<Rightarrow> (rebalance_op \<Rightarrow> ('m router_scheme, unit) state) \<Rightarrow> ('m router_scheme, unit option) state" where
  "planning_cycle E cfg sel plan run = do {
     active \<leftarrow> gets active_chains;
     decommissioned \<leftarrow> gets decommissioned_chains;
     let chains' = eligible_chains cfg active decommissioned;
     (if length chains' < 2 then ret (Some ())
      else do {
        ds \<leftarrow> fetch_depths E sel chains';
        (case ds of
           None \<Rightarrow> ret (Some ())
         | Some depths \<Rightarrow>
             (case plan depths of
                None \<Rightarrow> ret None
              | Some ops \<Rightarrow> do { for_each run ops; ret (Some ()) }))
      })
   }"

locale planning =
  fixes E :: env and cfg :: Config and cap :: "u256 option"
    and target :: "depths \<Rightarrow> u256"
    and plan :: "depths \<Rightarrow> rebalance_op list option"
    and run :: "rebalance_op \<Rightarrow> ('m router_scheme, unit) state"
    and sends :: "(ChainId \<Rightarrow> bool) \<Rightarrow> string \<times> json \<Rightarrow> bool"
  assumes plan_ends: "mset (hash_order E ds) = mset ds \<Longrightarrow> distinct (map fst ds) \<Longrightarrow> cap \<noteq> Some 0 \<Longrightarrow>
      \<exists>ops. plan ds = Some ops \<and> plan_within cap (target ds) ds ops"
    and run_sends: "A src \<Longrightarrow> A dst \<Longrightarrow> src \<noteq> dst \<Longrightarrow> (case cap of None \<Rightarrow> True | Some m \<Rightarrow> x \<le> m) \<Longrightarrow>
      step_rel (only_sends (sends A)) (run (src, dst, x))"
begin

lemma run_ops:
  assumes "plan_within cap t ds ops" "\<And>c. c \<in> fst ` set ds \<Longrightarrow> A c"
  shows "step_rel (only_sends (sends A)) (for_each run ops)"
proof (rule sending.for_each)
  fix op assume op: "op \<in> set ops"
  obtain src dst x where op': "op = (src, dst, x)" by (cases op)
  from plan_withinD [OF assms(1)] op op' assms(2) show "step_rel (only_sends (sends A)) (run op)"
    unfolding op' by (intro run_sends) auto
qed

lemma cycle_safe:
  assumes "\<forall>ds. mset (hash_order E ds) = mset ds" "distinct (map fst (rpc_urls cfg))" "cap \<noteq> Some 0"
  shows "fst (run_state (planning_cycle E cfg sel plan run) s) = Some () \<and>
    only_sends (sends (is_chain_active s)) s (snd (run_state (planning_cycle E cfg sel plan run) s))"
proof -
  let ?chains = "eligible_chains cfg (active_chains s) (decommissioned_chains s)"
  obtain r s1 where r: "run_state (fetch_depths E sel ?chains) s = (r, s1)" by fastforce
  have s1: "only_sends (sends (is_chain_active s)) s s1"
    using step_relD [OF fetch_sending(3) r] .
  show ?thesis
  proof (cases "length ?chains < 2 \<or> r = None")
    case True
    then show ?thesis using s1 r by (auto simp: planning_cycle_def Let_def sending.refl)
  next
    case False
    then obtain ds where ds: "r = Some ds" by auto
    have ch: "map fst ds = map fst ?chains" using fetch_depths_chains r ds by blast
    have "distinct (map fst ?chains)" using assms(2) by (rule eligible_chains_distinct)
    then obtain ops where ops: "plan ds = Some ops" "plan_within cap (target ds) ds ops"
      using plan_ends [of ds] assms ch by auto
    have "only_sends (sends (is_chain_active s)) s1 (snd (run_state (for_each run ops) s1))"
      by (rule step_relD [OF run_ops [OF ops(2) eligible_active [OF ch]] surjective_pairing])
    with s1 show ?thesis using False r ds ops(1)
      by (auto simp: planning_cycle_def Let_def split_beta intro: sending.trans)
  qed
qed

end

end
