(* ===== verification/ColdPath.thy ===== *)
theory ColdPath
  imports Planner Table
begin

text \<open>
  The cold path (\<open>cold_path.rs\<close>) with its repository (\<open>db/rebalance_repo.rs\<close>): one rebalancing
  cycle reads the pool depths of the active chains, plans moves from surplus to deficit chains and
  submits each as one or more \<open>rebalance\<close> transactions, recording them in \<open>treasury.rebalance_ops\<close>.
  The route receiver loop is the one of theory \<open>Route\<close>, with the clamp.

  The planning step may not return (a cap of zero), so the cycle is a step with result
  \<open>unit option\<close>: \<open>None\<close> stands for a cycle that never ends.
\<close>

section \<open>The table rebalance\_ops\<close>

record rebalance_row =
  rb_op_id :: OperationId
  rb_source_chain_id :: int
  rb_dest_chain_id :: int
  rb_amount_wei :: nat
  rb_ccip_message_id :: "string option"
  rb_source_tx_hash :: "TxHash option"
  rb_status :: string
  rb_created_at :: nat
  rb_updated_at :: nat

record cold_path = router +
  rebalance_ops :: "rebalance_row list"

text \<open>24 hours in milliseconds.\<close>

definition IN_FLIGHT_WINDOW :: nat where
  "IN_FLIGHT_WINDOW = 86400000"

definition rebalance_in_flight :: "'m cold_path_scheme \<Rightarrow> ChainId \<Rightarrow> ChainId \<Rightarrow> bool" where
  "rebalance_in_flight s source_chain dest_chain \<longleftrightarrow>
     list_ex (\<lambda>r. rb_source_chain_id r = sint source_chain \<and> rb_dest_chain_id r = sint dest_chain \<and>
       rb_status r \<in> {''pending'', ''submitted''} \<and> now_ms s < rb_created_at r + IN_FLIGHT_WINDOW)
     (rebalance_ops s)"

definition rebalance_op_in_flight :: "env \<Rightarrow> ChainId \<Rightarrow> ChainId \<Rightarrow> ('m cold_path_scheme, bool) state" where
  "rebalance_op_in_flight E source_chain dest_chain = do {
     r \<leftarrow> gets (\<lambda>s. rebalance_in_flight s source_chain dest_chain);
     up \<leftarrow> db E;
     ret (if up then r else False)
   }"

definition insert_rebalance_op ::
  "env \<Rightarrow> OperationId \<Rightarrow> ChainId \<Rightarrow> ChainId \<Rightarrow> u256 \<Rightarrow> ('m cold_path_scheme, unit) state" where
  "insert_rebalance_op E op_id source_chain dest_chain amount = do {
     up \<leftarrow> db E;
     (if up then modify (\<lambda>s. s\<lparr>rebalance_ops := insert_row rb_op_id
        \<lparr>rb_op_id = op_id, rb_source_chain_id = sint source_chain, rb_dest_chain_id = sint dest_chain,
         rb_amount_wei = unat amount, rb_ccip_message_id = None, rb_source_tx_hash = None,
         rb_status = ''pending'', rb_created_at = now_ms s, rb_updated_at = now_ms s\<rparr> (rebalance_ops s)\<rparr>)
      else ret ())
   }"

definition update_rebalance_op_submitted ::
  "env \<Rightarrow> OperationId \<Rightarrow> TxHash \<Rightarrow> string option \<Rightarrow> ('m cold_path_scheme, unit) state" where
  "update_rebalance_op_submitted E op_id tx_hash ccip_message_id = do {
     up \<leftarrow> db E;
     (if up then modify (\<lambda>s. s\<lparr>rebalance_ops := update_rows rb_op_id op_id
        (\<lambda>r. r\<lparr>rb_status := ''submitted'', rb_source_tx_hash := Some tx_hash,
               rb_ccip_message_id := ccip_message_id, rb_updated_at := now_ms s\<rparr>) (rebalance_ops s)\<rparr>)
      else ret ())
   }"

definition update_rebalance_op_failed :: "env \<Rightarrow> OperationId \<Rightarrow> ('m cold_path_scheme, unit) state" where
  "update_rebalance_op_failed E op_id = do {
     up \<leftarrow> db E;
     (if up then modify (\<lambda>s. s\<lparr>rebalance_ops := update_rows rb_op_id op_id
        (\<lambda>r. r\<lparr>rb_status := ''failed'', rb_updated_at := now_ms s\<rparr>) (rebalance_ops s)\<rparr>)
      else ret ())
   }"

section \<open>Planning\<close>

definition target_depth :: "Config \<Rightarrow> u256 \<Rightarrow> nat \<Rightarrow> u256" where
  "target_depth cfg tot n =
     (if cold_path_target_bps cfg = 0 then tot div of_nat n
      else tot * ucast (cold_path_target_bps cfg) div 10000)"

definition cold_plan :: "env \<Rightarrow> Config \<Rightarrow> depths \<Rightarrow> rebalance_op list option" where
  "cold_plan E cfg depths =
     (let tot = total_depth depths; target = target_depth cfg tot (length depths);
          ds = hash_order E depths
      in if tot = 0 then Some []
         else if \<not> (target \<noteq> 0 \<and> below_min target (cold_path_min_bps cfg) ds) then Some []
         else compute_rebalance_ops (surpluses target ds) (deficits target ds)
                (max_wei_per_op E (cold_path_max_wei cfg)))"

section \<open>Submission\<close>

definition MAX_RETRIES :: nat where
  "MAX_RETRIES = 3"

definition REBALANCE_GAS_LIMIT :: u64 where
  "REBALANCE_GAS_LIMIT = 300000"

definition map_rebalance_revert :: "env \<Rightarrow> TxError \<Rightarrow> TxError" where
  "map_rebalance_revert E err =
     (case err of
        RpcError msg \<Rightarrow>
          if contains msg (hex_0x (selector E ''RebalanceCapExceeded(uint256,uint256)''))
          then RebalanceCapExceeded
          else if contains msg (hex_0x (selector E ''DestChainNotAllowlisted(uint64)''))
          then DestChainNotAllowlisted
          else if contains msg (hex_0x (selector E ''InsufficientPoolLiquidity()''))
          then PoolDepthInsufficient
          else RpcError msg
      | _ \<Rightarrow> err)"

definition ccip_fee :: "env \<Rightarrow> Config \<Rightarrow> byte list" where
  "ccip_fee E cfg =
     u256_to_trimmed_be (case u256_from_str E (ccip_fee_wei cfg) of Some v \<Rightarrow> v | None \<Rightarrow> 0)"

definition rebalance_call :: "env \<Rightarrow> ChainId \<Rightarrow> u256 \<Rightarrow> byte list" where
  "rebalance_call E dest_chain amount = encode_rebalance (selector E ''rebalance(uint64,uint256)'') dest_chain amount"

text \<open>
  The code maps the error of \<open>send_raw_transaction\<close> only; the earlier steps of \<open>submit_tx\<close> never give
  an \<open>RpcError\<close>, the one error the mapping changes.
\<close>

definition submit_rebalance_once ::
  "env \<Rightarrow> Config \<Rightarrow> ChainId \<Rightarrow> string \<Rightarrow> string \<Rightarrow> ChainId \<Rightarrow> u256 \<Rightarrow> byte list
     \<Rightarrow> ('m cold_path_scheme, TxError + (TxHash \<times> string option)) state" where
  "submit_rebalance_once E cfg chain_id rpc_url bank_addr dest_chain_id amount key = do {
     addr \<leftarrow> gets relayer_address;
     (case addr of
        None \<Rightarrow> ret (Inl MissingKey)
      | Some relayer_addr \<Rightarrow> do {
          t \<leftarrow> submit_tx E rpc_url bank_addr chain_id key relayer_addr REBALANCE_GAS_LIMIT (ccip_fee E cfg)
                 (rebalance_call E dest_chain_id amount);
          (case t of
             Inl e \<Rightarrow> ret (Inl (map_rebalance_revert E e))
           | Inr tx_hash \<Rightarrow> do {
               w \<leftarrow> wait_for_receipt_logs E rpc_url tx_hash 120000;
               ret (case w of Inl e \<Rightarrow> Inl e | Inr logs \<Rightarrow> Inr (tx_hash, extract_ccip_message_id E logs))
             })
        })
   }"

definition submit_rebalance_with_retry ::
  "env \<Rightarrow> Config \<Rightarrow> ChainId \<Rightarrow> string \<Rightarrow> string \<Rightarrow> ChainId \<Rightarrow> u256
     \<Rightarrow> ('m cold_path_scheme, TxError + (TxHash \<times> string option)) state" where
  "submit_rebalance_with_retry E cfg source_chain rpc_url bank_addr dest_chain amount = do {
     k \<leftarrow> gets relayer_key;
     (case k of
        None \<Rightarrow> ret (Inl MissingKey)
      | Some key \<Rightarrow>
          with_retry E source_chain
            (submit_rebalance_once E cfg source_chain rpc_url bank_addr dest_chain amount key) MAX_RETRIES)
   }"

section \<open>One operation of the plan\<close>

text \<open>
  The chunks in turn; every error marks the row failed and ends the loop (the code has four error
  arms with the same effect and different log lines).
\<close>

fun submit_chunks ::
  "env \<Rightarrow> Config \<Rightarrow> OperationId \<Rightarrow> ChainId \<Rightarrow> string \<Rightarrow> string \<Rightarrow> ChainId \<Rightarrow> u256 list
     \<Rightarrow> ('m cold_path_scheme, unit) state" where
  "submit_chunks E cfg op_id source_chain rpc bank dest_chain [] = ret ()"
| "submit_chunks E cfg op_id source_chain rpc bank dest_chain (chunk_amount # chunks) = do {
     r \<leftarrow> submit_rebalance_with_retry E cfg source_chain rpc bank dest_chain chunk_amount;
     (case r of
        Inr (tx_hash, ccip_msg_id) \<Rightarrow> do {
          update_rebalance_op_submitted E op_id tx_hash ccip_msg_id;
          submit_chunks E cfg op_id source_chain rpc bank dest_chain chunks
        }
      | Inl e \<Rightarrow> update_rebalance_op_failed E op_id)
   }"

definition op_id_of :: "ChainId \<Rightarrow> ChainId \<Rightarrow> nat \<Rightarrow> OperationId" where
  "op_id_of source_chain dest_chain ts_ms =
     show_nat (unat source_chain) @ ''-'' @ show_nat (unat dest_chain) @ ''-'' @ show_nat ts_ms"

definition submit_op ::
  "env \<Rightarrow> Config \<Rightarrow> ChainId \<Rightarrow> string \<Rightarrow> string \<Rightarrow> ChainId \<Rightarrow> u256 \<Rightarrow> ('m cold_path_scheme, unit) state" where
  "submit_op E cfg source_chain rpc bank dest_chain amount = do {
     ts_ms \<leftarrow> gets now_ms;
     let op_id = op_id_of source_chain dest_chain ts_ms;
     insert_rebalance_op E op_id source_chain dest_chain amount;
     c \<leftarrow> fetch_max_rebalance_amount E rpc bank (selector E ''maxRebalanceAmount()'');
     (case c of
        None \<Rightarrow> update_rebalance_op_failed E op_id
      | Some cap \<Rightarrow>
          if cap = 0 then update_rebalance_op_failed E op_id
          else submit_chunks E cfg op_id source_chain rpc bank dest_chain (split_amount_by_cap amount cap))
   }"

definition run_op :: "env \<Rightarrow> Config \<Rightarrow> rebalance_op \<Rightarrow> ('m cold_path_scheme, unit) state" where
  "run_op E cfg op = (case op of (source_chain, dest_chain, amount) \<Rightarrow>
     (case (map_of (rpc_urls cfg) source_chain, map_of (contract_addresses cfg) source_chain) of
        (Some source_rpc, Some source_bank) \<Rightarrow> do {
          d \<leftarrow> fetch_pool_depth E source_rpc source_bank (selector E ''poolDepth()'');
          (case d of
             None \<Rightarrow> ret ()
           | Some live_depth \<Rightarrow> do {
               in_flight \<leftarrow> rebalance_op_in_flight E source_chain dest_chain;
               (case evaluate_rebalance_op live_depth amount in_flight of
                  Submit \<Rightarrow> submit_op E cfg source_chain source_rpc source_bank dest_chain amount
                | _ \<Rightarrow> ret ())
             })
        }
      | _ \<Rightarrow> ret ()))"

section \<open>The cycle\<close>

definition run_rebalance_cycle :: "env \<Rightarrow> Config \<Rightarrow> ('m cold_path_scheme, unit option) state" where
  "run_rebalance_cycle E cfg = do {
     active \<leftarrow> gets active_chains;
     decommissioned \<leftarrow> gets decommissioned_chains;
     let chains' = eligible_chains cfg active decommissioned;
     (if length chains' < 2 then ret (Some ())
      else do {
        ds \<leftarrow> fetch_depths E (selector E ''poolDepth()'') chains';
        (case ds of
           None \<Rightarrow> ret (Some ())
         | Some depths \<Rightarrow>
             (case cold_plan E cfg depths of
                None \<Rightarrow> ret None
              | Some ops \<Rightarrow> do { for_each (run_op E cfg) ops; ret (Some ()) }))
      })
   }"

section \<open>The plan\<close>

lemma cold_plan_ok:
  assumes "mset (hash_order E depths) = mset depths" "distinct (map fst depths)"
    "max_wei_per_op E (cold_path_max_wei cfg) \<noteq> Some 0"
  shows "\<exists>ops. cold_plan E cfg depths = Some ops \<and>
    plan_within (max_wei_per_op E (cold_path_max_wei cfg))
      (target_depth cfg (total_depth depths) (length depths)) depths ops"
proof -
  let ?t = "target_depth cfg (total_depth depths) (length depths)"
    and ?cap = "max_wei_per_op E (cold_path_max_wei cfg)"
  obtain ops where ops: "compute_rebalance_ops (surpluses ?t (hash_order E depths))
      (deficits ?t (hash_order E depths)) ?cap = Some ops" "plan_within ?cap ?t depths ops"
    using planned [OF assms] by blast
  have "cold_plan E cfg depths \<in> {Some [], Some ops}" by (simp add: cold_plan_def Let_def ops(1))
  then show ?thesis using ops(2) plan_within_Nil by blast
qed

text \<open>
  The cold path's plan: unless the configured cap is zero, planning ends, and the plan moves
  only between different chains among those whose depth was read, each move positive and within
  the cap, so that no source ends below the target depth and no destination above it. The hash map
  is assumed only to visit every entry once.
\<close>

theorem cold_plan_within:
  assumes "mset (hash_order E depths) = mset depths" "distinct (map fst depths)"
    "max_wei_per_op E (cold_path_max_wei cfg) \<noteq> Some 0"
  shows "\<exists>ops. cold_plan E cfg depths = Some ops \<and>
    plan_within (max_wei_per_op E (cold_path_max_wei cfg))
      (target_depth cfg (total_depth depths) (length depths)) depths ops"
  using assms by (rule cold_plan_ok)

section \<open>What a cycle sends\<close>

definition is_move ::
  "env \<Rightarrow> Config \<Rightarrow> string \<Rightarrow> string \<Rightarrow> ChainId \<Rightarrow> ChainId \<Rightarrow> u256 \<Rightarrow> string \<times> json \<Rightarrow> bool" where
  "is_move E cfg rpc bank source_chain dest_chain amount c \<longleftrightarrow>
     (\<exists>key. signed_for E rpc bank source_chain key REBALANCE_GAS_LIMIT (ccip_fee E cfg)
        (rebalance_call E dest_chain amount) c)"

lemma submit_rebalance_once_emits:
  "emits (is_move E cfg u b src dst a) 1 (submit_rebalance_once E cfg src u b dst a key)"
proof -
  have "emits (signed_for E u b src key REBALANCE_GAS_LIMIT (ccip_fee E cfg) (rebalance_call E dst a)) 1
      (submit_rebalance_once E cfg src u b dst a key)"
    unfolding submit_rebalance_once_def
    by (intro emits_then emits_case emits_ret emits_gets emits_first submit_tx_emits wait_emits)
  then show ?thesis unfolding emits_def is_move_def list_all_iff by blast
qed

lemma submit_rebalance_emits:
  "emits (is_move E cfg u b src dst a) 3 (submit_rebalance_with_retry E cfg src u b dst a)"
proof -
  have "emits (is_move E cfg u b src dst a) 3
      (with_retry E src (submit_rebalance_once E cfg src u b dst a key) MAX_RETRIES)" for key
    unfolding MAX_RETRIES_def by (rule with_retry_emits [OF submit_rebalance_once_emits])
  then show ?thesis
    unfolding submit_rebalance_with_retry_def by (intro emits_then emits_case emits_gets emits_ret)
qed

lemma rebalance_repo_quiet:
  "keeps calls (rebalance_op_in_flight E a b)" "keeps calls (insert_rebalance_op E i a b x)"
  "keeps calls (update_rebalance_op_submitted E i h m)" "keeps calls (update_rebalance_op_failed E i)"
  by (simp_all add: keeps_def rebalance_op_in_flight_def insert_rebalance_op_def
      update_rebalance_op_submitted_def update_rebalance_op_failed_def run_db)

lemmas rebalance_repo_sending = rebalance_repo_quiet [THEN quiet_sending]

lemma submit_rebalance_sending:
  "(\<And>c. is_move E cfg u b src dst a c \<Longrightarrow> Q c) \<Longrightarrow>
     step_rel (only_sends Q) (submit_rebalance_with_retry E cfg src u b dst a)"
  by (rule only_sends_mono [OF _ emits_sending [OF submit_rebalance_emits]])

lemma submit_chunks_sending:
  assumes "\<And>a c. a \<in> set chunks \<Longrightarrow> is_move E cfg u b src dst a c \<Longrightarrow> Q c"
  shows "step_rel (only_sends Q) (submit_chunks E cfg i src u b dst chunks)"
  using assms
proof (induction chunks)
  case (Cons a chunks)
  show ?case
    unfolding submit_chunks.simps
    by (intro sending.rules rebalance_repo_sending submit_rebalance_sending Cons.IH)
      (auto intro: Cons.prems)
qed (simp add: sending.ret)

lemma submit_op_sending:
  assumes "\<And>a c. 0 < a \<Longrightarrow> a \<le> amount \<Longrightarrow> is_move E cfg u b src dst a c \<Longrightarrow> Q c"
  shows "step_rel (only_sends Q) (submit_op E cfg src u b dst amount)"
  unfolding submit_op_def Let_def
  by (intro sending.rules rebalance_repo_sending fetch_sending submit_chunks_sending)
    (auto intro: assms dest: split_chunk)

lemma run_op_sending:
  assumes "\<And>u b a c. map_of (rpc_urls cfg) src = Some u \<Longrightarrow> map_of (contract_addresses cfg) src = Some b \<Longrightarrow>
    0 < a \<Longrightarrow> a \<le> amount \<Longrightarrow> is_move E cfg u b src dst a c \<Longrightarrow> Q c"
  shows "step_rel (only_sends Q) (run_op E cfg (src, dst, amount))"
  unfolding run_op_def
  by (auto intro!: sending.rules rebalance_repo_sending fetch_sending submit_op_sending
      intro: assms split: RebalanceOpDecision.split option.split)

text \<open>A \<open>rebalance\<close> transaction between two chains of \<open>A\<close>, within the configured cap.\<close>

definition is_rebalance :: "env \<Rightarrow> Config \<Rightarrow> (ChainId \<Rightarrow> bool) \<Rightarrow> string \<times> json \<Rightarrow> bool" where
  "is_rebalance E cfg A c \<longleftrightarrow> (\<exists>src dst a u b. A src \<and> A dst \<and> src \<noteq> dst \<and> 0 < a \<and>
     (case max_wei_per_op E (cold_path_max_wei cfg) of None \<Rightarrow> True | Some cap \<Rightarrow> a \<le> cap) \<and>
     map_of (rpc_urls cfg) src = Some u \<and> map_of (contract_addresses cfg) src = Some b \<and>
     is_move E cfg u b src dst a c)"

interpretation cold_planning: planning E cfg "max_wei_per_op E (cold_path_max_wei cfg)"
  "\<lambda>ds. target_depth cfg (total_depth ds) (length ds)" "cold_plan E cfg"
  "run_op E cfg :: _ \<Rightarrow> ('m cold_path_scheme, unit) state" "is_rebalance E cfg"
  for E cfg
proof unfold_locales
  fix A and src dst :: ChainId and x
  assume w: "A src" "A dst" "src \<noteq> dst"
    "case max_wei_per_op E (cold_path_max_wei cfg) of None \<Rightarrow> True | Some cap \<Rightarrow> x \<le> cap"
  have "is_rebalance E cfg A c"
    if "map_of (rpc_urls cfg) src = Some u" "map_of (contract_addresses cfg) src = Some b"
      "0 < a" "a \<le> x" "is_move E cfg u b src dst a c" for u b a c
    unfolding is_rebalance_def using that w by (intro exI conjI) (auto split: option.splits)
  then show "step_rel (only_sends (is_rebalance E cfg A))
      (run_op E cfg (src, dst, x) :: ('m cold_path_scheme, unit) state)"
    by (intro run_op_sending)
qed (rule cold_plan_ok)

lemma run_rebalance_cycle_eq:
  "run_rebalance_cycle E cfg =
     planning_cycle E cfg (selector E ''poolDepth()'') (cold_plan E cfg) (run_op E cfg)"
  by (simp add: run_rebalance_cycle_def planning_cycle_def)

text \<open>
  C11. A rebalancing cycle always ends, unless the configured cap is zero, and it sends nothing but
  \<open>rebalance\<close> transactions: each moves a positive amount within the configured cap from one active,
  not decommissioned chain to another such chain, and is sent to the configured node and Bank of
  the source chain. (The configuration has one node per chain, and a hash map visits every entry
  once.)
\<close>

theorem cold_cycle_safe:
  assumes "\<forall>ds. mset (hash_order E ds) = mset ds" "distinct (map fst (rpc_urls cfg))"
    "max_wei_per_op E (cold_path_max_wei cfg) \<noteq> Some 0"
  shows "fst (run_state (run_rebalance_cycle E cfg) s) = Some () \<and>
    only_sends (is_rebalance E cfg (is_chain_active s)) s (snd (run_state (run_rebalance_cycle E cfg) s))"
  unfolding run_rebalance_cycle_eq using assms by (rule cold_planning.cycle_safe)

text \<open>
  With a configured cap of zero the first cycle that finds an imbalance never ends: the module
  stops rebalancing until the service is restarted.
\<close>

theorem cold_cycle_zero_cap_hangs:
  assumes "2 \<le> length (eligible_chains cfg (active_chains s) (decommissioned_chains s))"
    "run_state (fetch_depths E (selector E ''poolDepth()'')
       (eligible_chains cfg (active_chains s) (decommissioned_chains s))) s = (Some ds, s1)"
    "max_wei_per_op E (cold_path_max_wei cfg) = Some 0" "set (hash_order E ds) = set ds"
    "target = target_depth cfg (total_depth ds) (length ds)" "total_depth ds \<noteq> 0" "target \<noteq> 0"
    "below_min target (cold_path_min_bps cfg) ds" "\<exists>(c, d)\<in>set ds. target < d" "\<exists>(c, d)\<in>set ds. d < target"
  shows "fst (run_state (run_rebalance_cycle E cfg) s) = None"
proof -
  let ?ds = "hash_order E ds"
  have "below_min target (cold_path_min_bps cfg) ?ds"
    using assms(4,8) by (simp add: below_min_def list_ex_iff)
  moreover have "\<exists>p\<in>set (surpluses target ?ds). snd p \<noteq> 0" "\<exists>p\<in>set (deficits target ?ds). snd p \<noteq> 0"
    using assms(9,10) gap_exists [of _ _ ?ds target] by (auto simp: assms(4))
  then have "compute_rebalance_ops (surpluses target ?ds) (deficits target ?ds) (Some 0) = None"
    by (rule compute_rebalance_ops_stuck)
  ultimately have "cold_plan E cfg ds = None"
    using assms(3,5-7) by (simp add: cold_plan_def Let_def)
  then show ?thesis using assms(1,2) by (simp add: run_rebalance_cycle_def Let_def not_less)
qed

text \<open>
  No second operation for a pair in flight: when the pair has a pending or submitted operation
  younger than 24 hours, the planned operation is skipped: no row changes and no transaction is
  sent. This also holds for the second and later operations a plan emits for the same pair when it
  splits a move by the configured cap.
\<close>

theorem in_flight_pair_skipped:
  assumes "map_of (rpc_urls cfg) src = Some u" "map_of (contract_addresses cfg) src = Some b"
    "run_state (fetch_pool_depth E u b (selector E ''poolDepth()'')) s = (d, s1)"
    "rebalance_in_flight s1 src dst" "db_up E (tick s1)"
  shows "rebalance_ops (snd (run_state (run_op E cfg (src, dst, amount)) s)) = rebalance_ops s \<and>
    only_sends (\<lambda>_. False) s (snd (run_state (run_op E cfg (src, dst, amount)) s))"
proof -
  have more: "sys.more s1 = sys.more s" using keepsD [OF fetch_keeps(7) assms(3)] .
  have ops: "rebalance_ops s1 = rebalance_ops s" using more by (cases s, cases s1) simp
  have quiet: "only_sends (\<lambda>_. False) s s1" using step_relD [OF fetch_sending(1) assms(3)] .
  have "snd (run_state (run_op E cfg (src, dst, amount)) s) = (case d of None \<Rightarrow> s1 | Some _ \<Rightarrow> tick_on E 0 s1)"
    using assms by (simp add: run_op_def rebalance_op_in_flight_def run_db evaluate_rebalance_op_def
        split: option.split)
  moreover have "rebalance_ops (tick_on E 0 s1) = rebalance_ops s1" by (simp add: tick_on_def)
  moreover have "only_sends (\<lambda>_. False) s (tick_on E 0 s1)" using quiet by (simp add: only_sends_def)
  ultimately show ?thesis using ops quiet by (simp split: option.split)
qed

text \<open>
  The retry wrapper erases the cause of a failure: whatever goes wrong with a \<open>rebalance\<close>
  transaction, the caller sees \<open>MissingKey\<close> or \<open>RetryExhausted\<close>, so the arms of
  \<open>run_rebalance_cycle\<close> for \<open>RebalanceCapExceeded\<close>, \<open>DestChainNotAllowlisted\<close> and
  \<open>PoolDepthInsufficient\<close> are never taken.
\<close>

theorem rebalance_error_erased:
  assumes "run_state (submit_rebalance_with_retry E cfg src u b dst amount) s = (Inl e, s')"
  shows "e = MissingKey \<or> e = RetryExhausted 3"
proof (cases "relayer_key s")
  case None
  then show ?thesis using assms by (simp add: submit_rebalance_with_retry_def)
next
  case (Some key)
  then have "run_state (with_retry E src (submit_rebalance_once E cfg src u b dst amount key) MAX_RETRIES) s = (Inl e, s')"
    using assms by (simp add: submit_rebalance_with_retry_def)
  from with_retry_error [OF this] show ?thesis by (simp add: MAX_RETRIES_def)
qed

section \<open>Life cycle of a row\<close>

definition find_op :: "'m cold_path_scheme \<Rightarrow> OperationId \<Rightarrow> rebalance_row option" where
  "find_op s i = find_row rb_op_id i (rebalance_ops s)"

definition op_data :: "ChainId \<Rightarrow> ChainId \<Rightarrow> u256 \<Rightarrow> rebalance_row \<Rightarrow> bool" where
  "op_data src dst amount r \<longleftrightarrow>
     rb_source_chain_id r = sint src \<and> rb_dest_chain_id r = sint dst \<and> rb_amount_wei r = unat amount"

lemma submit_rebalance_keeps: "keeps signer.more (submit_rebalance_with_retry E cfg src u b dst a)"
  unfolding submit_rebalance_with_retry_def submit_rebalance_once_def by (intro keeps)

lemma beyond_rebalance_ops:
  "beyond_signer (rebalance_ops :: 'm cold_path_scheme \<Rightarrow> _)"
  "beyond_sys (rebalance_ops :: 'm cold_path_scheme \<Rightarrow> _)"
  unfolding beyond_signer_def beyond_sys_def
  subgoal by (intro allI impI, case_tac s, case_tac t, simp)
  subgoal by (intro allI impI, case_tac s, case_tac t, simp)
  done

lemma find_op_submitted:
  assumes "\<forall>n. db_up E n"
  shows "\<exists>f. (\<forall>r. rb_status (f r) = ''submitted'' \<and> op_data src dst a (f r) = op_data src dst a r) \<and>
    (\<forall>k. find_op (snd (run_state (update_rebalance_op_submitted E i h m) s)) k =
      (if k = i then map_option f (find_op s k) else find_op s k))"
  using assms
  by (intro exI [of _ "\<lambda>r. r\<lparr>rb_status := ''submitted'', rb_source_tx_hash := Some h,
      rb_ccip_message_id := m, rb_updated_at := now_ms (tick_on E 0 s)\<rparr>"])
    (simp add: update_rebalance_op_submitted_def run_db find_op_def find_row_update_rows op_data_def tick_on_def)

lemma find_op_failed:
  assumes "\<forall>n. db_up E n"
  shows "\<exists>f. (\<forall>r. rb_status (f r) = ''failed'' \<and> op_data src dst a (f r) = op_data src dst a r) \<and>
    (\<forall>k. find_op (snd (run_state (update_rebalance_op_failed E i) s)) k =
      (if k = i then map_option f (find_op s k) else find_op s k))"
  using assms
  by (intro exI [of _ "\<lambda>r. r\<lparr>rb_status := ''failed'', rb_updated_at := now_ms (tick_on E 0 s)\<rparr>"])
    (simp add: update_rebalance_op_failed_def run_db find_op_def find_row_update_rows op_data_def tick_on_def)

definition op_settled :: "OperationId \<Rightarrow> ChainId \<Rightarrow> ChainId \<Rightarrow> u256 \<Rightarrow> 'm cold_path_scheme \<Rightarrow> 'm cold_path_scheme \<Rightarrow> bool" where
  "op_settled i src dst amount s t \<longleftrightarrow>
     (\<exists>r. find_op t i = Some r \<and> op_data src dst amount r \<and> rb_status r \<in> {''submitted'', ''failed''}) \<and>
     (\<forall>k. k \<noteq> i \<longrightarrow> find_op t k = find_op s k)"

lemma failed_settles:
  assumes "\<forall>n. db_up E n" "find_op s i = Some r" "op_data src dst a r"
  shows "op_settled i src dst a s (snd (run_state (update_rebalance_op_failed E i) s))"
  using find_op_failed [OF assms(1), of src dst a i s] assms(2,3) by (auto simp: op_settled_def)

lemma submit_chunks_settles:
  assumes "\<forall>n. db_up E n" "find_op s i = Some r" "op_data src dst a r"
    "chunks \<noteq> [] \<or> rb_status r \<in> {''submitted'', ''failed''}"
  shows "op_settled i src dst a s (snd (run_state (submit_chunks E cfg i src u b dst chunks) s))"
  using assms(2-4)
proof (induction chunks arbitrary: s r)
  case Nil
  then show ?case by (simp add: op_settled_def)
next
  case (Cons x chunks)
  obtain q s1 where q: "run_state (submit_rebalance_with_retry E cfg src u b dst x) s = (q, s1)" by fastforce
  have "rebalance_ops s1 = rebalance_ops s"
    by (rule keepsD [OF keeps_beyond_signer [OF beyond_rebalance_ops(1) submit_rebalance_keeps] q])
  then have f1: "find_op s1 k = find_op s k" for k by (simp add: find_op_def)
  show ?case
  proof (cases q)
    case (Inl e)
    have "op_settled i src dst a s1 (snd (run_state (update_rebalance_op_failed E i) s1))"
      by (rule failed_settles [OF assms(1), of _ _ r]) (simp_all add: f1 Cons.prems)
    then show ?thesis by (simp add: q Inl op_settled_def f1)
  next
    case (Inr hm)
    obtain h m where hm: "hm = (h, m)" by fastforce
    let ?s2 = "snd (run_state (update_rebalance_op_submitted E i h m) s1)"
    obtain f where f: "\<And>r. rb_status (f r) = ''submitted''" "\<And>r. op_data src dst a (f r) = op_data src dst a r"
      "\<And>k. find_op ?s2 k = (if k = i then map_option f (find_op s k) else find_op s k)"
      using find_op_submitted [OF assms(1), of src dst a i h m s1] unfolding f1 by blast
    have "op_settled i src dst a ?s2 (snd (run_state (submit_chunks E cfg i src u b dst chunks) ?s2))"
      using f Cons.prems by (intro Cons.IH [of _ "f r"]) auto
    moreover have "snd (run_state (submit_chunks E cfg i src u b dst (x # chunks)) s) =
        snd (run_state (submit_chunks E cfg i src u b dst chunks) ?s2)"
      by (simp add: q Inr hm split_beta)
    ultimately show ?thesis unfolding op_settled_def by (simp add: f(3))
  qed
qed

text \<open>
  Every operation the cold path starts ends recorded as \<open>submitted\<close> or \<open>failed\<close>, never left
  \<open>pending\<close>, under its own id and with its own chains and amount, and no other row changes (the
  database being reachable and the id, which holds the start time, not taken).
\<close>

theorem cold_op_settles:
  assumes "\<forall>n. db_up E n" "find_op s (op_id_of src dst (now_ms s)) = None" "amount \<noteq> 0"
  shows "op_settled (op_id_of src dst (now_ms s)) src dst amount s
    (snd (run_state (submit_op E cfg src u b dst amount) s))"
proof -
  let ?i = "op_id_of src dst (now_ms s)" and ?sel = "selector E ''maxRebalanceAmount()''"
  let ?s1 = "snd (run_state (insert_rebalance_op E ?i src dst amount) s)"
  obtain r where r: "find_op ?s1 ?i = Some r" "op_data src dst amount r"
      "\<And>k. k \<noteq> ?i \<Longrightarrow> find_op ?s1 k = find_op s k"
    using assms(1,2)
    by (auto simp: insert_rebalance_op_def run_db find_op_def find_row_insert_row op_data_def tick_on_def
        split: option.splits)
  obtain c s2 where c: "run_state (fetch_max_rebalance_amount E u b ?sel) ?s1 = (c, s2)" by fastforce
  have "rebalance_ops s2 = rebalance_ops ?s1"
    by (rule keepsD [OF keeps_beyond_sys [OF beyond_rebalance_ops(2) fetch_keeps(8)] c])
  then have f2: "find_op s2 k = find_op ?s1 k" for k by (simp add: find_op_def)
  have run: "snd (run_state (submit_op E cfg src u b dst amount) s) = snd (run_state (case c of
      None \<Rightarrow> update_rebalance_op_failed E ?i
    | Some cap \<Rightarrow> if cap = 0 then update_rebalance_op_failed E ?i
        else submit_chunks E cfg ?i src u b dst (split_amount_by_cap amount cap)) s2)"
    by (simp add: submit_op_def Let_def split_beta c split: option.split)
  have fail: "op_settled ?i src dst amount s2 (snd (run_state (update_rebalance_op_failed E ?i) s2))"
    using r f2 by (intro failed_settles [OF assms(1), of _ _ r]) auto
  have "op_settled ?i src dst amount s2
      (snd (run_state (submit_chunks E cfg ?i src u b dst (split_amount_by_cap amount cap)) s2))" if "cap \<noteq> 0" for cap
    using r f2 that assms(3)
    by (intro submit_chunks_settles [OF assms(1), of _ _ r])
      (auto simp: split_amount_by_cap_def split_loop_step)
  with fail have "op_settled ?i src dst amount s2 (snd (run_state (submit_op E cfg src u b dst amount) s))"
    unfolding run by (auto split: option.split)
  then show ?thesis using r(3) f2 by (simp add: op_settled_def)
qed

section \<open>Concrete runs\<close>

text \<open>Two chains, the pool of the first at 1000 and of the second empty.\<close>

definition uneven_env :: "u256 option \<Rightarrow> env" where
  "uneven_env cap = (sample_env quantity_answer)\<lparr>
     http_post := (\<lambda>n url body. Inr (JObj [(''result'',
       JStr (hex_0x (u256_to_be_bytes (if url = ''a'' then 1000 else 0))))])),
     u256_from_str := (\<lambda>s. cap)\<rparr>"

definition cold_start :: "rebalance_row list \<Rightarrow> cold_path" where
  "cold_start rows =
     \<lparr>now_ms = 5, tick = 0, calls = [], nonce_cache = Map.empty, active_chains = {1, 2},
      decommissioned_chains = {}, relayer_key = Some [1], relayer_address = Some (replicate 20 5),
      route_last_block = 0, rebalance_ops = rows\<rparr>"

definition pending_row :: rebalance_row where
  "pending_row =
     \<lparr>rb_op_id = ''1-2-0'', rb_source_chain_id = 1, rb_dest_chain_id = 2, rb_amount_wei = 500,
      rb_ccip_message_id = None, rb_source_tx_hash = None, rb_status = ''pending'', rb_created_at = 0,
      rb_updated_at = 0\<rparr>"

lemma uneven_depth:
  "fst (run_state (fetch_pool_depth (uneven_env cap) u a sel) s) = Some (if u = ''a'' then 1000 else 0)"
  by (simp add: fetch_pool_depth_def fetch_u256_view_def run_post uneven_env_def word_result_def
      result_str_def jindex_def)

theorem cold_plan_within_witness:
  "\<exists>ops. cold_plan (uneven_env None) sample_config [(1, 1000), (2, 0)] = Some ops \<and>
     plan_within None 500 [(1, 1000), (2, 0)] ops"
  using cold_plan_within [of "uneven_env None" "[(1, 1000), (2, 0)]" sample_config]
  by (simp add: uneven_env_def sample_env_def max_wei_per_op_def sample_config_def target_depth_def
      total_depth_def)

theorem cold_cycle_safe_witness:
  "fst (run_state (run_rebalance_cycle (uneven_env None) sample_config) (cold_start [])) = Some ()"
  using cold_cycle_safe [of "uneven_env None" sample_config "cold_start []"]
  by (simp add: uneven_env_def sample_env_def max_wei_per_op_def sample_config_def)

theorem cold_cycle_zero_cap_hangs_witness:
  "fst (run_state (run_rebalance_cycle (uneven_env (Some 0)) (sample_config\<lparr>cold_path_max_wei := ''0''\<rparr>))
     (cold_start [])) = None"
proof -
  let ?E = "uneven_env (Some 0)" and ?cfg = "sample_config\<lparr>cold_path_max_wei := ''0''\<rparr>"
  have el: "eligible_chains ?cfg (active_chains (cold_start [])) (decommissioned_chains (cold_start [])) =
      [(1, ''a'', hex_0x (replicate 20 1)), (2, ''b'', hex_0x (replicate 20 2))]"
    by (simp add: eligible_chains_def cold_start_def sample_config_def)
  obtain s1 where run: "run_state (fetch_depths ?E (selector ?E ''poolDepth()'')
      (eligible_chains ?cfg (active_chains (cold_start [])) (decommissioned_chains (cold_start [])))) (cold_start [])
      = (Some [(1, 1000), (2, 0)], s1)"
    unfolding el by (simp add: split_beta uneven_depth)
  show ?thesis
    by (rule cold_cycle_zero_cap_hangs [OF _ run, where target = 500], simp add: el)
      (simp_all add: uneven_env_def sample_env_def max_wei_per_op_def sample_config_def target_depth_def
        total_depth_def below_min_def)
qed

theorem in_flight_pair_skipped_witness:
  "rebalance_ops (snd (run_state (run_op (uneven_env None) sample_config (1, 2, 500)) (cold_start [pending_row]))) =
     [pending_row]"
proof -
  let ?E = "uneven_env None" and ?b = "hex_0x (replicate 20 1)"
  obtain d s1 where r: "run_state (fetch_pool_depth ?E ''a'' ?b (selector ?E ''poolDepth()'')) (cold_start [pending_row])
      = (d, s1)" by fastforce
  have "s1 = (tick_on ?E 0 (cold_start [pending_row]))\<lparr>calls :=
      [(''a'', eth_call_body ?b (hex_0x (selector ?E ''poolDepth()'')))]\<rparr>"
    using r by (auto simp: fetch_pool_depth_def fetch_u256_view_def run_post cold_start_def)
  then have fl: "rebalance_in_flight s1 1 2"
    by (simp add: rebalance_in_flight_def cold_start_def tick_on_def pending_row_def IN_FLIGHT_WINDOW_def
        uneven_env_def sample_env_def)
  have cfg: "map_of (rpc_urls sample_config) 1 = Some ''a''"
    "map_of (contract_addresses sample_config) 1 = Some ?b" by (simp_all add: sample_config_def)
  have "db_up ?E (tick s1)" by (simp add: uneven_env_def sample_env_def)
  from in_flight_pair_skipped [OF cfg r fl this, of 500] show ?thesis by (simp add: cold_start_def)
qed

theorem rebalance_error_erased_witness:
  "fst (run_state (submit_rebalance_with_retry (sample_env quantity_answer) sample_config 1 ''a'' ''c'' 2 5)
     ((cold_start [])\<lparr>relayer_key := None\<rparr>)) = Inl MissingKey"
proof -
  obtain e s' where r: "run_state (submit_rebalance_with_retry (sample_env quantity_answer) sample_config 1 ''a'' ''c'' 2 5)
      ((cold_start [])\<lparr>relayer_key := None\<rparr>) = (Inl e, s')"
    by (simp add: submit_rebalance_with_retry_def)
  from rebalance_error_erased [OF r] r show ?thesis by (auto simp: submit_rebalance_with_retry_def)
qed

theorem cold_op_settles_witness:
  "op_settled (op_id_of 1 2 5) 1 2 500 (cold_start [])
     (snd (run_state (submit_op (uneven_env None) sample_config 1 ''a'' (hex_0x (replicate 20 1)) 2 500) (cold_start [])))"
  using cold_op_settles [of "uneven_env None" "cold_start []" 1 2 500 sample_config "''a''" "hex_0x (replicate 20 1)"]
  by (simp add: cold_start_def find_op_def find_row_def uneven_env_def sample_env_def)

end
