(* ===== verification/ReservePath.thy ===== *)
theory ReservePath
  imports Planner Table
begin

text \<open>
  The reserve path (\<open>reserve_path.rs\<close>) with its repository (\<open>db/reserve_repo.rs\<close>): the planner that
  bridges USDC reserves from surplus to deficit chains, the relayer that fetches Circle's
  attestation and calls \<open>bridgeIn\<close> on the destination, and the watcher that marks operations
  completed or stuck. The three run as independent tasks over the table \<open>treasury.reserve_ops\<close>;
  \<open>ReserveLifecycle\<close> models their interleaving.
\<close>

section \<open>The table reserve\_ops\<close>

record reserve_row =
  rs_op_id :: OperationId
  rs_source_chain_id :: int
  rs_dest_chain_id :: int
  rs_amount_wei :: nat
  rs_bridge_type :: string
  rs_bridge_message_id :: "string option"
  rs_source_tx_hash :: "string option"
  rs_cctp_message_bytes :: "string option"
  rs_cctp_attestation :: "string option"
  rs_dest_tx_hash :: "string option"
  rs_status :: string
  rs_created_at :: nat
  rs_updated_at :: nat
  rs_completed_at :: "nat option"

record reserve_path = router +
  reserve_ops :: "reserve_row list"
  watcher_cursor :: "ChainId \<rightharpoonup> u64"

definition reserve_in_flight :: "'m reserve_path_scheme \<Rightarrow> ChainId \<Rightarrow> ChainId \<Rightarrow> bool" where
  "reserve_in_flight s source_chain dest_chain \<longleftrightarrow>
     list_ex (\<lambda>r. rs_source_chain_id r = sint source_chain \<and> rs_dest_chain_id r = sint dest_chain \<and>
       rs_status r \<in> {''pending'', ''submitted'', ''relayed''} \<and> now_ms s < rs_created_at r + 86400000)
     (reserve_ops s)"

definition reserve_op_in_flight :: "env \<Rightarrow> ChainId \<Rightarrow> ChainId \<Rightarrow> ('m reserve_path_scheme, bool) state" where
  "reserve_op_in_flight E source_chain dest_chain = do {
     r \<leftarrow> gets (\<lambda>s. reserve_in_flight s source_chain dest_chain);
     up \<leftarrow> db E;
     ret (if up then r else False)
   }"

definition insert_reserve_op ::
  "env \<Rightarrow> OperationId \<Rightarrow> ChainId \<Rightarrow> ChainId \<Rightarrow> u256 \<Rightarrow> string \<Rightarrow> ('m reserve_path_scheme, unit) state" where
  "insert_reserve_op E op_id source_chain dest_chain amount bridge_type = do {
     up \<leftarrow> db E;
     (if up then modify (\<lambda>s. s\<lparr>reserve_ops := insert_row rs_op_id
        \<lparr>rs_op_id = op_id, rs_source_chain_id = sint source_chain, rs_dest_chain_id = sint dest_chain,
         rs_amount_wei = unat amount, rs_bridge_type = bridge_type, rs_bridge_message_id = None,
         rs_source_tx_hash = None, rs_cctp_message_bytes = None, rs_cctp_attestation = None,
         rs_dest_tx_hash = None, rs_status = ''pending'', rs_created_at = now_ms s,
         rs_updated_at = now_ms s, rs_completed_at = None\<rparr> (reserve_ops s)\<rparr>)
      else ret ())
   }"

text \<open>One \<open>UPDATE ... SET ..., updated_at = NOW() WHERE op_id = ...\<close> statement.\<close>

definition update_reserve ::
  "env \<Rightarrow> OperationId \<Rightarrow> (nat \<Rightarrow> reserve_row \<Rightarrow> reserve_row) \<Rightarrow> ('m reserve_path_scheme, unit) state" where
  "update_reserve E op_id f = do {
     up \<leftarrow> db E;
     (if up then modify (\<lambda>s. s\<lparr>reserve_ops := update_rows rs_op_id op_id
        (\<lambda>r. (f (now_ms s) r)\<lparr>rs_updated_at := now_ms s\<rparr>) (reserve_ops s)\<rparr>)
      else ret ())
   }"

definition update_submitted ::
  "env \<Rightarrow> OperationId \<Rightarrow> TxHash \<Rightarrow> string option \<Rightarrow> ('m reserve_path_scheme, unit) state" where
  "update_submitted E op_id source_tx_hash bridge_message_id =
     update_reserve E op_id (\<lambda>now r. r\<lparr>rs_status := ''submitted'', rs_source_tx_hash := Some source_tx_hash,
       rs_bridge_message_id := bridge_message_id\<rparr>)"

definition update_attestation ::
  "env \<Rightarrow> OperationId \<Rightarrow> string \<Rightarrow> string \<Rightarrow> ('m reserve_path_scheme, unit) state" where
  "update_attestation E op_id cctp_message_bytes cctp_attestation =
     update_reserve E op_id (\<lambda>now r. r\<lparr>rs_cctp_message_bytes := Some cctp_message_bytes,
       rs_cctp_attestation := Some cctp_attestation\<rparr>)"

definition update_relayed :: "env \<Rightarrow> OperationId \<Rightarrow> TxHash \<Rightarrow> ('m reserve_path_scheme, unit) state" where
  "update_relayed E op_id dest_tx_hash =
     update_reserve E op_id (\<lambda>now r. r\<lparr>rs_status := ''relayed'', rs_dest_tx_hash := Some dest_tx_hash\<rparr>)"

definition update_completed :: "env \<Rightarrow> OperationId \<Rightarrow> ('m reserve_path_scheme, unit) state" where
  "update_completed E op_id =
     update_reserve E op_id (\<lambda>now r. r\<lparr>rs_status := ''completed'', rs_completed_at := Some now\<rparr>)"

definition update_failed :: "env \<Rightarrow> OperationId \<Rightarrow> ('m reserve_path_scheme, unit) state" where
  "update_failed E op_id = update_reserve E op_id (\<lambda>now r. r\<lparr>rs_status := ''failed''\<rparr>)"

definition awaits_attestation :: "reserve_row \<Rightarrow> bool" where
  "awaits_attestation r \<longleftrightarrow> rs_status r = ''submitted'' \<and> rs_bridge_message_id r \<noteq> None \<and>
     rs_cctp_attestation r = None"

text \<open>\<open>ORDER BY updated_at ASC LIMIT 50\<close>\<close>

definition oldest_50 :: "reserve_row list \<Rightarrow> reserve_row list" where
  "oldest_50 rows = take 50 (sort_key rs_updated_at rows)"

definition list_awaiting_attestation :: "env \<Rightarrow> ('m reserve_path_scheme, reserve_row list) state" where
  "list_awaiting_attestation E = do {
     rows \<leftarrow> gets reserve_ops;
     up \<leftarrow> db E;
     ret (if up then oldest_50 (filter awaits_attestation rows) else [])
   }"

definition find_by_dest_and_message_id ::
  "env \<Rightarrow> ChainId \<Rightarrow> string \<Rightarrow> ('m reserve_path_scheme, reserve_row option) state" where
  "find_by_dest_and_message_id E dest_chain bridge_message_id = do {
     rows \<leftarrow> gets reserve_ops;
     up \<leftarrow> db E;
     ret (if up then find (\<lambda>r. rs_dest_chain_id r = sint dest_chain \<and>
            rs_bridge_message_id r = Some bridge_message_id) rows else None)
   }"

definition is_stuck :: "nat \<Rightarrow> nat \<Rightarrow> reserve_row \<Rightarrow> bool" where
  "is_stuck now stuck_after_secs r \<longleftrightarrow>
     rs_status r \<in> {''pending'', ''submitted'', ''relayed''} \<and> rs_updated_at r + stuck_after_secs * 1000 < now"

definition list_stuck :: "env \<Rightarrow> nat \<Rightarrow> ('m reserve_path_scheme, reserve_row list) state" where
  "list_stuck E stuck_after_secs = do {
     rows \<leftarrow> gets reserve_ops;
     now \<leftarrow> gets now_ms;
     up \<leftarrow> db E;
     ret (if up then oldest_50 (filter (is_stuck now stuck_after_secs) rows) else [])
   }"

section \<open>The planner\<close>

definition reserve_plan :: "env \<Rightarrow> Config \<Rightarrow> depths \<Rightarrow> rebalance_op list option" where
  "reserve_plan E cfg depths =
     (let tot = total_depth depths; target = tot div of_nat (length depths); ds = hash_order E depths
      in if tot = 0 then Some []
         else if target = 0 then Some []
         else if \<not> below_min target (reserve_path_min_bps cfg) ds then Some []
         else compute_rebalance_ops (surpluses target ds) (deficits target ds)
                (max_wei_per_op E (reserve_path_max_wei cfg)))"

definition bridge_reserve_call :: "env \<Rightarrow> ChainId \<Rightarrow> u256 \<Rightarrow> byte list" where
  "bridge_reserve_call E dest_chain amount =
     encode_bridge_reserve (selector E ''bridgeReserve(uint64,uint256)'') dest_chain amount"

definition submit_bridge_reserve_once ::
  "env \<Rightarrow> ChainId \<Rightarrow> string \<Rightarrow> string \<Rightarrow> ChainId \<Rightarrow> u256 \<Rightarrow> Address \<Rightarrow> byte list
     \<Rightarrow> ('m reserve_path_scheme, TxError + (TxHash \<times> string option)) state" where
  "submit_bridge_reserve_once E chain_id rpc_url bank_addr dest_chain_id amount relayer_addr key = do {
     t \<leftarrow> submit_tx E rpc_url bank_addr chain_id key relayer_addr 350000 []
            (bridge_reserve_call E dest_chain_id amount);
     (case t of
        Inl e \<Rightarrow> ret (Inl e)
      | Inr tx_hash \<Rightarrow> do {
          w \<leftarrow> wait_for_receipt_logs E rpc_url tx_hash 120000;
          ret (case w of
                 Inl e \<Rightarrow> Inl e
               | Inr logs \<Rightarrow> Inr (tx_hash, extract_reserve_bridge_initiated_message_id E logs))
        })
   }"

definition submit_bridge_reserve ::
  "env \<Rightarrow> ChainId \<Rightarrow> string \<Rightarrow> string \<Rightarrow> ChainId \<Rightarrow> u256
     \<Rightarrow> ('m reserve_path_scheme, TxError + (TxHash \<times> string option)) state" where
  "submit_bridge_reserve E source_chain rpc_url bank_addr dest_chain amount = do {
     k \<leftarrow> gets relayer_key;
     a \<leftarrow> gets relayer_address;
     (case (k, a) of
        (Some key, Some relayer_addr) \<Rightarrow>
          with_retry E source_chain
            (submit_bridge_reserve_once E source_chain rpc_url bank_addr dest_chain amount relayer_addr key) 3
      | _ \<Rightarrow> ret (Inl MissingKey))
   }"

definition reserve_op_id :: "ChainId \<Rightarrow> ChainId \<Rightarrow> nat \<Rightarrow> OperationId" where
  "reserve_op_id source_chain dest_chain ts_ms =
     ''res-'' @ show_nat (unat source_chain) @ ''-'' @ show_nat (unat dest_chain) @ ''-'' @ show_nat ts_ms"

definition start_reserve_op ::
  "env \<Rightarrow> ChainId \<Rightarrow> string \<Rightarrow> string \<Rightarrow> ChainId \<Rightarrow> u256 \<Rightarrow> ('m reserve_path_scheme, unit) state" where
  "start_reserve_op E source_chain src_rpc src_bank dest_chain amount = do {
     ts_ms \<leftarrow> gets now_ms;
     let op_id = reserve_op_id source_chain dest_chain ts_ms;
     insert_reserve_op E op_id source_chain dest_chain amount ''CCTP'';
     r \<leftarrow> submit_bridge_reserve E source_chain src_rpc src_bank dest_chain amount;
     (case r of
        Inr (tx_hash, message_id) \<Rightarrow> update_submitted E op_id tx_hash message_id
      | Inl e \<Rightarrow> update_failed E op_id)
   }"

definition run_reserve_op :: "env \<Rightarrow> Config \<Rightarrow> rebalance_op \<Rightarrow> ('m reserve_path_scheme, unit) state" where
  "run_reserve_op E cfg op = (case op of (source_chain, dest_chain, amount) \<Rightarrow>
     (case (map_of (rpc_urls cfg) source_chain, map_of (contract_addresses cfg) source_chain) of
        (Some src_rpc, Some src_bank) \<Rightarrow> do {
          d \<leftarrow> fetch_pool_depth E src_rpc src_bank (selector E ''reserveDepth()'');
          (case d of
             None \<Rightarrow> ret ()
           | Some live_depth \<Rightarrow> do {
               in_flight \<leftarrow> reserve_op_in_flight E source_chain dest_chain;
               (case evaluate_rebalance_op live_depth amount in_flight of
                  Submit \<Rightarrow> start_reserve_op E source_chain src_rpc src_bank dest_chain amount
                | _ \<Rightarrow> ret ())
             })
        }
      | _ \<Rightarrow> ret ()))"

definition run_planner_cycle :: "env \<Rightarrow> Config \<Rightarrow> ('m reserve_path_scheme, unit option) state" where
  "run_planner_cycle E cfg = do {
     active \<leftarrow> gets active_chains;
     decommissioned \<leftarrow> gets decommissioned_chains;
     let chains' = eligible_chains cfg active decommissioned;
     (if length chains' < 2 then ret (Some ())
      else do {
        ds \<leftarrow> fetch_depths E (selector E ''reserveDepth()'') chains';
        (case ds of
           None \<Rightarrow> ret (Some ())
         | Some depths \<Rightarrow>
             (case reserve_plan E cfg depths of
                None \<Rightarrow> ret None
              | Some ops \<Rightarrow> do { for_each (run_reserve_op E cfg) ops; ret (Some ()) }))
      })
   }"

section \<open>The relayer\<close>

definition trim_end_slashes :: "string \<Rightarrow> string" where
  "trim_end_slashes s = rev (dropWhile (\<lambda>c. c = CHR ''/'') (rev s))"

definition attestation_url :: "Config \<Rightarrow> u32 \<Rightarrow> string \<Rightarrow> string" where
  "attestation_url cfg src_domain src_tx_hash =
     trim_end_slashes (circle_attestation_api_url cfg) @ ''/v1/messages/'' @ show_nat (unat src_domain) @
       ''/'' @ src_tx_hash"

definition attestation_of_json :: "json \<Rightarrow> (string \<times> string) option" where
  "attestation_of_json body =
     (case Option.bind (jget body ''messages'') as_array of
        Some (first # _) \<Rightarrow>
          (case (Option.bind (jget first ''attestation'') as_str, Option.bind (jget first ''message'') as_str) of
             (Some attestation, Some message) \<Rightarrow>
               if eq_ignore_ascii_case attestation ''PENDING'' \<or> \<not> starts_with attestation ''0x'' then None
               else Some (message, attestation)
           | _ \<Rightarrow> None)
      | _ \<Rightarrow> None)"

definition fetch_circle_attestation ::
  "env \<Rightarrow> Config \<Rightarrow> u32 \<Rightarrow> string \<Rightarrow> ('m reserve_path_scheme, (string \<times> string) option) state" where
  "fetch_circle_attestation E cfg src_domain src_tx_hash = do {
     resp \<leftarrow> http_fetch E (attestation_url cfg src_domain src_tx_hash);
     ret (case resp of
            Inr (True, Inr body) \<Rightarrow> attestation_of_json body
          | _ \<Rightarrow> None)
   }"

definition bridge_fee :: "env \<Rightarrow> Config \<Rightarrow> byte list" where
  "bridge_fee E cfg =
     u256_to_trimmed_be (case u256_from_str E (reserve_bridge_fee_wei cfg) of Some v \<Rightarrow> v | None \<Rightarrow> 0)"

definition bridge_in_call :: "env \<Rightarrow> byte list \<Rightarrow> byte list \<Rightarrow> byte list" where
  "bridge_in_call E message attestation = encode_bridge_in (selector E ''bridgeIn(bytes,bytes)'') message attestation"

definition submit_bridge_in_once ::
  "env \<Rightarrow> Config \<Rightarrow> ChainId \<Rightarrow> string \<Rightarrow> string \<Rightarrow> byte list \<Rightarrow> byte list \<Rightarrow> Address \<Rightarrow> byte list
     \<Rightarrow> ('m reserve_path_scheme, TxError + TxHash) state" where
  "submit_bridge_in_once E cfg chain_id rpc_url adapter_addr message attestation relayer_addr key = do {
     t \<leftarrow> submit_tx E rpc_url adapter_addr chain_id key relayer_addr 400000 (bridge_fee E cfg)
            (bridge_in_call E message attestation);
     (case t of
        Inl e \<Rightarrow> ret (Inl e)
      | Inr tx_hash \<Rightarrow> do {
          w \<leftarrow> wait_for_receipt_logs E rpc_url tx_hash 120000;
          ret (case w of Inl e \<Rightarrow> Inl e | Inr logs \<Rightarrow> Inr tx_hash)
        })
   }"

definition submit_bridge_in ::
  "env \<Rightarrow> Config \<Rightarrow> ChainId \<Rightarrow> string \<Rightarrow> string \<Rightarrow> byte list \<Rightarrow> byte list
     \<Rightarrow> ('m reserve_path_scheme, TxError + TxHash) state" where
  "submit_bridge_in E cfg dest_chain rpc_url adapter_addr message attestation = do {
     k \<leftarrow> gets relayer_key;
     a \<leftarrow> gets relayer_address;
     (case (k, a) of
        (Some key, Some relayer_addr) \<Rightarrow>
          with_retry E dest_chain
            (submit_bridge_in_once E cfg dest_chain rpc_url adapter_addr message attestation relayer_addr key) 3
      | _ \<Rightarrow> ret (Inl MissingKey))
   }"

text \<open>
  \<open>relay_one\<close> in two parts, because other tasks run between them: everything up to the end of the
  \<open>bridgeIn\<close> submission (no result when the code returned early), itself split where the attestation
  is there, and the recording of its outcome.
\<close>

definition relay_dispatch ::
  "env \<Rightarrow> Config \<Rightarrow> reserve_row \<Rightarrow> string \<Rightarrow> string \<Rightarrow> ('m reserve_path_scheme, (TxError + TxHash) option) state" where
  "relay_dispatch E cfg row message_hex attestation_hex = do {
     update_attestation E (rs_op_id row) message_hex attestation_hex;
     let dest_chain = (word_of_int (rs_dest_chain_id row) :: ChainId);
     (case (map_of (rpc_urls cfg) dest_chain,
            Option.bind (reserve_bridge_addresses cfg) (\<lambda>m. map_of m dest_chain)) of
        (Some dest_rpc, Some dest_adapter) \<Rightarrow>
          (case (decode_hex message_hex, decode_hex attestation_hex) of
             (Some message_bytes, Some attestation_bytes) \<Rightarrow> do {
               r \<leftarrow> submit_bridge_in E cfg dest_chain dest_rpc dest_adapter message_bytes attestation_bytes;
               ret (Some r)
             }
           | _ \<Rightarrow> do { update_failed E (rs_op_id row); ret None })
      | _ \<Rightarrow> ret None)
   }"

definition relay_submit ::
  "env \<Rightarrow> Config \<Rightarrow> reserve_row \<Rightarrow> ('m reserve_path_scheme, (TxError + TxHash) option) state" where
  "relay_submit E cfg row =
     (case (rs_source_tx_hash row,
            Option.bind (cctp_domains cfg) (\<lambda>m. map_of m (word_of_int (rs_source_chain_id row)))) of
        (Some src_tx, Some src_domain) \<Rightarrow> do {
          att \<leftarrow> fetch_circle_attestation E cfg src_domain src_tx;
          (case att of
             None \<Rightarrow> ret None
           | Some (message_hex, attestation_hex) \<Rightarrow> relay_dispatch E cfg row message_hex attestation_hex)
        }
      | _ \<Rightarrow> ret None)"

definition relay_record ::
  "env \<Rightarrow> OperationId \<Rightarrow> TxError + TxHash \<Rightarrow> ('m reserve_path_scheme, unit) state" where
  "relay_record E op_id r =
     (case r of Inr tx_hash \<Rightarrow> update_relayed E op_id tx_hash | Inl e \<Rightarrow> update_failed E op_id)"

definition relay_one :: "env \<Rightarrow> Config \<Rightarrow> reserve_row \<Rightarrow> ('m reserve_path_scheme, unit) state" where
  "relay_one E cfg row = do {
     r \<leftarrow> relay_submit E cfg row;
     (case r of None \<Rightarrow> ret () | Some x \<Rightarrow> relay_record E (rs_op_id row) x)
   }"

definition relayer_round :: "env \<Rightarrow> Config \<Rightarrow> ('m reserve_path_scheme, unit) state" where
  "relayer_round E cfg = do {
     rows \<leftarrow> list_awaiting_attestation E;
     for_each (relay_one E cfg) rows
   }"

section \<open>The watcher\<close>

definition observe_completed :: "env \<Rightarrow> ChainId \<Rightarrow> RpcLog \<Rightarrow> ('m reserve_path_scheme, unit) state" where
  "observe_completed E chain_id log =
     (if length (topics log) < 2 then ret ()
      else do {
        r \<leftarrow> find_by_dest_and_message_id E chain_id (topics log ! 1);
        (case r of
           None \<Rightarrow> ret ()
         | Some row \<Rightarrow>
             if rs_status row \<noteq> ''completed'' then update_completed E (rs_op_id row) else ret ())
      })"

definition watch_chain ::
  "env \<Rightarrow> Config \<Rightarrow> ChainId set \<Rightarrow> ChainId set \<Rightarrow> u64 \<times> string \<Rightarrow> ('m reserve_path_scheme, unit) state" where
  "watch_chain E cfg active decommissioned entry = (case entry of (chain_id, rpc_url) \<Rightarrow>
     if chain_id \<notin> active \<or> chain_id \<in> decommissioned then ret ()
     else
       (case map_of (contract_addresses cfg) chain_id of
          None \<Rightarrow> ret ()
        | Some bank_addr \<Rightarrow> do {
            b \<leftarrow> fetch_block_number E rpc_url;
            (case b of
               None \<Rightarrow> ret ()
             | Some to_block \<Rightarrow> do {
                 cursor \<leftarrow> gets watcher_cursor;
                 let prev = (case cursor chain_id of Some p \<Rightarrow> p | None \<Rightarrow> to_block);
                 modify (\<lambda>s. s\<lparr>watcher_cursor := (watcher_cursor s)(chain_id \<mapsto> to_block + 1)\<rparr>);
                 logs \<leftarrow> fetch_logs E rpc_url bank_addr
                   (event_topic E ''ReserveBridgeCompleted(bytes32,uint64,uint256)'')
                   (clamp_from prev to_block) to_block;
                 for_each (observe_completed E chain_id) logs
               })
          }))"

definition run_watcher_cycle :: "env \<Rightarrow> Config \<Rightarrow> ('m reserve_path_scheme, unit) state" where
  "run_watcher_cycle E cfg = do {
     active \<leftarrow> gets active_chains;
     decommissioned \<leftarrow> gets decommissioned_chains;
     for_each (watch_chain E cfg active decommissioned) (rpc_urls cfg);
     stuck \<leftarrow> list_stuck E (unat (reserve_path_stuck_timeout_secs cfg));
     for_each (\<lambda>row. update_failed E (rs_op_id row)) stuck
   }"

section \<open>What the module sends\<close>

lemmas reserve_updates =
  update_submitted_def update_attestation_def update_relayed_def update_completed_def update_failed_def

lemma reserve_repo_quiet:
  "keeps calls (reserve_op_in_flight E a b)" "keeps calls (insert_reserve_op E i a b x ty)"
  "keeps calls (update_reserve E i f)" "keeps calls (list_awaiting_attestation E)"
  "keeps calls (find_by_dest_and_message_id E c m)" "keeps calls (list_stuck E n)"
  "keeps calls (fetch_circle_attestation E cfg d h)"
  by (simp_all add: keeps_def reserve_op_in_flight_def insert_reserve_op_def update_reserve_def
      list_awaiting_attestation_def find_by_dest_and_message_id_def list_stuck_def
      fetch_circle_attestation_def run_db http_fetch_def)

lemmas reserve_repo_sending = reserve_repo_quiet [THEN quiet_sending]

definition is_bridge_out :: "env \<Rightarrow> Config \<Rightarrow> (ChainId \<Rightarrow> bool) \<Rightarrow> string \<times> json \<Rightarrow> bool" where
  "is_bridge_out E cfg A c \<longleftrightarrow> (\<exists>src dst a u b key. A src \<and> A dst \<and> src \<noteq> dst \<and>
     (case max_wei_per_op E (reserve_path_max_wei cfg) of None \<Rightarrow> True | Some cap \<Rightarrow> a \<le> cap) \<and>
     map_of (rpc_urls cfg) src = Some u \<and> map_of (contract_addresses cfg) src = Some b \<and>
     signed_for E u b src key 350000 [] (bridge_reserve_call E dst a) c)"

lemma submit_bridge_reserve_sending:
  assumes "\<And>key c. signed_for E u b src key 350000 [] (bridge_reserve_call E dst a) c \<Longrightarrow> Q c"
  shows "step_rel (only_sends Q) (submit_bridge_reserve E src u b dst a)"
proof -
  have "emits (signed_for E u b src key 350000 [] (bridge_reserve_call E dst a)) 1
      (submit_bridge_reserve_once E src u b dst a addr key)" for key addr
    unfolding submit_bridge_reserve_once_def
    by (intro emits_first emits_case emits_ret submit_tx_emits wait_emits emits_then)
  from only_sends_mono [OF assms emits_sending [OF with_retry_emits [OF this]]] show ?thesis
    unfolding submit_bridge_reserve_def
    by (auto intro!: sending.rules split: option.split)
qed

lemma run_reserve_op_sending:
  assumes "\<And>u b key c. map_of (rpc_urls cfg) src = Some u \<Longrightarrow> map_of (contract_addresses cfg) src = Some b \<Longrightarrow>
    signed_for E u b src key 350000 [] (bridge_reserve_call E dst a) c \<Longrightarrow> Q c"
  shows "step_rel (only_sends Q) (run_reserve_op E cfg (src, dst, a))"
  unfolding run_reserve_op_def start_reserve_op_def Let_def reserve_updates
  by (auto intro!: sending.rules reserve_repo_sending fetch_sending submit_bridge_reserve_sending
      intro: assms split: RebalanceOpDecision.split option.split)

lemma reserve_plan_ok:
  assumes "mset (hash_order E depths) = mset depths" "distinct (map fst depths)"
    "max_wei_per_op E (reserve_path_max_wei cfg) \<noteq> Some 0"
  shows "\<exists>ops. reserve_plan E cfg depths = Some ops \<and>
    plan_within (max_wei_per_op E (reserve_path_max_wei cfg))
      (total_depth depths div of_nat (length depths)) depths ops"
proof -
  let ?t = "total_depth depths div of_nat (length depths)"
    and ?cap = "max_wei_per_op E (reserve_path_max_wei cfg)"
  obtain ops where ops: "compute_rebalance_ops (surpluses ?t (hash_order E depths))
      (deficits ?t (hash_order E depths)) ?cap = Some ops" "plan_within ?cap ?t depths ops"
    using planned [OF assms] by blast
  have "reserve_plan E cfg depths \<in> {Some [], Some ops}" by (simp add: reserve_plan_def Let_def ops(1))
  then show ?thesis using ops(2) plan_within_Nil by blast
qed

interpretation reserve_planning: planning E cfg "max_wei_per_op E (reserve_path_max_wei cfg)"
  "\<lambda>ds. total_depth ds div of_nat (length ds)" "reserve_plan E cfg"
  "run_reserve_op E cfg :: _ \<Rightarrow> ('m reserve_path_scheme, unit) state" "is_bridge_out E cfg"
  for E cfg
proof unfold_locales
  fix A and src dst :: ChainId and x
  assume w: "A src" "A dst" "src \<noteq> dst"
    "case max_wei_per_op E (reserve_path_max_wei cfg) of None \<Rightarrow> True | Some cap \<Rightarrow> x \<le> cap"
  have "is_bridge_out E cfg A c"
    if "map_of (rpc_urls cfg) src = Some u" "map_of (contract_addresses cfg) src = Some b"
      "signed_for E u b src key 350000 [] (bridge_reserve_call E dst x) c" for u b key c
    unfolding is_bridge_out_def using that w by (intro exI conjI) auto
  then show "step_rel (only_sends (is_bridge_out E cfg A))
      (run_reserve_op E cfg (src, dst, x) :: ('m reserve_path_scheme, unit) state)"
    by (intro run_reserve_op_sending)
qed (rule reserve_plan_ok)

lemma run_planner_cycle_eq:
  "run_planner_cycle E cfg =
     planning_cycle E cfg (selector E ''reserveDepth()'') (reserve_plan E cfg) (run_reserve_op E cfg)"
  by (simp add: run_planner_cycle_def planning_cycle_def)

text \<open>
  C26. A planner cycle of the reserve path always ends, unless the configured cap is zero, and it
  sends nothing but \<open>bridgeReserve\<close> transactions, each moving at most the configured cap from one
  active, not decommissioned chain to another such chain through the configured node and Bank of
  the source chain.
\<close>

theorem reserve_planner_safe:
  assumes "\<forall>ds. mset (hash_order E ds) = mset ds" "distinct (map fst (rpc_urls cfg))"
    "max_wei_per_op E (reserve_path_max_wei cfg) \<noteq> Some 0"
  shows "fst (run_state (run_planner_cycle E cfg) s) = Some () \<and>
    only_sends (is_bridge_out E cfg (is_chain_active s)) s (snd (run_state (run_planner_cycle E cfg) s))"
  unfolding run_planner_cycle_eq using assms by (rule reserve_planning.cycle_safe)

section \<open>Concrete runs\<close>

definition reserve_start :: "reserve_row list \<Rightarrow> reserve_path" where
  "reserve_start rows =
     \<lparr>now_ms = 5, tick = 0, calls = [], nonce_cache = Map.empty, active_chains = {1, 2},
      decommissioned_chains = {}, relayer_key = Some [1], relayer_address = Some (replicate 20 5),
      route_last_block = 0, reserve_ops = rows, watcher_cursor = Map.empty\<rparr>"

theorem reserve_planner_safe_witness:
  "fst (run_state (run_planner_cycle (sample_env quantity_answer) sample_config) (reserve_start [])) = Some ()"
  using reserve_planner_safe [of "sample_env quantity_answer" sample_config "reserve_start []"]
  by (simp add: sample_env_def max_wei_per_op_def sample_config_def)

end
