(* ===== verification/ReserveLifecycle.thy ===== *)
theory ReserveLifecycle
  imports ReservePath
begin

text \<open>
  The life of a reserve operation under the interleaving of the four tasks of the reserve path: the
  poller of the route receiver, the planner, the relayer and the watcher. The relayer is split at its
  awaits: it lists the operations that await an attestation, then handles them one by one, first the
  attestation and the \<open>bridgeIn\<close> submission, then the recording of the outcome; the other tasks run in
  between.
\<close>

section \<open>Steps\<close>

record reserve_run = reserve_path +
  queued :: "reserve_row list"
  unrecorded :: "(OperationId \<times> (TxError + TxHash)) option"
  relays :: "OperationId list"

text \<open>One turn of the relayer's loop up to the submission; \<open>relays\<close> is the history of submissions.\<close>

definition relay_next :: "env \<Rightarrow> Config \<Rightarrow> reserve_row \<Rightarrow> ('m reserve_run_scheme, unit) state" where
  "relay_next E cfg row = do {
     r \<leftarrow> relay_submit E cfg row;
     (case r of
        None \<Rightarrow> ret ()
      | Some x \<Rightarrow> modify (\<lambda>s. s\<lparr>unrecorded := Some (rs_op_id row, x), relays := relays s @ [rs_op_id row]\<rparr>))
   }"

inductive reserve_step :: "env \<Rightarrow> Config \<Rightarrow> 'm reserve_run_scheme \<Rightarrow> 'm reserve_run_scheme \<Rightarrow> bool"
  for E cfg where
  route: "run_state (route_round E cfg clamp) s = (o', t) \<Longrightarrow> reserve_step E cfg s t"
| plan: "run_state (run_planner_cycle E cfg) s = (r, t) \<Longrightarrow> reserve_step E cfg s t"
| watch: "run_state (run_watcher_cycle E cfg) s = (r, t) \<Longrightarrow> reserve_step E cfg s t"
| listing: "queued s = [] \<Longrightarrow> unrecorded s = None \<Longrightarrow> run_state (list_awaiting_attestation E) s = (rows, t) \<Longrightarrow>
    reserve_step E cfg s (t\<lparr>queued := rows\<rparr>)"
| relay: "queued s = row # rows \<Longrightarrow> unrecorded s = None \<Longrightarrow>
    run_state (relay_next E cfg row) (s\<lparr>queued := rows\<rparr>) = (u, t) \<Longrightarrow> reserve_step E cfg s t"
| outcome: "unrecorded s = Some (i, x) \<Longrightarrow>
    run_state (relay_record E i x) (s\<lparr>unrecorded := None\<rparr>) = (u, t) \<Longrightarrow> reserve_step E cfg s t"

inductive_cases reserve_stepE: "reserve_step E cfg s t"

section \<open>What the tasks do to the table\<close>

definition op_ids :: "'m reserve_path_scheme \<Rightarrow> OperationId set" where
  "op_ids s = rs_op_id ` set (reserve_ops s)"

definition attested :: "'m reserve_path_scheme \<Rightarrow> OperationId \<Rightarrow> bool" where
  "attested s i \<longleftrightarrow> (\<exists>r\<in>set (reserve_ops s). rs_op_id r = i \<and> rs_cctp_attestation r \<noteq> None)"

text \<open>
  Rows stay, ids stay unique, an attestation stays, a new one appears only for an operation in \<open>K\<close>,
  and nothing beyond the module changes.
\<close>

definition table_rel :: "OperationId set \<Rightarrow> 'm reserve_path_scheme \<Rightarrow> 'm reserve_path_scheme \<Rightarrow> bool" where
  "table_rel K s t \<longleftrightarrow> (unique_key rs_op_id (reserve_ops s) \<longrightarrow> unique_key rs_op_id (reserve_ops t)) \<and>
     op_ids s \<subseteq> op_ids t \<and> (\<forall>i. attested s i \<longrightarrow> attested t i) \<and> (\<forall>i. attested t i \<longrightarrow> attested s i \<or> i \<in> K) \<and>
     reserve_path.more t = reserve_path.more s"

interpretation table_evolution: step_preorder "table_rel K" for K
  by unfold_locales (auto simp: table_rel_def)

lemma beyond_signer_reserve:
  "beyond_signer (\<lambda>s :: 'm reserve_path_scheme. (reserve_ops s, reserve_path.more s))"
  unfolding beyond_signer_def by (intro allI impI, case_tac s, case_tac t, simp)

lemma table_same: "reserve_ops t = reserve_ops s \<Longrightarrow> reserve_path.more t = reserve_path.more s \<Longrightarrow> table_rel K s t"
  by (simp add: table_rel_def op_ids_def attested_def)

lemma table_kept:
  assumes "keeps signer.more m"
  shows "step_rel (table_rel K) m"
  by (rule table_evolution.from_keeps [OF _ keeps_beyond_signer [OF beyond_signer_reserve assms]])
    (auto intro: table_same)

lemma table_kept_router:
  assumes "keeps router.more m"
  shows "step_rel (table_rel K) m"
proof (rule table_evolution.from_keeps [OF _ assms])
  show "table_rel K s t" if "router.more s = router.more t" for s t :: "'a reserve_path_scheme"
    using that by (cases s, cases t) (simp add: table_same)
qed

lemma insert_table: "step_rel (table_rel K) (insert_reserve_op E i a b x ty)"
  unfolding insert_reserve_op_def step_rel_def
  by (auto simp: run_db table_rel_def op_ids_def attested_def insert_row_def unique_key_def tick_on_def)

lemma update_table:
  assumes "\<And>now r. rs_op_id (f now r) = rs_op_id r"
    "\<And>now r. rs_cctp_attestation (f now r) = rs_cctp_attestation r \<or> rs_cctp_attestation (f now r) \<noteq> None \<and> i \<in> K"
  shows "step_rel (table_rel K) (update_reserve E i f)"
proof -
  have "table_rel K s (s\<lparr>reserve_ops := update_rows rs_op_id i (\<lambda>r. (f n r)\<lparr>rs_updated_at := m\<rparr>) (reserve_ops s)\<rparr>)"
    for s :: "'a reserve_path_scheme" and n m
  proof -
    define g where "g = (\<lambda>r. if rs_op_id r = i then (f n r)\<lparr>rs_updated_at := m\<rparr> else r)"
    have ids: "rs_op_id (g r) = rs_op_id r" for r using assms(1) by (simp add: g_def)
    have att: "rs_cctp_attestation (g r) = rs_cctp_attestation r \<or>
        rs_cctp_attestation (g r) \<noteq> None \<and> rs_op_id r \<in> K" for r
      using assms(2) [of n r] by (auto simp: g_def)
    have "map rs_op_id (map g (reserve_ops s)) = map rs_op_id (reserve_ops s)" by (simp add: ids)
    moreover have "rs_op_id ` g ` set (reserve_ops s) = rs_op_id ` set (reserve_ops s)" by (simp add: image_image ids)
    moreover have "\<exists>r\<in>set (reserve_ops s). rs_op_id (g r) = j \<and> rs_cctp_attestation (g r) \<noteq> None"
      if "r \<in> set (reserve_ops s)" "rs_op_id r = j" "rs_cctp_attestation r \<noteq> None" for r j
      using that ids [of r] att [of r] by (intro bexI [of _ r]) auto
    moreover have "(\<exists>r\<in>set (reserve_ops s). rs_op_id r = j \<and> rs_cctp_attestation r \<noteq> None) \<or> j \<in> K"
      if "r \<in> set (reserve_ops s)" "rs_op_id (g r) = j" "rs_cctp_attestation (g r) \<noteq> None" for r j
      using that ids [of r] att [of r] by metis
    ultimately show ?thesis
      unfolding table_rel_def op_ids_def attested_def update_rows_def unique_key_def g_def [symmetric]
      by (simp del: map_map not_None_eq) blast
  qed
  note upd = this
  show ?thesis
    unfolding update_reserve_def
    by (intro table_evolution.rules table_kept keeps step_rel_modify upd)
qed

lemma updates_table:
  "step_rel (table_rel K) (update_submitted E i h m)" "step_rel (table_rel K) (update_relayed E i h)"
  "step_rel (table_rel K) (update_completed E i)" "step_rel (table_rel K) (update_failed E i)"
  "step_rel (table_rel {i}) (update_attestation E i msg att)"
  unfolding reserve_updates by (intro update_table; simp)+

lemma fetch_depths_table: "step_rel (table_rel K) (fetch_depths E sel entries)"
  by (intro table_kept keeps_beyond_sys [OF beyond_sys_signer_more fetch_depths_keeps])

lemma submit_reserve_table: "step_rel (table_rel K) (submit_bridge_reserve E c u b d x)"
  unfolding submit_bridge_reserve_def submit_bridge_reserve_once_def by (intro table_kept keeps)

lemma submit_in_table: "step_rel (table_rel K) (submit_bridge_in E cfg c u b m att)"
  unfolding submit_bridge_in_def submit_bridge_in_once_def by (intro table_kept keeps)

lemma run_reserve_op_table: "step_rel (table_rel K) (run_reserve_op E cfg op)"
proof (cases op)
  case (fields src dst a)
  have "step_rel (table_rel K) (start_reserve_op E src u b dst a)" for u b
    unfolding start_reserve_op_def Let_def
    by (intro table_evolution.rules insert_table submit_reserve_table updates_table)
  moreover have "step_rel (table_rel K) (reserve_op_in_flight E c d)" for c d
    unfolding reserve_op_in_flight_def by (intro table_kept keeps)
  moreover have "step_rel (table_rel K) (fetch_pool_depth E u b sel)" for u b sel
    by (intro table_kept keeps)
  ultimately show ?thesis
    unfolding run_reserve_op_def fields
    by (auto intro!: table_evolution.rules split: RebalanceOpDecision.split option.split)
qed

lemma planner_table: "step_rel (table_rel K) (run_planner_cycle E cfg)"
  unfolding run_planner_cycle_def Let_def
  by (intro table_evolution.rules table_evolution.for_each fetch_depths_table run_reserve_op_table)

lemma watcher_table: "step_rel (table_rel K) (run_watcher_cycle E cfg)"
  unfolding run_watcher_cycle_def
proof (intro table_evolution.rules table_evolution.for_each updates_table)
  have seen: "step_rel (table_rel K) (observe_completed E c log)" for c log
    unfolding observe_completed_def find_by_dest_and_message_id_def
    by (intro table_evolution.rules updates_table table_kept keeps)
  have reads: "step_rel (table_rel K) (fetch_block_number E u)" "step_rel (table_rel K) (fetch_logs E u a t b c)"
    for u a t b c
    by (intro table_kept keeps)+
  show "step_rel (table_rel K) (watch_chain E cfg active decommissioned entry)" for active decommissioned entry
    unfolding watch_chain_def Let_def
    by (intro table_evolution.rules table_evolution.for_each step_rel_modify seen reads) (simp add: table_same)
  show "step_rel (table_rel K) (list_stuck E n)" for n
    unfolding list_stuck_def by (intro table_evolution.rules table_kept keeps)
qed

lemma relay_dispatch_table: "step_rel (table_rel {rs_op_id row}) (relay_dispatch E cfg row msg att)"
  unfolding relay_dispatch_def Let_def by (intro table_evolution.rules updates_table submit_in_table)

lemma circle_keeps: "keeps signer.more (fetch_circle_attestation E cfg d h)"
  unfolding fetch_circle_attestation_def http_fetch_def by (intro keeps) (simp add: keeps_def tick_on_def)

lemma relay_submit_table: "step_rel (table_rel {rs_op_id row}) (relay_submit E cfg row)"
  unfolding relay_submit_def by (intro table_evolution.rules relay_dispatch_table table_kept circle_keeps)

lemma relay_record_table: "step_rel (table_rel K) (relay_record E i x)"
  unfolding relay_record_def by (intro table_evolution.rules updates_table)

section \<open>One submission per operation\<close>

lemma run_update_attestation:
  assumes "\<forall>n. db_up E n" "i \<in> op_ids s" "run_state (update_attestation E i msg att) s = (u, t)"
  shows "attested t i"
proof -
  obtain r where r: "r \<in> set (reserve_ops s)" "rs_op_id r = i" using assms(2) by (auto simp: op_ids_def)
  have "reserve_ops t = update_rows rs_op_id i (\<lambda>r. (r\<lparr>rs_cctp_message_bytes := Some msg,
      rs_cctp_attestation := Some att\<rparr>)\<lparr>rs_updated_at := now_ms (tick_on E 0 s)\<rparr>) (reserve_ops s)"
    using assms(1,3) by (auto simp: update_attestation_def update_reserve_def run_db tick_on_def)
  then have "r\<lparr>rs_cctp_message_bytes := Some msg, rs_cctp_attestation := Some att,
      rs_updated_at := now_ms (tick_on E 0 s)\<rparr> \<in> set (reserve_ops t)"
    using r by (auto simp: update_rows_def)
  from bexI [OF _ this] show ?thesis using r(2) by (simp add: attested_def)
qed

lemma relay_dispatch_attested:
  assumes "\<forall>n. db_up E n" "rs_op_id row \<in> op_ids s" "run_state (relay_dispatch E cfg row msg att) s = (r, t)"
  shows "attested t (rs_op_id row)"
proof -
  obtain u s2 where s2: "run_state (update_attestation E (rs_op_id row) msg att) s = (u, s2)" by (rule prod.exhaust)
  have rest: "step_rel (table_rel {}) (case (map_of (rpc_urls cfg) d, b) of
      (Some dest_rpc, Some dest_adapter) \<Rightarrow>
        (case (decode_hex msg, decode_hex att) of
           (Some message_bytes, Some attestation_bytes) \<Rightarrow> do {
             r \<leftarrow> submit_bridge_in E cfg d dest_rpc dest_adapter message_bytes attestation_bytes;
             ret (Some r)
           }
         | _ \<Rightarrow> do { update_failed E (rs_op_id row); ret None })
    | _ \<Rightarrow> ret None)" for d b
    by (intro table_evolution.rules updates_table submit_in_table)
  have "attested s2 (rs_op_id row)" using assms(1,2) s2 by (rule run_update_attestation)
  moreover have "table_rel {} s2 t" using assms(3) s2 step_relD [OF rest] by (simp add: relay_dispatch_def Let_def)
  ultimately show ?thesis by (simp add: table_rel_def)
qed

text \<open>What Circle answers for an operation, if it is asked.\<close>

definition circle_answer :: "env \<Rightarrow> Config \<Rightarrow> reserve_row \<Rightarrow> 'm reserve_path_scheme \<Rightarrow> (string \<times> string) option" where
  "circle_answer E cfg row s =
     (case (rs_source_tx_hash row,
            Option.bind (cctp_domains cfg) (\<lambda>m. map_of m (word_of_int (rs_source_chain_id row)))) of
        (Some src_tx, Some src_domain) \<Rightarrow> fst (run_state (fetch_circle_attestation E cfg src_domain src_tx) s)
      | _ \<Rightarrow> None)"

lemma relay_submit_cases:
  assumes "run_state (relay_submit E cfg row) s = (r, t)"
  obtains "circle_answer E cfg row s = None" "r = None" "calls t = calls s" "reserve_ops t = reserve_ops s"
  | message attestation s1 where "circle_answer E cfg row s = Some (message, attestation)"
    "run_state (relay_dispatch E cfg row message attestation) s1 = (r, t)" "calls s1 = calls s"
    "reserve_ops s1 = reserve_ops s"
proof -
  let ?dom = "Option.bind (cctp_domains cfg) (\<lambda>m. map_of m (word_of_int (rs_source_chain_id row)))"
  consider (stop) "rs_source_tx_hash row = None \<or> ?dom = None"
    | (go) src d where "rs_source_tx_hash row = Some src" "?dom = Some d"
    by (cases "rs_source_tx_hash row"; cases ?dom) auto
  then show ?thesis
  proof cases
    case stop
    then show ?thesis using assms that(1) by (auto simp: relay_submit_def circle_answer_def split: option.split_asm)
  next
    case go
    obtain a s1 where a: "run_state (fetch_circle_attestation E cfg d src) s = (a, s1)" by (rule prod.exhaust)
    then have s1: "calls s1 = calls s" "reserve_ops s1 = reserve_ops s"
      by (auto simp: fetch_circle_attestation_def http_fetch_def tick_on_def)
    show ?thesis
    proof (cases a)
      case None
      then show ?thesis using assms go a s1 that(1) by (auto simp: relay_submit_def circle_answer_def)
    next
      case (Some p)
      then show ?thesis using assms go a s1 that(2) by (cases p) (simp add: relay_submit_def circle_answer_def)
    qed
  qed
qed

lemma relay_submit_attested:
  assumes "\<forall>n. db_up E n" "rs_op_id row \<in> op_ids s" "run_state (relay_submit E cfg row) s = (Some x, t)"
  shows "attested t (rs_op_id row)"
  using assms(3)
proof (cases rule: relay_submit_cases)
  case (2 message attestation s1)
  then have "rs_op_id row \<in> op_ids s1" using assms(2) by (simp add: op_ids_def)
  from relay_dispatch_attested [OF assms(1) this 2(2)] show ?thesis .
qed simp

definition reserve_inv :: "'m reserve_run_scheme \<Rightarrow> bool" where
  "reserve_inv s \<longleftrightarrow> unique_key rs_op_id (reserve_ops s) \<and> distinct (map rs_op_id (queued s)) \<and>
     (\<forall>q\<in>set (queued s). rs_op_id q \<in> op_ids s \<and> \<not> attested s (rs_op_id q)) \<and>
     distinct (relays s) \<and> (\<forall>i\<in>set (relays s). attested s i)"

lemma more_fields:
  "reserve_path.more t = reserve_path.more s \<Longrightarrow> queued t = queued s \<and> relays t = relays s \<and> unrecorded t = unrecorded s"
  by (cases s, cases t) simp

lemma inv_table:
  assumes "table_rel {} s t" "reserve_inv s"
  shows "reserve_inv t"
proof -
  have same: "queued t = queued s" "relays t = relays s" using assms(1) more_fields [of t s] by (simp_all add: table_rel_def)
  have "\<And>i. attested t i \<longleftrightarrow> attested s i" "op_ids s \<subseteq> op_ids t"
    "unique_key rs_op_id (reserve_ops s) \<Longrightarrow> unique_key rs_op_id (reserve_ops t)"
    using assms(1) by (auto simp: table_rel_def)
  then show ?thesis using assms(2) by (auto simp: reserve_inv_def same)
qed

lemma listed_rows:
  assumes "unique_key rs_op_id rows"
  shows "distinct (map rs_op_id (oldest_50 (filter awaits_attestation rows)))"
    "set (oldest_50 (filter awaits_attestation rows)) \<subseteq> {r \<in> set rows. rs_cctp_attestation r = None}"
proof -
  let ?w = "filter awaits_attestation rows"
  have "mset (map rs_op_id (sort_key rs_updated_at ?w)) = mset (map rs_op_id ?w)" by simp
  then have "distinct (map rs_op_id (sort_key rs_updated_at ?w))"
    using unique_key_filter [OF assms] unfolding unique_key_def by (metis mset_eq_imp_distinct_iff)
  then show "distinct (map rs_op_id (oldest_50 ?w))" unfolding oldest_50_def take_map [symmetric] by (rule distinct_take)
  show "set (oldest_50 ?w) \<subseteq> {r \<in> set rows. rs_cctp_attestation r = None}"
    unfolding oldest_50_def using set_take_subset by (fastforce simp: awaits_attestation_def)
qed

lemma unattested:
  assumes "unique_key rs_op_id (reserve_ops s)" "r \<in> set (reserve_ops s)" "rs_cctp_attestation r = None"
  shows "\<not> attested s (rs_op_id r)"
  using assms(2,3) unique_key_eq [OF assms(1)] by (auto simp: attested_def)

lemma relay_next_run:
  assumes "run_state (relay_next E cfg row) s = (u, t)"
  obtains r v where "run_state (relay_submit E cfg row) s = (r, v)"
    "reserve_ops t = reserve_ops v" "queued t = queued v"
    "relays t = relays v @ (case r of None \<Rightarrow> [] | Some x \<Rightarrow> [rs_op_id row])"
    "unrecorded t = (case r of None \<Rightarrow> unrecorded v | Some x \<Rightarrow> Some (rs_op_id row, x))"
proof -
  obtain r v where "run_state (relay_submit E cfg row) s = (r, v)" by (rule prod.exhaust)
  with assms show ?thesis by (intro that [of r v]) (auto simp: relay_next_def split: option.split_asm)
qed

lemma relay_inv:
  assumes "\<forall>n. db_up E n" "reserve_inv s" "queued s = row # rows"
    "run_state (relay_next E cfg row) (s\<lparr>queued := rows\<rparr>) = (u, t)"
  shows "reserve_inv t"
proof -
  let ?i = "rs_op_id row" and ?s = "s\<lparr>queued := rows\<rparr>"
  obtain r v where r: "run_state (relay_submit E cfg row) ?s = (r, v)" "reserve_ops t = reserve_ops v"
    "queued t = queued v" "relays t = relays v @ (case r of None \<Rightarrow> [] | Some x \<Rightarrow> [?i])"
    using assms(4) by (rule relay_next_run)
  have rel: "table_rel {?i} ?s v" by (rule step_relD [OF relay_submit_table r(1)])
  then have same: "queued v = rows" "relays v = relays s" using more_fields [of v ?s] by (simp_all add: table_rel_def)
  have ids: "op_ids t = op_ids v" "attested t = attested v" "op_ids ?s = op_ids s" "attested ?s = attested s"
    using r(2) by (simp_all add: op_ids_def attested_def fun_eq_iff)
  have old: "unique_key rs_op_id (reserve_ops s)" "?i \<in> op_ids s" "\<not> attested s ?i" "?i \<notin> rs_op_id ` set rows"
    "distinct (map rs_op_id rows)" "distinct (relays s)" "\<forall>i\<in>set (relays s). attested s i"
    "\<forall>q\<in>set rows. rs_op_id q \<in> op_ids s \<and> \<not> attested s (rs_op_id q)"
    using assms(2,3) by (auto simp: reserve_inv_def)
  have new: "unique_key rs_op_id (reserve_ops v)" "op_ids s \<subseteq> op_ids v" "\<And>i. attested s i \<Longrightarrow> attested v i"
    "\<And>i. attested v i \<Longrightarrow> i \<noteq> ?i \<Longrightarrow> attested s i"
    using rel old(1) ids by (auto simp: table_rel_def)
  have "distinct (relays t) \<and> (\<forall>i\<in>set (relays t). attested v i)"
  proof (cases r)
    case None
    then show ?thesis using r(4) same old(6,7) new(3) by simp
  next
    case (Some x)
    then have "attested v ?i" using relay_submit_attested [OF assms(1), of row ?s] r(1) old(2) ids(3) by simp
    then show ?thesis using Some r(4) same old(3,6,7) new(3) by auto
  qed
  moreover have "\<forall>q\<in>set (queued t). rs_op_id q \<in> op_ids v \<and> \<not> attested v (rs_op_id q)"
    using old(4,8) new(2,4) r(3) same(1) by (metis image_eqI subsetD)
  ultimately show ?thesis using new(1) old(5) r(2,3) same ids by (simp add: reserve_inv_def)
qed

lemma reserve_step_inv:
  assumes "reserve_step E cfg s t" "\<forall>n. db_up E n" "reserve_inv s"
  shows "reserve_inv t"
  using assms
proof (induction rule: reserve_step.induct)
  case (route clamp s o' t)
  from inv_table [OF step_relD [OF table_kept_router [OF route_round_keeps] route(1)] route(3)] show ?case .
next
  case (plan s r t)
  from inv_table [OF step_relD [OF planner_table plan(1)] plan(3)] show ?case .
next
  case (watch s r t)
  from inv_table [OF step_relD [OF watcher_table watch(1)] watch(3)] show ?case .
next
  case (listing s rows t)
  have wf: "unique_key rs_op_id (reserve_ops s)" using listing(5) by (simp add: reserve_inv_def)
  have t: "t = tick_on E 0 s" "rows = oldest_50 (filter awaits_attestation (reserve_ops s))"
    using listing(3,4) by (auto simp: list_awaiting_attestation_def run_db)
  have "rs_op_id q \<in> op_ids s \<and> \<not> attested s (rs_op_id q)" if "q \<in> set rows" for q
    using listed_rows(2) [OF wf] unattested [OF wf, of q] that t(2) by (auto simp: op_ids_def)
  then show ?case
    using listing(5) listed_rows(1) [OF wf] t
    by (simp add: reserve_inv_def op_ids_def attested_def tick_on_def)
next
  case (relay s row rows u t)
  from relay_inv [OF relay(4,5,1,3)] show ?case .
next
  case (outcome s i x u t)
  have "reserve_inv (s\<lparr>unrecorded := None\<rparr>)" using outcome(4) by (simp add: reserve_inv_def op_ids_def attested_def)
  from inv_table [OF step_relD [OF relay_record_table outcome(2)] this] show ?case .
qed

text \<open>
  C13. Each reserve operation is relayed at most once: from a start with nothing in progress and unique
  operation ids, and while the database answers, the relayer submits \<open>bridgeIn\<close> for no operation twice
  (one submission is up to three attempts), and an operation it has submitted for carries its
  attestation. This holds for every order of route rounds, planner cycles, watcher cycles, attempts of
  the relayer to take up a row and its recordings of an outcome; each of these is one step, and in
  particular other steps come between a submission and the recording of its outcome. (When neither the
  attestation nor the outcome can be stored, the row is listed and submitted again.)
\<close>

theorem relay_submitted_once:
  assumes "(reserve_step E cfg)\<^sup>*\<^sup>* s t" "\<forall>n. db_up E n" "unique_key rs_op_id (reserve_ops s)"
    "queued s = []" "relays s = []"
  shows "distinct (relays t) \<and> (\<forall>i\<in>set (relays t). \<exists>r\<in>set (reserve_ops t). rs_op_id r = i \<and> rs_cctp_attestation r \<noteq> None)"
proof -
  have "reserve_inv s" using assms(3-5) by (simp add: reserve_inv_def)
  with assms(1) have "reserve_inv t" by induction (use assms(2) reserve_step_inv in \<open>blast+\<close>)
  then show ?thesis by (simp add: reserve_inv_def attested_def)
qed

section \<open>What the relayer sends\<close>

definition is_bridge_in :: "env \<Rightarrow> Config \<Rightarrow> reserve_row \<Rightarrow> string \<Rightarrow> string \<Rightarrow> string \<times> json \<Rightarrow> bool" where
  "is_bridge_in E cfg row message attestation c \<longleftrightarrow>
     (\<exists>dest u b key m att. dest = (word_of_int (rs_dest_chain_id row) :: ChainId) \<and>
       map_of (rpc_urls cfg) dest = Some u \<and>
       Option.bind (reserve_bridge_addresses cfg) (\<lambda>bs. map_of bs dest) = Some b \<and>
       decode_hex message = Some m \<and> decode_hex attestation = Some att \<and>
       signed_for E u b dest key 400000 (bridge_fee E cfg) (bridge_in_call E m att) c)"

lemma submit_bridge_in_emits:
  assumes "\<And>key c. signed_for E u b dest key 400000 (bridge_fee E cfg) (bridge_in_call E m att) c \<Longrightarrow> Q c"
  shows "emits Q 3 (submit_bridge_in E cfg dest u b m att)"
proof -
  have "emits (signed_for E u b dest key 400000 (bridge_fee E cfg) (bridge_in_call E m att)) 1
      (submit_bridge_in_once E cfg dest u b m att addr key)" for key addr
    unfolding submit_bridge_in_once_def
    by (intro emits_first emits_case emits_ret submit_tx_emits wait_emits emits_then)
  then have one: "emits Q 1 (submit_bridge_in_once E cfg dest u b m att addr key)" for key addr
    using assms unfolding emits_def list_all_iff by meson
  show ?thesis
    unfolding submit_bridge_in_def
    by (auto intro!: emits_then emits_gets emits_ret with_retry_emits [OF one] split: option.split)
qed

lemma relay_dispatch_emits: "emits (is_bridge_in E cfg row message attestation) 3 (relay_dispatch E cfg row message attestation)"
proof -
  let ?Q = "is_bridge_in E cfg row message attestation" and ?dest = "word_of_int (rs_dest_chain_id row) :: ChainId"
  have send: "emits ?Q 3 (submit_bridge_in E cfg ?dest u b m att)"
    if "map_of (rpc_urls cfg) ?dest = Some u" "Option.bind (reserve_bridge_addresses cfg) (\<lambda>bs. map_of bs ?dest) = Some b"
      "decode_hex message = Some m" "decode_hex attestation = Some att" for u b m att
    using that by (intro submit_bridge_in_emits) (auto simp: is_bridge_in_def)
  have quiet: "emits ?Q n (update_attestation E i msg a)" "emits ?Q n (update_failed E i)" for n i msg a
    unfolding reserve_updates by (rule emits_keeps_calls, rule reserve_repo_quiet)+
  show ?thesis
    unfolding relay_dispatch_def Let_def
    by (rule emits_then [OF quiet(1)])
      (auto intro!: emits_first [OF send] emits_then [OF quiet(2)] emits_ret split: option.split)
qed

text \<open>
  C14. What the relayer sends for an operation: nothing unless Circle answers with an attestation for
  the source transaction of the operation, and then at most three transactions, each the \<open>bridgeIn\<close>
  call with exactly the message and the attestation Circle answered with, to the configured node and
  adapter of the operation's destination chain.
\<close>

theorem relay_sends_attested:
  assumes "run_state (relay_submit E cfg row) s = (r, t)"
  shows "case circle_answer E cfg row s of
      None \<Rightarrow> calls t = calls s \<and> reserve_ops t = reserve_ops s \<and> r = None
    | Some (message, attestation) \<Rightarrow> adds s 3 (is_bridge_in E cfg row message attestation) t"
  using assms
proof (cases rule: relay_submit_cases)
  case (2 message attestation s1)
  from emits_adds [OF relay_dispatch_emits 2(2)] show ?thesis using 2(1,3) by (simp add: adds_def)
qed simp

section \<open>Completed operations\<close>

text \<open>
  C39. A completion can be lost: when the watcher sees the completion of an operation on the
  destination chain before the relayer, which is still waiting for its receipt, records the
  submission, the recording sets the completed operation back to \<open>relayed\<close>, and once the timeout has
  passed the operation counts as stuck, which the next sweep marks as failed although the money
  arrived.
\<close>

theorem completion_lost:
  assumes "\<forall>n. db_up E n" "unique_key rs_op_id (reserve_ops s)" "row \<in> set (reserve_ops s)"
    "2 \<le> length (topics log)" "rs_status row = ''submitted''"
    "find (\<lambda>r. rs_dest_chain_id r = sint chain \<and> rs_bridge_message_id r = Some (topics log ! 1)) (reserve_ops s) = Some row"
    "run_state (do { observe_completed E chain log; relay_record E (rs_op_id row) (Inr tx_hash) }) s = (u, t)"
  shows "\<exists>r. find_row rs_op_id (rs_op_id row) (reserve_ops t) = Some r \<and> rs_status r = ''relayed'' \<and>
    rs_completed_at r \<noteq> None \<and> (\<forall>now secs. rs_updated_at r + secs * 1000 < now \<longrightarrow> is_stuck now secs r)"
proof -
  have "find_row rs_op_id (rs_op_id row) (reserve_ops s) = Some row" using assms(2,3) by (rule find_row_unique)
  then show ?thesis
    using assms(1,4-7)
    by (auto simp: observe_completed_def find_by_dest_and_message_id_def relay_record_def reserve_updates
        update_reserve_def run_db find_row_update_rows is_stuck_def tick_on_def)
qed

section \<open>Concrete runs\<close>

definition sample_op :: reserve_row where
  "sample_op =
     \<lparr>rs_op_id = ''res-1-2-0'', rs_source_chain_id = 1, rs_dest_chain_id = 2, rs_amount_wei = 7,
      rs_bridge_type = ''CCTP'', rs_bridge_message_id = Some ''m'', rs_source_tx_hash = Some ''0xaa'',
      rs_cctp_message_bytes = None, rs_cctp_attestation = None, rs_dest_tx_hash = None,
      rs_status = ''submitted'', rs_created_at = 0, rs_updated_at = 0, rs_completed_at = None\<rparr>"

definition run_start :: reserve_run where
  "run_start =
     \<lparr>now_ms = 5, tick = 0, calls = [], nonce_cache = Map.empty, active_chains = {1, 2},
      decommissioned_chains = {}, relayer_key = Some [1], relayer_address = Some (replicate 20 5),
      route_last_block = 0, reserve_ops = [sample_op], watcher_cursor = Map.empty, queued = [],
      unrecorded = None, relays = []\<rparr>"

definition completed_log :: RpcLog where
  "completed_log = \<lparr>transaction_hash = [], block_number = [], log_index = [], topics = [''t'', ''m''], log_data = []\<rparr>"

definition bridge_config :: Config where
  "bridge_config = sample_config\<lparr>cctp_domains := Some [(1, 6)], reserve_bridge_addresses := Some [(2, hex_0x (replicate 20 4))]\<rparr>"

definition circle_env :: env where
  "circle_env = (sample_env quantity_answer)\<lparr>http_get := (\<lambda>n u. Inr (True, Inr (JObj [(''messages'',
     JArr [JObj [(''message'', JStr (hex_0x [1])), (''attestation'', JStr (hex_0x [2]))]])])))\<rparr>"

lemma circle_env_answer: "circle_answer circle_env bridge_config sample_op s = Some (hex_0x [1], hex_0x [2])"
proof -
  have "\<not> eq_ignore_ascii_case (hex_0x [2]) ''PENDING''" "starts_with (hex_0x [2]) ''0x''" by code_simp+
  then show ?thesis
    by (simp add: circle_answer_def circle_env_def bridge_config_def sample_op_def sample_config_def
        fetch_circle_attestation_def http_fetch_def attestation_of_json_def)
qed

theorem relay_sends_attested_witness:
  "adds run_start 3 (is_bridge_in circle_env bridge_config sample_op (hex_0x [1]) (hex_0x [2]))
     (snd (run_state (relay_submit circle_env bridge_config sample_op) run_start))"
  using relay_sends_attested [OF surjective_pairing, of circle_env bridge_config sample_op run_start]
  by (simp add: circle_env_answer)

theorem relay_submitted_once_witness:
  "distinct (relays ((tick_on circle_env 0 run_start)\<lparr>queued := [sample_op]\<rparr>))"
proof -
  have up: "\<forall>n. db_up circle_env n" by (simp add: circle_env_def sample_env_def)
  have "run_state (list_awaiting_attestation circle_env) run_start = ([sample_op], tick_on circle_env 0 run_start)"
    using up by (simp add: list_awaiting_attestation_def run_db run_start_def oldest_50_def awaits_attestation_def sample_op_def)
  then have "(reserve_step circle_env bridge_config)\<^sup>*\<^sup>* run_start ((tick_on circle_env 0 run_start)\<lparr>queued := [sample_op]\<rparr>)"
    by (intro r_into_rtranclp reserve_step.listing) (simp_all add: run_start_def)
  from relay_submitted_once [OF this up] show ?thesis by (simp add: run_start_def unique_key_def)
qed

theorem completion_lost_witness:
  "\<exists>r. find_row rs_op_id ''res-1-2-0'' (reserve_ops (snd (run_state (do { observe_completed circle_env 2 completed_log;
     relay_record circle_env ''res-1-2-0'' (Inr ''0xbb'') }) run_start))) = Some r \<and> rs_status r = ''relayed''"
proof -
  have up: "\<forall>n. db_up circle_env n" by (simp add: circle_env_def sample_env_def)
  have "rs_op_id sample_op = ''res-1-2-0''" by (simp add: sample_op_def)
  with completion_lost [OF up, of run_start sample_op completed_log 2, OF _ _ _ _ _ surjective_pairing]
  show ?thesis
    by (fastforce simp: run_start_def unique_key_def completed_log_def sample_op_def)
qed

end
