(* ===== verification/Startup.thy ===== *)
theory Startup
  imports DrainSafety AccountQueries HotPath Watcher ColdPath ReserveLifecycle
begin

text \<open>
  Start-up: the configuration from environment variables (both \<open>config.rs\<close>), the loading of a signing
  key (\<open>eth/tx.rs\<close>), the constructors of the modules and the treasury's \<open>main\<close>; and what a restart
  means for the hot path relayer, whose memory is gone and whose relay log stays.

  The file system, the curve arithmetic of \<open>k256\<close> and the JSON parser of \<open>serde_json\<close> are parameters.
\<close>

section \<open>Configuration (config.rs)\<close>

text \<open>The fields of the configuration only start-up reads.\<close>

record boot_config = Config +
  database_url :: string
  grpc_port :: "16 word"
  relayer_key_path :: string
  pauser_key_path :: "string option"
  cold_path_poll_secs :: u64
  cold_path_stuck_message_timeout_secs :: u64
  reserve_path_poll_secs :: u64
  reserve_relayer_key_path :: "string option"

text \<open>\<open>serde_json::from_str\<close> at the three types the configuration has.\<close>

record serde =
  json_urls :: "string \<Rightarrow> (u64 \<times> string) list option"
  json_blocks :: "string \<Rightarrow> (u64 \<times> u64) list option"
  json_domains :: "string \<Rightarrow> (u64 \<times> u32) list option"

text \<open>A field with a default, and an optional field: the default covers the missing variable only.\<close>

definition field_or :: "'a \<Rightarrow> (string \<Rightarrow> 'a option) \<Rightarrow> string option \<Rightarrow> 'a option" where
  "field_or d parse v = (case v of None \<Rightarrow> Some d | Some text \<Rightarrow> parse text)"

definition field_opt :: "(string \<Rightarrow> 'a option) \<Rightarrow> string option \<Rightarrow> 'a option option" where
  "field_opt parse v = field_or None (\<lambda>text. map_option Some (parse text)) v"

definition default_grpc_port :: "16 word" where
  "default_grpc_port = 50051"

definition default_cold_path_min_bps :: u32 where
  "default_cold_path_min_bps = 8000"

definition default_cold_path_poll_secs :: u64 where
  "default_cold_path_poll_secs = 60"

definition default_cold_path_stuck_message_timeout_secs :: u64 where
  "default_cold_path_stuck_message_timeout_secs = 1800"

definition default_reserve_path_min_bps :: u32 where
  "default_reserve_path_min_bps = 8000"

definition default_reserve_path_poll_secs :: u64 where
  "default_reserve_path_poll_secs = 60"

definition default_reserve_path_stuck_timeout_secs :: u64 where
  "default_reserve_path_stuck_timeout_secs = 1800"

definition default_circle_attestation_url :: string where
  "default_circle_attestation_url = ''https://iris-api.circle.com''"

definition default_decommission_index_head_tolerance_blocks :: u64 where
  "default_decommission_index_head_tolerance_blocks = 20"

abbreviation parse_num :: "string \<Rightarrow> 'a::len word option" where
  "parse_num text \<equiv> ok (from_str_radix 10 text)"

text \<open>
  \<open>Config::from_env\<close>: \<open>envy\<close> matches the lower-cased names of the variables with the fields; \<open>None\<close> is
  the panic with the message about missing or invalid variables.
\<close>

definition from_env :: "serde \<Rightarrow> (string \<rightharpoonup> string) \<Rightarrow> boot_config option" where
  "from_env J vars = do {
     db_url \<leftarrow> vars ''database_url'';
     port \<leftarrow> field_or default_grpc_port parse_num (vars ''grpc_port'');
     urls \<leftarrow> Option.bind (vars ''rpc_urls'') (json_urls J);
     contracts \<leftarrow> Option.bind (vars ''contract_addresses'') (json_urls J);
     receiver \<leftarrow> vars ''route_receiver_address'';
     relayer \<leftarrow> vars ''relayer_key_path'';
     watcher_urls \<leftarrow> field_opt (json_urls J) (vars ''watcher_rpc_urls'');
     min_bps \<leftarrow> field_or default_cold_path_min_bps parse_num (vars ''cold_path_min_bps'');
     target_bps \<leftarrow> field_or 0 parse_num (vars ''cold_path_target_bps'');
     cold_secs \<leftarrow> field_or default_cold_path_poll_secs parse_num (vars ''cold_path_poll_secs'');
     from_blocks \<leftarrow> field_opt (json_blocks J) (vars ''index_from_blocks'');
     tolerance \<leftarrow> field_or default_decommission_index_head_tolerance_blocks parse_num
       (vars ''decommission_index_head_tolerance_blocks'');
     cold_stuck \<leftarrow> field_or default_cold_path_stuck_message_timeout_secs parse_num
       (vars ''cold_path_stuck_message_timeout_secs'');
     reserve_bps \<leftarrow> field_or default_reserve_path_min_bps parse_num (vars ''reserve_path_min_bps'');
     reserve_secs \<leftarrow> field_or default_reserve_path_poll_secs parse_num (vars ''reserve_path_poll_secs'');
     reserve_stuck \<leftarrow> field_or default_reserve_path_stuck_timeout_secs parse_num
       (vars ''reserve_path_stuck_timeout_secs'');
     bridges \<leftarrow> field_opt (json_urls J) (vars ''reserve_bridge_addresses'');
     domains \<leftarrow> field_opt (json_domains J) (vars ''cctp_domains'');
     circle \<leftarrow> field_or default_circle_attestation_url Some (vars ''circle_attestation_api_url'');
     Some \<lparr>rpc_urls = urls, contract_addresses = contracts, route_receiver_address = receiver,
       watcher_rpc_urls = watcher_urls, cold_path_min_bps = min_bps, cold_path_target_bps = target_bps,
       cold_path_max_wei = (case vars ''cold_path_max_wei'' of None \<Rightarrow> [] | Some v \<Rightarrow> v),
       ccip_fee_wei = (case vars ''ccip_fee_wei'' of None \<Rightarrow> [] | Some v \<Rightarrow> v),
       index_from_blocks = from_blocks, user_service_addr = vars ''user_service_addr'',
       decommission_admin_token = vars ''decommission_admin_token'',
       decommission_orchestrator_token = vars ''decommission_orchestrator_token'',
       decommission_index_head_tolerance_blocks = tolerance,
       decommission_dust_tolerance_wei = (case vars ''decommission_dust_tolerance_wei'' of None \<Rightarrow> [] | Some v \<Rightarrow> v),
       reserve_path_min_bps = reserve_bps,
       reserve_path_max_wei = (case vars ''reserve_path_max_wei'' of None \<Rightarrow> [] | Some v \<Rightarrow> v),
       reserve_bridge_fee_wei = (case vars ''reserve_bridge_fee_wei'' of None \<Rightarrow> [] | Some v \<Rightarrow> v),
       reserve_path_stuck_timeout_secs = reserve_stuck, reserve_bridge_addresses = bridges,
       cctp_domains = domains, circle_attestation_api_url = circle,
       database_url = db_url, grpc_port = port, relayer_key_path = relayer,
       pauser_key_path = vars ''pauser_key_path'', cold_path_poll_secs = cold_secs,
       cold_path_stuck_message_timeout_secs = cold_stuck, reserve_path_poll_secs = reserve_secs,
       reserve_relayer_key_path = vars ''reserve_relayer_key_path''\<rparr>
   }"

text \<open>The user service's configuration; \<open>None\<close> is the error of the missing variable.\<close>

record user_config =
  uc_database_url :: string
  uc_grpc_addr :: string
  uc_decommission_orchestrator_token :: "string option"

definition user_from_env :: "(string \<rightharpoonup> string) \<Rightarrow> user_config option" where
  "user_from_env vars = do {
     url \<leftarrow> vars ''DATABASE_URL'';
     Some \<lparr>uc_database_url = url,
       uc_grpc_addr = (case vars ''GRPC_ADDR'' of Some a \<Rightarrow> a | None \<Rightarrow> ''0.0.0.0:50051''),
       uc_decommission_orchestrator_token = vars ''DECOMMISSION_ORCHESTRATOR_TOKEN''\<rparr>
   }"

section \<open>Keys (eth/tx.rs)\<close>

text \<open>
  \<open>scalar_ok\<close>: whether \<open>SigningKey::from_bytes\<close> accepts the 32 bytes; \<open>public_point\<close>: the uncompressed
  encoding of the public key, 65 bytes.
\<close>

record host =
  read_file :: "string \<Rightarrow> string option"
  scalar_ok :: "byte list \<Rightarrow> bool"
  public_point :: "byte list \<Rightarrow> byte list"

definition load_signing_key :: "host \<Rightarrow> env \<Rightarrow> string \<Rightarrow> byte list option \<times> Address option" where
  "load_signing_key H E path =
     (case read_file H path of
        None \<Rightarrow> (None, None)
      | Some contents \<Rightarrow>
          (case decode_hex (trim_0x (trim contents)) of
             None \<Rightarrow> (None, None)
           | Some bytes \<Rightarrow>
               if length bytes = 32 \<and> scalar_ok H bytes
               then (Some bytes, Some (drop 12 (keccak256 E (drop 1 (public_point H bytes)))))
               else (None, None)))"

section \<open>Constructors\<close>

definition hot_path_new :: "host \<Rightarrow> env \<Rightarrow> boot_config \<Rightarrow> relay_log list \<Rightarrow> sys \<Rightarrow> hot_path" where
  "hot_path_new H E cfg rows s =
     (let (key, addr) = load_signing_key H E (relayer_key_path cfg) in
      \<lparr>now_ms = now_ms s, tick = tick s, calls = calls s, nonce_cache = Map.empty,
       active_chains = initial_active (Config.truncate cfg), decommissioned_chains = {},
       relayer_key = key, relayer_address = addr, route_last_block = 0,
       relay_logs = rows, hp_last_block = Map.empty, spawned = []\<rparr>)"

definition watcher_new :: "host \<Rightarrow> env \<Rightarrow> boot_config \<Rightarrow> alert_row list \<Rightarrow> nat \<Rightarrow> sys \<Rightarrow> watcher" where
  "watcher_new H E cfg rows seq s =
     (let (key, addr) = (case pauser_key_path cfg of Some path \<Rightarrow> load_signing_key H E path | None \<Rightarrow> (None, None)) in
      \<lparr>now_ms = now_ms s, tick = tick s, calls = calls s, nonce_cache = Map.empty,
       pauser_key = key, pauser_address = addr, initiated_cache = Map.empty,
       wi_last_block = Map.empty, wr_last_block = Map.empty, released_tasks = [],
       watcher_alerts = rows, alert_seq = seq\<rparr>)"

definition cold_path_new :: "host \<Rightarrow> env \<Rightarrow> boot_config \<Rightarrow> rebalance_row list \<Rightarrow> sys \<Rightarrow> cold_path" where
  "cold_path_new H E cfg rows s =
     (let (key, addr) = load_signing_key H E (relayer_key_path cfg) in
      \<lparr>now_ms = now_ms s, tick = tick s, calls = calls s, nonce_cache = Map.empty,
       active_chains = initial_active (Config.truncate cfg), decommissioned_chains = {},
       relayer_key = key, relayer_address = addr, route_last_block = 0, rebalance_ops = rows\<rparr>)"

definition reserve_path_new :: "host \<Rightarrow> env \<Rightarrow> boot_config \<Rightarrow> reserve_row list \<Rightarrow> sys \<Rightarrow> reserve_path" where
  "reserve_path_new H E cfg rows s =
     (let path = (case reserve_relayer_key_path cfg of Some p \<Rightarrow> p | None \<Rightarrow> relayer_key_path cfg);
          (key, addr) = load_signing_key H E path in
      \<lparr>now_ms = now_ms s, tick = tick s, calls = calls s, nonce_cache = Map.empty,
       active_chains = initial_active (Config.truncate cfg), decommissioned_chains = {},
       relayer_key = key, relayer_address = addr, route_last_block = 0,
       reserve_ops = rows, watcher_cursor = Map.empty\<rparr>)"

definition bank_drain_new :: "host \<Rightarrow> env \<Rightarrow> boot_config \<Rightarrow> (byte list \<times> Address) option" where
  "bank_drain_new H E cfg =
     (case load_signing_key H E (relayer_key_path cfg) of
        (Some signer_key, Some signer_address) \<Rightarrow> Some (signer_key, signer_address)
      | _ \<Rightarrow> None)"

section \<open>The treasury's main\<close>

text \<open>What the database holds when the process starts.\<close>

record stored =
  st_relay_logs :: "relay_log list"
  st_alerts :: "alert_row list"
  st_alert_seq :: nat
  st_rebalance_ops :: "rebalance_row list"
  st_reserve_ops :: "reserve_row list"

record treasury_server =
  sv_hot_path :: hot_path
  sv_watcher :: watcher
  sv_cold_path :: cold_path
  sv_reserve_path :: reserve_path
  sv_bank_drain :: "byte list \<times> Address"
  sv_rpc_reachable :: bool
  sv_relayer_key_loaded :: bool

definition treasury_main ::
  "(nat \<Rightarrow> string \<Rightarrow> json \<Rightarrow> bool) \<Rightarrow> host \<Rightarrow> env \<Rightarrow> boot_config \<Rightarrow> stored
     \<Rightarrow> (sys, string + treasury_server) state" where
  "treasury_main success H E cfg D = do {
     connected \<leftarrow> db E;
     migrated \<leftarrow> (if connected then db E else ret False);
     (if \<not> migrated then ret (Inl ''database'')
      else do {
        rpc_reachable \<leftarrow> rpc_reachable_at_startup success E (Config.truncate cfg);
        s \<leftarrow> gets (\<lambda>s. s);
        ret (case bank_drain_new H E cfg of
               None \<Rightarrow> Inl ''invalid or missing RELAYER_KEY_PATH for decommission drain''
             | Some drain_signer \<Rightarrow>
                 Inr \<lparr>sv_hot_path = hot_path_new H E cfg (st_relay_logs D) s,
                      sv_watcher = watcher_new H E cfg (st_alerts D) (st_alert_seq D) s,
                      sv_cold_path = cold_path_new H E cfg (st_rebalance_ops D) s,
                      sv_reserve_path = reserve_path_new H E cfg (st_reserve_ops D) s,
                      sv_bank_drain = drain_signer, sv_rpc_reachable = rpc_reachable,
                      sv_relayer_key_loaded = check_relayer_key (read_file H (relayer_key_path cfg))\<rparr>)
      })
   }"

text \<open>The life of the hot path module: its own steps, and restarts, which keep the relay log only.\<close>

inductive hot_life :: "host \<Rightarrow> env \<Rightarrow> boot_config \<Rightarrow> hot_path \<Rightarrow> hot_path \<Rightarrow> bool" for H E cfg where
  run: "hot_step E (Config.truncate cfg) s t \<Longrightarrow> hot_life H E cfg s t"
| restart: "hot_life H E cfg s (hot_path_new H E cfg (relay_logs s) clock)"

section \<open>The key file\<close>

lemma is_hex_char_iff: "is_hex_char c \<longleftrightarrow> digit_val 16 c \<noteq> None"
  by (auto simp: is_hex_char_def in_range_def digit_val_def Let_def)

lemma hex_pair:
  "(\<exists>x :: byte. from_str_radix 16 [a, b] = Inr x) \<longleftrightarrow>
     is_hex_char b \<and> (is_hex_char a \<or> a = CHR ''+'')"
proof -
  have bound: "d < 16" if "digit_val 16 c = Some d" for c d
    using that by (auto simp: digit_val_def Let_def split: if_splits)
  have plus: "digit_val 16 CHR ''+'' = None" by (simp add: digit_val_def)
  show ?thesis
  proof (cases "digit_val 16 a"; cases "digit_val 16 b")
    fix x y
    assume "digit_val 16 a = Some x" "digit_val 16 b = Some y"
    then show ?thesis
      using bound [of a x] bound [of b y] plus
      by (auto simp: from_str_radix_def parse_radix_def is_hex_char_iff)
  qed (use bound [of b] plus in \<open>auto simp: from_str_radix_def parse_radix_def is_hex_char_iff\<close>)
qed

lemma decode_pairs_hex:
  assumes "even (length s)" "CHR ''+'' \<notin> set s"
  shows "decode_pairs s \<noteq> None \<longleftrightarrow> list_all is_hex_char s"
  using assms
proof (induction s rule: decode_pairs.induct)
  case (1 a b s)
  then show ?case
    using hex_pair [of a b] by (cases "from_str_radix 16 [a, b] :: ParseIntError + byte") auto
qed auto

lemma trim_0x_no_prefix: "strip_prefix ''0x'' (trim_0x s) = None"
  by (induction s rule: trim_0x.induct) (auto simp: strip_prefix_def starts_with_def)

lemma trim_0x_subset: "set (trim_0x s) \<subseteq> set s"
  by (induction s rule: trim_0x.induct) auto

lemma trim_subset: "set (trim s) \<subseteq> set s"
  by (auto simp: trim_def dest!: set_dropWhileD)

text \<open>
  The start-up check and the loader agree on the shape of the key file: the check passes exactly when
  the loader reads 32 bytes, as long as the file has no plus sign, which the loader's number parser
  accepts before a digit.
\<close>

lemma check_relayer_key_iff:
  assumes "CHR ''+'' \<notin> set contents"
  shows "check_relayer_key (Some contents) \<longleftrightarrow>
    (\<exists>bytes. decode_hex (trim_0x (trim contents)) = Some bytes \<and> length bytes = 32)"
proof -
  let ?h = "trim_0x (trim contents)"
  have "CHR ''+'' \<notin> set ?h" using assms trim_0x_subset trim_subset by blast
  from decode_pairs_hex [OF _ this] decode_pairs_length [of ?h] show ?thesis
    by (auto simp: check_relayer_key_def Let_def decode_hex_def trim_0x_no_prefix even_iff_mod_2_eq_zero)
qed

definition key_in_file :: "host \<Rightarrow> string \<Rightarrow> byte list \<Rightarrow> bool" where
  "key_in_file H path key \<longleftrightarrow>
     (\<exists>contents. read_file H path = Some contents \<and> decode_hex (trim_0x (trim contents)) = Some key \<and>
        length key = 32 \<and> scalar_ok H key)"

lemma load_signing_key_iff:
  "load_signing_key H E path = (Some key, addr) \<longleftrightarrow>
     key_in_file H path key \<and> addr = Some (drop 12 (keccak256 E (drop 1 (public_point H key))))"
  by (auto simp: load_signing_key_def key_in_file_def split: option.split if_splits)

lemma load_signing_key_cases:
  obtains (loaded) key addr where "load_signing_key H E path = (Some key, Some addr)"
  | (absent) "load_signing_key H E path = (None, None)"
proof (cases "load_signing_key H E path")
  case (Pair k a)
  show thesis
  proof (cases k)
    case None
    with Pair have "load_signing_key H E path = (None, None)"
      by (auto simp: load_signing_key_def split: option.splits if_splits)
    then show thesis by (rule absent)
  next
    case (Some key)
    with Pair show thesis by (metis load_signing_key_iff loaded)
  qed
qed

section \<open>Start-up\<close>

lemma run_treasury_main:
  assumes "\<forall>n. db_up E n"
  shows "fst (run_state (treasury_main success H E cfg D) s) =
    (case bank_drain_new H E cfg of
       None \<Rightarrow> Inl ''invalid or missing RELAYER_KEY_PATH for decommission drain''
     | Some drain_signer \<Rightarrow>
         (let (r, t) = run_state (rpc_reachable_at_startup success E (Config.truncate cfg)) (tick_on E 0 (tick_on E 0 s))
          in Inr \<lparr>sv_hot_path = hot_path_new H E cfg (st_relay_logs D) t,
            sv_watcher = watcher_new H E cfg (st_alerts D) (st_alert_seq D) t,
            sv_cold_path = cold_path_new H E cfg (st_rebalance_ops D) t,
            sv_reserve_path = reserve_path_new H E cfg (st_reserve_ops D) t,
            sv_bank_drain = drain_signer, sv_rpc_reachable = r,
            sv_relayer_key_loaded = check_relayer_key (read_file H (relayer_key_path cfg))\<rparr>))"
  using assms by (simp add: treasury_main_def run_db split_beta split: option.split)

text \<open>
  The treasury serves exactly when the relayer key file holds a key: with the database up and no
  plus sign in the file, start-up ends in an error when the file is missing, is not 32 bytes of
  hexadecimal text or is no valid scalar; otherwise the hot path, the cold path and the drain all
  sign with the key of the file and its address, and the key check reports success. A running
  server therefore never reports a missing relayer key, although the health check has a field for
  it and start-up only warns about it.
\<close>

theorem serving_has_key:
  assumes "\<forall>n. db_up E n" "\<forall>contents. read_file H (relayer_key_path cfg) = Some contents \<longrightarrow> CHR ''+'' \<notin> set contents"
  shows "case fst (run_state (treasury_main success H E cfg D) s) of
      Inl e \<Rightarrow> (\<nexists>key. key_in_file H (relayer_key_path cfg) key)
    | Inr srv \<Rightarrow> (\<exists>key addr. key_in_file H (relayer_key_path cfg) key \<and>
        addr = drop 12 (keccak256 E (drop 1 (public_point H key))) \<and>
        (relayer_key (sv_hot_path srv), relayer_address (sv_hot_path srv)) = (Some key, Some addr) \<and>
        (relayer_key (sv_cold_path srv), relayer_address (sv_cold_path srv)) = (Some key, Some addr) \<and>
        sv_bank_drain srv = (key, addr) \<and> sv_relayer_key_loaded srv \<and>
        hc_relayer_key_loaded (fst (run_state (health_check E (sv_rpc_reachable srv) (sv_relayer_key_loaded srv)) t)))"
proof (cases rule: load_signing_key_cases [of H E "relayer_key_path cfg"])
  case (loaded key addr)
  then have key: "key_in_file H (relayer_key_path cfg) key"
    and addr: "addr = drop 12 (keccak256 E (drop 1 (public_point H key)))" by (simp_all add: load_signing_key_iff)
  then have "check_relayer_key (read_file H (relayer_key_path cfg))"
    using assms(2) check_relayer_key_iff unfolding key_in_file_def by metis
  then show ?thesis
    using key addr loaded
    by (simp add: run_treasury_main assms(1) bank_drain_new_def hot_path_new_def cold_path_new_def health_check_def
        run_db split_beta)
next
  case absent
  then have "\<nexists>key. key_in_file H (relayer_key_path cfg) key" using load_signing_key_iff by (metis option.distinct(1) fst_conv)
  then show ?thesis using absent by (simp add: run_treasury_main assms(1) bank_drain_new_def)
qed

section \<open>Restarts of the hot path\<close>

lemma restart_logs [simp]: "relay_logs (hot_path_new H E cfg rows clock) = rows"
  by (simp add: hot_path_new_def split_beta)

lemma hot_life_kept: "hot_life H E cfg s t \<Longrightarrow> relays_kept s t"
  by (induction rule: hot_life.induct) (simp_all add: hot_step_kept relays_keptI)

text \<open>
  At most once, across restarts: when an event's row exists, then in every later state, after any
  interleaving of polling rounds, route receiver rounds, status queries, other relay tasks and
  restarts of the process, a task for an event with that source event hash makes one database query
  and nothing else: no request to any chain, no change of any row. (The database is reachable
  throughout.)
\<close>

theorem relay_once_across_restarts:
  assumes "(hot_life H E cfg)\<^sup>*\<^sup>* s t" "find_relay s (he_source_event_hash e) \<noteq> None" "\<forall>n. db_up E n"
  shows "run_state (relay_event E (Config.truncate cfg) e) t = ((), tick_on E 0 t)"
proof -
  have "relays_kept s t" using assms(1) hot_life_kept by (rule relay_rows.reachable)
  then have "find_relay t (he_source_event_hash e) \<noteq> None"
    using assms(2) unfolding relays_kept_def by force
  then show ?thesis unfolding relay_event_def using assms(3) by (intro relay_once.recorded_noop) auto
qed

text \<open>
  Events emitted while the process is down are not relayed: the cursor of a chain is not stored, and
  the first round after a restart asks for the logs of the head block alone and puts the cursor
  above it.
\<close>

theorem downtime_blocks_skipped:
  assumes "fst (run_state (fetch_block_number E u) s) = Some head"
    "s = hot_path_new H E cfg rows clock" "run_state (poll_events_chain E (c, u, b)) s = (r, t)"
  shows "calls t = calls s @ [(u, rpc_body ''eth_blockNumber'' []),
      (u, get_logs_body b (JStr (hot_path_topic E)) head head)] \<and> hp_last_block t c = Some (head + 1)"
proof -
  have "hp_last_block s = Map.empty" by (simp add: assms(2) hot_path_new_def split_beta)
  moreover have "clamp_from head head = head"
    by (simp add: clamp_from_def max_def not_le less_imp_le saturating_sub_le antisym)
  ultimately show ?thesis
    using assms(1,3)
    by (auto simp: poll_events_chain_def run_block_number fetch_logs_def run_post tick_on_def Let_def)
qed

text \<open>Only five variables are required; a deployment that sets no others gets the defaults.\<close>

lemma from_env_required:
  assumes "from_env J vars = Some cfg"
  shows "list_all (\<lambda>k. vars k \<noteq> None)
    [''database_url'', ''rpc_urls'', ''contract_addresses'', ''route_receiver_address'', ''relayer_key_path'']"
  using assms unfolding from_env_def by (cases "vars ''rpc_urls''"; cases "vars ''contract_addresses''") (auto simp: bind_eq_Some_conv)

lemma from_env_minimal:
  assumes "json_urls J urls = Some us" "json_urls J banks = Some bs"
  shows "\<exists>cfg. from_env J [''database_url'' \<mapsto> url, ''rpc_urls'' \<mapsto> urls, ''contract_addresses'' \<mapsto> banks,
      ''route_receiver_address'' \<mapsto> receiver, ''relayer_key_path'' \<mapsto> path] = Some cfg \<and>
    rpc_urls cfg = us \<and> contract_addresses cfg = bs \<and> relayer_key_path cfg = path \<and>
    pauser_key_path cfg = None \<and> reserve_relayer_key_path cfg = None \<and> cold_path_max_wei cfg = [] \<and>
    cold_path_min_bps cfg = 8000 \<and> cold_path_target_bps cfg = 0 \<and> decommission_admin_token cfg = None"
  using assms by (simp add: from_env_def field_or_def field_opt_def default_cold_path_min_bps_def)

section \<open>Concrete runs\<close>

definition sample_host :: host where
  "sample_host = \<lparr>read_file = (\<lambda>path. Some (''0x'' @ concat (replicate 32 ''a1'') @ [CHR 0x0A])),
     scalar_ok = (\<lambda>bytes. True), public_point = (\<lambda>key. replicate 65 4)\<rparr>"

definition sample_boot :: boot_config where
  "sample_boot = Config.extend sample_config
     (boot_config.fields ''postgres'' 50051 ''relayer.key'' None 60 1800 60 None)"

definition nothing_stored :: stored where
  "nothing_stored = \<lparr>st_relay_logs = [], st_alerts = [], st_alert_seq = 1, st_rebalance_ops = [], st_reserve_ops = []\<rparr>"

lemma sample_key: "key_in_file sample_host path (replicate 32 0xA1)"
proof -
  have "trim_0x (trim (''0x'' @ concat (replicate 32 ''a1'') @ [CHR 0x0A])) = concat (replicate 32 ''a1'')"
    by (simp add: numeral_eq_Suc trim_def is_space_def)
  moreover have "decode_hex (concat (replicate 32 ''a1'')) = Some (replicate 32 0xA1)"
    by code_simp
  ultimately show ?thesis by (simp add: key_in_file_def sample_host_def)
qed

lemma boot_truncate: "Config.truncate sample_boot = sample_config"
  by (simp add: sample_boot_def Config.defs boot_config.defs sample_config_def)

theorem serving_has_key_witness:
  "case fst (run_state (treasury_main (\<lambda>n u b. True) sample_host (sample_env sample_answer) sample_boot nothing_stored)
      \<lparr>now_ms = 0, tick = 0, calls = []\<rparr>) of
     Inl e \<Rightarrow> False | Inr srv \<Rightarrow> sv_relayer_key_loaded srv"
proof -
  have "\<forall>contents. read_file sample_host (relayer_key_path sample_boot) = Some contents \<longrightarrow> CHR ''+'' \<notin> set contents"
    by (auto simp: sample_host_def)
  from serving_has_key [OF sample_db_always [of sample_answer] this, where success = "\<lambda>n u b. True" and
      D = nothing_stored and s = "\<lparr>now_ms = 0, tick = 0, calls = []\<rparr>" and t = "\<lparr>now_ms = 0, tick = 0, calls = []\<rparr>"]
  moreover have "\<exists>key. key_in_file sample_host (relayer_key_path sample_boot) key" using sample_key by blast
  ultimately show ?thesis by (auto split: sum.split_asm sum.split)
qed

theorem relay_once_across_restarts_witness:
  "run_state (relay_event (sample_env sample_answer) (Config.truncate sample_boot) sample_event)
     (hot_path_new sample_host (sample_env sample_answer) sample_boot [relay_row sample_event None RelayFailed 0] \<lparr>now_ms = 9, tick = 9, calls = []\<rparr>) =
   ((), tick_on (sample_env sample_answer) 0
     (hot_path_new sample_host (sample_env sample_answer) sample_boot [relay_row sample_event None RelayFailed 0] \<lparr>now_ms = 9, tick = 9, calls = []\<rparr>))"
proof (rule relay_once_across_restarts)
  let ?s = "hot_start {} [relay_row sample_event None RelayFailed 0]"
  have "relay_logs ?s = [relay_row sample_event None RelayFailed 0]" by (simp add: hot_start_def)
  then show "(hot_life sample_host (sample_env sample_answer) sample_boot)\<^sup>*\<^sup>* ?s
      (hot_path_new sample_host (sample_env sample_answer) sample_boot [relay_row sample_event None RelayFailed 0] \<lparr>now_ms = 9, tick = 9, calls = []\<rparr>)"
    by (metis hot_life.restart r_into_rtranclp)
  show "find_relay ?s (he_source_event_hash sample_event) \<noteq> None"
    by (simp add: hot_start_def find_relay_def find_row_def relay_row_def)
qed (simp add: sample_db_always)

theorem downtime_blocks_skipped_witness:
  "hp_last_block (snd (run_state (poll_events_chain (sample_env quantity_answer) (1, ''a'', ''c''))
     (hot_path_new sample_host (sample_env quantity_answer) sample_boot [] \<lparr>now_ms = 0, tick = 0, calls = []\<rparr>))) 1 = Some 17"
proof -
  let ?s = "hot_path_new sample_host (sample_env quantity_answer) sample_boot [] \<lparr>now_ms = 0, tick = 0, calls = []\<rparr>"
  have "fst (run_state (fetch_block_number (sample_env quantity_answer) ''a'') ?s) = Some 16"
    by (simp add: run_block_number sample_env_def quantity_answer_def result_str_def jindex_def parse_0x10 del: trim_0x.simps)
  from downtime_blocks_skipped [OF this refl surjective_pairing, of 1 "''c''"] show ?thesis by simp
qed

end
