(* ===== verification/RelayTasks.thy ===== *)
theory RelayTasks
  imports Startup
begin

text \<open>
  The relay tasks of the hot path, interleaved. \<open>hot_path.rs\<close> spawns one task per event, and the tasks
  share the relay log, the nonce cache and the view of the chains. Here a task is split at its awaits:
  each phase does at most one access to the shared state, together with the reads of the chain next to
  it, which no other task can observe. A task that runs alone does what \<open>relay_event\<close> of theory
  \<open>HotPath\<close> does in one step.
\<close>

section \<open>Phases of a task\<close>

record attempt =
  at_rpc :: string
  at_bank :: string
  at_key :: "byte list"
  at_left :: nat
  at_delay :: nat

datatype phase =
    Guard
  | Reading
  | Deciding string string bool u256
  | Starting string string
  | Nonce attempt
  | Gas attempt u64
  | Sending attempt string
  | Waiting attempt string
  | Failed attempt
  | Recording "TxError + TxHash"

text \<open>One phase; the result is the next phase, \<open>None\<close> when the task has ended.\<close>

fun task_step :: "env \<Rightarrow> Config \<Rightarrow> HotPathEvent \<Rightarrow> phase \<Rightarrow> ('m hot_path_scheme, phase option) state" where
  "task_step E cfg event Guard = do {
     recorded \<leftarrow> relay_already_recorded E (he_source_event_hash event);
     ret (if recorded then None else Some Reading)
   }"
| "task_step E cfg event Reading = do {
     chain_active \<leftarrow> gets (\<lambda>s. is_chain_active s (he_dest_chain_id event));
     (case map_of (rpc_urls cfg) (he_dest_chain_id event) of
        None \<Rightarrow> ret None
      | Some dest_rpc \<Rightarrow>
          (case map_of (contract_addresses cfg) (he_dest_chain_id event) of
             None \<Rightarrow> ret None
           | Some dest_bank \<Rightarrow>
               if chain_active then do {
                 d \<leftarrow> fetch_pool_depth E dest_rpc dest_bank (selector E ''poolDepth()'');
                 ret (map_option (Deciding dest_rpc dest_bank chain_active) d)
               }
               else ret (Some (Deciding dest_rpc dest_bank chain_active 0))))
   }"
| "task_step E cfg event (Deciding dest_rpc dest_bank chain_active pool_depth) =
     (case evaluate_relay_eligibility chain_active pool_depth (he_amount event) of
        Approved \<Rightarrow> do {
          insert_relay_log E event None RelayPending;
          ret (Some (Starting dest_rpc dest_bank))
        }
      | RejectedInactiveChain \<Rightarrow> do {
          insert_relay_log E event None RelayRejectedInactiveChain;
          ret None
        }
      | RejectedInsufficientDepth \<Rightarrow> do {
          insert_relay_log E event None RelayRejectedInsufficientDepth;
          ret None
        })"
| "task_step E cfg event (Starting dest_rpc dest_bank) = do {
     k \<leftarrow> gets relayer_key;
     ret (Some (case k of
        None \<Rightarrow> Recording (Inl MissingKey)
      | Some key \<Rightarrow> Nonce \<lparr>at_rpc = dest_rpc, at_bank = dest_bank, at_key = key,
          at_left = MAX_RELAY_RETRIES - 1, at_delay = 1000\<rparr>))
   }"
| "task_step E cfg event (Nonce a) = do {
     addr \<leftarrow> gets relayer_address;
     (case addr of
        None \<Rightarrow> ret (Some (Failed a))
      | Some relayer_addr \<Rightarrow> do {
          n \<leftarrow> get_nonce E (at_rpc a) (he_dest_chain_id event) relayer_addr;
          ret (Some (case n of Inl e \<Rightarrow> Failed a | Inr nonce \<Rightarrow> Gas a nonce))
        })
   }"
| "task_step E cfg event (Gas a nonce) = do {
     g \<leftarrow> fetch_gas_params E (at_rpc a);
     (case g of
        Inl e \<Rightarrow> ret (Some (Failed a))
      | Inr (max_fee, max_priority_fee) \<Rightarrow>
          (case address_bytes (at_bank a) of
             Inl e \<Rightarrow> ret (Some (Failed a))
           | Inr to \<Rightarrow>
               (case sign_eip1559_tx E (he_dest_chain_id event) nonce max_priority_fee max_fee 120000 to []
                       (release_call E event) (at_key a) of
                  Inl e \<Rightarrow> ret (Some (Failed a))
                | Inr raw_hex \<Rightarrow> do {
                    cache_nonce (he_dest_chain_id event) (nonce + 1);
                    ret (Some (Sending a raw_hex))
                  })))
   }"
| "task_step E cfg event (Sending a raw_hex) = do {
     r \<leftarrow> send_raw_transaction E (at_rpc a) raw_hex;
     ret (Some (case r of Inl e \<Rightarrow> Failed a | Inr tx_hash \<Rightarrow> Waiting a tx_hash))
   }"
| "task_step E cfg event (Waiting a tx_hash) = do {
     w \<leftarrow> wait_for_receipt E (at_rpc a) tx_hash 60000;
     ret (Some (case w of Inl e \<Rightarrow> Failed a | Inr _ \<Rightarrow> Recording (Inr tx_hash)))
   }"
| "task_step E cfg event (Failed a) = do {
     flush_nonce (he_dest_chain_id event);
     (if 0 < at_left a then do {
        sleep E (at_delay a);
        ret (Some (Nonce (a\<lparr>at_left := at_left a - 1, at_delay := at_delay a * 2\<rparr>)))
      }
      else ret (Some (Recording (Inl (RetryExhausted MAX_RELAY_RETRIES)))))
   }"
| "task_step E cfg event (Recording r) = do {
     (case r of
        Inr tx_hash \<Rightarrow> update_relay_log E (he_source_event_hash event) tx_hash RelayCompleted
      | Inl e \<Rightarrow> update_relay_log_failed E (he_source_event_hash event));
     ret None
   }"

section \<open>A task alone\<close>

text \<open>The phases left: five per attempt, and six around them.\<close>

fun rank :: "phase \<Rightarrow> nat" where
  "rank Guard = 5 * MAX_RELAY_RETRIES + 5"
| "rank Reading = 5 * MAX_RELAY_RETRIES + 4"
| "rank (Deciding u b c d) = 5 * MAX_RELAY_RETRIES + 3"
| "rank (Starting u b) = 5 * MAX_RELAY_RETRIES + 2"
| "rank (Nonce a) = 5 * at_left a + 6"
| "rank (Gas a n) = 5 * at_left a + 5"
| "rank (Sending a raw) = 5 * at_left a + 4"
| "rank (Waiting a tx) = 5 * at_left a + 3"
| "rank (Failed a) = 5 * at_left a + 2"
| "rank (Recording r) = 1"

lemma task_step_rank:
  assumes "run_state (task_step E cfg e p) s = (Some q, t)"
  shows "rank q < rank p"
  using assms
  by (cases p) (auto simp: MAX_RELAY_RETRIES_def split: if_splits option.split_asm sum.split_asm
      prod.split_asm RelayDecision.split_asm)

function task_run :: "env \<Rightarrow> Config \<Rightarrow> HotPathEvent \<Rightarrow> phase \<Rightarrow> 'm hot_path_scheme \<Rightarrow> 'm hot_path_scheme" where
  "task_run E cfg e p s =
     (case run_state (task_step E cfg e p) s of
        (None, t) \<Rightarrow> t
      | (Some q, t) \<Rightarrow> task_run E cfg e q t)"
  by auto

termination by (relation "measure (\<lambda>(E, cfg, e, p, s). rank p)") (auto dest: task_step_rank [OF sym])

declare task_run.simps [simp del]

lemma task_run_next: "run_state (task_step E cfg e p) s = (Some q, t) \<Longrightarrow> task_run E cfg e p s = task_run E cfg e q t"
  and task_run_end: "run_state (task_step E cfg e p) s = (None, t) \<Longrightarrow> task_run E cfg e p s = t"
  by (simp_all add: task_run.simps [of E cfg e p s])

text \<open>From a phase on, a task does what the rest of \<open>relay_event\<close> does.\<close>

lemma run_attempt:
  assumes "run_state (submit_release_once E (at_rpc a) (at_bank a) e (at_key a) (he_dest_chain_id e)) s = (r, t)"
  shows "task_run E cfg e (Nonce a) s =
    (case r of Inl x \<Rightarrow> task_run E cfg e (Failed a) t | Inr tx \<Rightarrow> task_run E cfg e (Recording (Inr tx)) t)"
  using assms
  by (auto simp: submit_release_once_def submit_tx_def task_run_next
      split: option.split_asm sum.split_asm prod.split_asm option.split sum.split prod.split)

lemma run_attempts:
  fixes s :: "'m hot_path_scheme"
  shows "task_run E cfg e (Nonce \<lparr>at_rpc = u, at_bank = b, at_key = key, at_left = k, at_delay = d\<rparr>) s =
    (case run_state (retry_loop E (he_dest_chain_id e)
       (submit_release_once E u b e key (he_dest_chain_id e)) (Suc k) d) s of
     (x, t) \<Rightarrow> task_run E cfg e
       (Recording (case x of Some tx \<Rightarrow> Inr tx | None \<Rightarrow> Inl (RetryExhausted MAX_RELAY_RETRIES))) t)"
proof (induction k arbitrary: d s)
  case (0 d s)
  obtain r t where r: "run_state (submit_release_once E u b e key (he_dest_chain_id e)) s = (r, t)" by (rule prod.exhaust)
  then show ?case
    by (cases r) (simp_all add: run_attempt [of E "\<lparr>at_rpc = u, at_bank = b, at_key = key, at_left = 0, at_delay = d\<rparr>"]
        task_run_next flush_nonce_def)
next
  case (Suc k d s)
  obtain r t where r: "run_state (submit_release_once E u b e key (he_dest_chain_id e)) s = (r, t)" by (rule prod.exhaust)
  then show ?case
    using Suc.IH [of "d * 2"]
    by (cases r)
      (simp_all add: run_attempt [of E "\<lparr>at_rpc = u, at_bank = b, at_key = key, at_left = Suc k, at_delay = d\<rparr>"]
        task_run_next flush_nonce_def split_beta)
qed

lemma run_approved:
  "task_run E cfg e (Starting u b) s =
     snd (run_state (do {
       r \<leftarrow> submit_release_with_retry E u b e;
       (case r of
          Inr tx_hash \<Rightarrow> update_relay_log E (he_source_event_hash e) tx_hash RelayCompleted
        | Inl x \<Rightarrow> update_relay_log_failed E (he_source_event_hash e)) }) s)"
proof -
  have recorded: "task_run E cfg e (Recording r) t = snd (run_state (case r of
       Inr tx_hash \<Rightarrow> update_relay_log E (he_source_event_hash e) tx_hash RelayCompleted
     | Inl x \<Rightarrow> update_relay_log_failed E (he_source_event_hash e)) t)" for r t
    by (simp add: task_run_end split_beta)
  show ?thesis
    by (cases "relayer_key s")
      (simp_all add: submit_release_with_retry_def with_retry_def task_run_next recorded run_attempts
        MAX_RELAY_RETRIES_def split_beta del: retry_loop.simps split: option.split)
qed

text \<open>
  A task that no other task interrupts behaves like the relayer's handler: run from its first phase
  to its last, which it always reaches, after at most twenty phases, it leaves the state
  \<open>relay_event\<close> leaves, on every branch.
\<close>

theorem task_alone_is_relay_event:
  "task_run E cfg e Guard s = snd (run_state (relay_event E cfg e) s) \<and> rank Guard = 20"
proof -
  have decided: "task_run E cfg e (Deciding u b c d) t = snd (run_state (relay_decided E u b e c d) t)" for u b c d t
    by (cases "evaluate_relay_eligibility c d (he_amount e)")
      (simp_all add: relay_decided_def relay_approved_def task_run_next task_run_end run_approved split_beta)
  have reading: "task_run E cfg e Reading t = snd (run_state (relay_unrecorded E cfg e) t)" for t
    by (auto simp: relay_unrecorded_def task_run_next task_run_end decided split_beta split: option.split)
  show ?thesis
    by (auto simp: relay_event_def run_relay_already_recorded task_run_next task_run_end reading MAX_RELAY_RETRIES_def)
qed

section \<open>Tasks together\<close>

text \<open>
  The module with its tasks in progress. \<open>relayed\<close> is a history: the events whose task recorded them
  as pending, in that order; only such a task goes on to submit.
\<close>

record hot_tasks = hot_path +
  running :: "(HotPathEvent \<times> phase) list"
  relayed :: "HotPathEvent list"

definition next_tasks :: "HotPathEvent \<Rightarrow> phase option \<Rightarrow> (HotPathEvent \<times> phase) list" where
  "next_tasks e q = (case q of None \<Rightarrow> [] | Some p \<Rightarrow> [(e, p)])"

definition newly_relayed :: "HotPathEvent \<Rightarrow> phase option \<Rightarrow> HotPathEvent list" where
  "newly_relayed e q = (case q of Some (Starting u b) \<Rightarrow> [e] | _ \<Rightarrow> [])"

text \<open>
  A step of one process: a round of a poller, the start of a spawned task, one phase of any task, or a
  status query. Between them the process may be restarted, which keeps the relay log (and the trace of
  requests, which is the world's) and forgets everything else.
\<close>

inductive process_step :: "env \<Rightarrow> boot_config \<Rightarrow> hot_tasks \<Rightarrow> hot_tasks \<Rightarrow> bool" for E cfg where
  route: "run_state (route_round E (Config.truncate cfg) False) s = (r, t) \<Longrightarrow> process_step E cfg s t"
| poll: "entry \<in> set (chain_entries (rpc_urls cfg) (contract_addresses cfg)) \<Longrightarrow>
    run_state (poll_events_chain E entry) s = (r, t) \<Longrightarrow> process_step E cfg s t"
| start: "spawned s = xs @ e # ys \<Longrightarrow>
    process_step E cfg s (s\<lparr>spawned := xs @ ys, running := running s @ [(e, Guard)]\<rparr>)"
| advance: "running s = xs @ (e, p) # ys \<Longrightarrow>
    run_state (task_step E (Config.truncate cfg) e p) s = (q, t) \<Longrightarrow>
    process_step E cfg s (t\<lparr>running := xs @ next_tasks e q @ ys, relayed := relayed s @ newly_relayed e q\<rparr>)"
| query: "run_state (get_relay_status E h) s = (r, t) \<Longrightarrow> process_step E cfg s t"

inductive async_step :: "host \<Rightarrow> env \<Rightarrow> boot_config \<Rightarrow> hot_tasks \<Rightarrow> hot_tasks \<Rightarrow> bool" for H E cfg where
  process: "process_step E cfg s t \<Longrightarrow> async_step H E cfg s t"
| restart: "async_step H E cfg s (hot_path.extend
    (hot_path_new H E cfg (relay_logs s) \<lparr>now_ms = now, tick = n, calls = calls s\<rparr>)
    \<lparr>running = [], relayed = relayed s\<rparr>)"

lemmas async_start = process_step.start [THEN async_step.process]
  and async_advance = process_step.advance [THEN async_step.process]

subsection \<open>Frames\<close>

lemma beyond_signer_more: "beyond_signer (hot_path.more :: 'm hot_path_scheme \<Rightarrow> _)"
  "beyond_signer (spawned :: 'm hot_path_scheme \<Rightarrow> _)"
  unfolding beyond_signer_def
  subgoal by (intro allI impI, case_tac s, case_tac t, simp)
  subgoal by (intro allI impI, case_tac s, case_tac t, simp)
  done

lemma relay_repo_keeps_more:
  "keeps hot_path.more (insert_relay_log E e tx st)" "keeps hot_path.more (update_relay_log E h t st)"
  "keeps hot_path.more (update_relay_log_failed E h)"
  "keeps spawned (insert_relay_log E e tx st)" "keeps spawned (update_relay_log E h t st)"
  "keeps spawned (update_relay_log_failed E h)"
  by (simp_all add: keeps_def insert_relay_log_def update_relay_log_def update_relay_log_failed_def run_db tick_on_def)

lemma task_step_frame:
  assumes "beyond_signer f" "\<And>x y z. keeps f (insert_relay_log E x y z)" "\<And>x y z. keeps f (update_relay_log E x y z)"
    "\<And>x. keeps f (update_relay_log_failed E x)"
  shows "keeps f (task_step E cfg e p)"
proof -
  note k = keeps_beyond_signer [OF assms(1)]
  show ?thesis
    by (cases p) (auto intro!: keeps assms(2-4) relay_repo_keeps(2) [THEN k] keeps_signer_more [THEN k]
        get_nonce_keeps(2) [THEN k] cache_keeps(1,3) [THEN k] split: RelayDecision.split)
qed

lemma task_step_keeps:
  "keeps hot_path.more (task_step E cfg e p)" "keeps spawned (task_step E cfg e p)"
  by (intro task_step_frame beyond_signer_more relay_repo_keeps_more)+

lemma rounds_keep_more:
  "keeps hot_path.more (route_round E cfg clamp)" "keeps hot_path.more (poll_events_chain E entry)"
  "keeps hot_path.more (get_relay_status E h)" "keeps spawned (route_round E cfg clamp)"
  "keeps spawned (get_relay_status E h)"
proof -
  have r: "keeps router.more (route_round E cfg clamp)" by (rule route_round_keeps)
  show "keeps hot_path.more (route_round E cfg clamp)" "keeps spawned (route_round E cfg clamp)"
    unfolding keeps_def by (intro allI, metis r keeps_def hot_path.ext_inject hot_path.surjective router.select_convs(6))+
  have b: "beyond_sys (hot_path.more :: 'm hot_path_scheme \<Rightarrow> _)" for x :: 'm
    unfolding beyond_sys_def by (intro allI impI, case_tac s, case_tac t, simp)
  show "keeps hot_path.more (poll_events_chain E entry)"
    unfolding poll_events_chain_def Let_def
    by (intro keeps keeps_modify fetch_keeps [THEN keeps_beyond_sys [OF b]]; simp)
  show "keeps hot_path.more (get_relay_status E h)" "keeps spawned (get_relay_status E h)"
    by (simp_all add: keeps_def get_relay_status_def relay_repo_status_def run_db tick_on_def)
qed

subsection \<open>What the tasks send\<close>

text \<open>A transaction that releases the event: signed for the configured node and Bank of its destination.\<close>

definition release_to :: "env \<Rightarrow> Config \<Rightarrow> HotPathEvent \<Rightarrow> string \<times> json \<Rightarrow> bool" where
  "release_to E cfg e c \<longleftrightarrow>
     (\<exists>u b key. map_of (rpc_urls cfg) (he_dest_chain_id e) = Some u \<and>
        map_of (contract_addresses cfg) (he_dest_chain_id e) = Some b \<and> release_of E u b key e c)"

definition dest_ok :: "Config \<Rightarrow> HotPathEvent \<Rightarrow> string \<Rightarrow> string \<Rightarrow> bool" where
  "dest_ok cfg e u b \<longleftrightarrow> map_of (rpc_urls cfg) (he_dest_chain_id e) = Some u \<and>
     map_of (contract_addresses cfg) (he_dest_chain_id e) = Some b"

fun phase_ok :: "env \<Rightarrow> Config \<Rightarrow> HotPathEvent \<Rightarrow> phase \<Rightarrow> bool" where
  "phase_ok E cfg e (Deciding u b c d) = dest_ok cfg e u b"
| "phase_ok E cfg e (Starting u b) = dest_ok cfg e u b"
| "phase_ok E cfg e (Nonce a) = dest_ok cfg e (at_rpc a) (at_bank a)"
| "phase_ok E cfg e (Gas a n) = dest_ok cfg e (at_rpc a) (at_bank a)"
| "phase_ok E cfg e (Sending a raw) =
     (release_to E cfg e (at_rpc a, send_body raw) \<and> dest_ok cfg e (at_rpc a) (at_bank a))"
| "phase_ok E cfg e (Waiting a tx) = dest_ok cfg e (at_rpc a) (at_bank a)"
| "phase_ok E cfg e (Failed a) = dest_ok cfg e (at_rpc a) (at_bank a)"
| "phase_ok E cfg e _ = True"

fun sends_left :: "phase \<Rightarrow> nat" where
  "sends_left (Starting u b) = MAX_RELAY_RETRIES"
| "sends_left (Nonce a) = Suc (at_left a)"
| "sends_left (Gas a n) = Suc (at_left a)"
| "sends_left (Sending a raw) = Suc (at_left a)"
| "sends_left (Waiting a tx) = at_left a"
| "sends_left (Failed a) = at_left a"
| "sends_left _ = 0"

fun sends_now :: "phase \<Rightarrow> nat" where
  "sends_now (Sending a raw) = 1"
| "sends_now _ = 0"

fun past_guard :: "phase \<Rightarrow> bool" where
  "past_guard Guard = False"
| "past_guard Reading = False"
| "past_guard (Deciding u b c d) = False"
| "past_guard _ = True"

lemma release_toI:
  assumes "dest_ok cfg e u b" "address_bytes b = Inr to"
    "sign_eip1559_tx E (he_dest_chain_id e) n prio fee 120000 to [] (release_call E e) key = Inr raw"
  shows "release_to E cfg e (u, send_body raw)"
proof -
  have "release_of E u b key e (u, send_body raw)"
    unfolding release_of_def signed_for_def using assms(2,3) by (metis fst_conv snd_conv)
  then show ?thesis using assms(1) unfolding release_to_def dest_ok_def by blast
qed

lemma task_step_phase_ok:
  assumes "phase_ok E cfg e p" "run_state (task_step E cfg e p) s = (Some q, t)"
  shows "phase_ok E cfg e q"
proof (cases p)
  case Reading
  with assms show ?thesis by (auto simp: dest_ok_def split: if_splits option.split_asm prod.split_asm)
qed (use assms in \<open>auto intro: release_toI split: if_splits option.split_asm sum.split_asm prod.split_asm
    RelayDecision.split_asm\<close>)

lemma task_step_emits:
  assumes "phase_ok E cfg e p"
  shows "emits (release_to E cfg e) (sends_now p) (task_step E cfg e p)"
proof (cases p)
  case (Sending a raw)
  with assms show ?thesis by (auto intro!: emits_first send_emits [unfolded One_nat_def])
qed (auto intro!: emits_then emits_case emits emits_keeps_calls [OF relay_repo_keeps(1)]
    emits_keeps_calls [OF relay_repo_keeps(3)] emits_keeps_calls [OF relay_repo_keeps(5)]
    emits_keeps_calls [OF relay_repo_keeps(7)] split: RelayDecision.split)

lemma task_step_sends_left:
  assumes "run_state (task_step E cfg e p) s = (Some q, t)"
  shows "sends_left q + (sends_now p) \<le> sends_left p + 3 * length (newly_relayed e (Some q)) \<and>
    (past_guard q \<longrightarrow> past_guard p \<or> newly_relayed e (Some q) = [e])"
  using assms
  by (cases p) (auto simp: newly_relayed_def MAX_RELAY_RETRIES_def split: if_splits option.split_asm
      sum.split_asm prod.split_asm RelayDecision.split_asm)

text \<open>
  The invariant: since the state \<open>s0\<close> only releases of relayed events were sent, and the number of
  transactions sent and still to be sent is at most three per relayed event.
\<close>

definition async_inv :: "env \<Rightarrow> boot_config \<Rightarrow> hot_tasks \<Rightarrow> hot_tasks \<Rightarrow> bool" where
  "async_inv E cfg s0 s \<longleftrightarrow>
     (\<exists>new. calls s = calls s0 @ new \<and>
        (\<forall>c\<in>set new. is_send c \<longrightarrow> (\<exists>e\<in>set (relayed s). release_to E (Config.truncate cfg) e c)) \<and>
        length (filter is_send new) + sum_list (map (sends_left \<circ> snd) (running s)) \<le> 3 * length (relayed s)) \<and>
     (\<forall>(e, p)\<in>set (running s). phase_ok E (Config.truncate cfg) e p \<and> (past_guard p \<longrightarrow> e \<in> set (relayed s)))"

lemma async_inv_quiet:
  assumes "async_inv E cfg s0 s" "adds s 0 Q t" "hot_path.more t = hot_path.more s"
  shows "async_inv E cfg s0 t"
proof -
  have "running t = running s" "relayed t = relayed s" using assms(3) by (cases s, cases t, simp)+
  moreover obtain new where "calls t = calls s @ new" "filter is_send new = []" "\<forall>c\<in>set new. \<not> is_send c"
    using assms(2) by (auto simp: adds_def filter_empty_conv)
  ultimately show ?thesis using assms(1) unfolding async_inv_def by auto
qed

lemma async_inv_advance:
  assumes inv: "async_inv E cfg s0 s" and at: "running s = xs @ (e, p) # ys"
    and run: "run_state (task_step E (Config.truncate cfg) e p) s = (q, t)"
  shows "async_inv E cfg s0 (t\<lparr>running := xs @ next_tasks e q @ ys, relayed := relayed s @ newly_relayed e q\<rparr>)"
proof -
  let ?cfg = "Config.truncate cfg" and ?n = "sends_now p"
  from inv obtain new where new: "calls s = calls s0 @ new"
    "\<forall>c\<in>set new. is_send c \<longrightarrow> (\<exists>e\<in>set (relayed s). release_to E ?cfg e c)"
    "length (filter is_send new) + sum_list (map (sends_left \<circ> snd) (running s)) \<le> 3 * length (relayed s)"
    and ok: "\<forall>(e, p)\<in>set (running s). phase_ok E ?cfg e p \<and> (past_guard p \<longrightarrow> e \<in> set (relayed s))"
    by (auto simp: async_inv_def)
  then have p: "phase_ok E ?cfg e p" "past_guard p \<longrightarrow> e \<in> set (relayed s)" by (auto simp: at)
  from emits_adds [OF task_step_emits [OF p(1)] run] obtain more where more: "calls t = calls s @ more"
    "length (filter is_send more) \<le> ?n" "\<forall>c\<in>set more. is_send c \<longrightarrow> release_to E ?cfg e c" by (auto simp: adds_def)
  have sender: "e \<in> set (relayed s)" if "c \<in> set more" "is_send c" for c
  proof -
    from that have "filter is_send more \<noteq> []" by (auto simp: filter_empty_conv)
    with more(2) have "past_guard p" by (cases p) auto
    with p(2) show ?thesis by simp
  qed
  have left: "?n + sum_list (map (sends_left \<circ> snd) (next_tasks e q)) \<le> sends_left p + 3 * length (newly_relayed e q)"
  proof (cases q)
    case None
    then show ?thesis by (cases p) (simp_all add: next_tasks_def)
  next
    case (Some r)
    with task_step_sends_left run show ?thesis by (fastforce simp: next_tasks_def)
  qed
  have tasks: "phase_ok E ?cfg e' p' \<and> (past_guard p' \<longrightarrow> e' \<in> set (relayed s @ newly_relayed e q))"
    if "(e', p') \<in> set (next_tasks e q)" for e' p'
    using that task_step_phase_ok [OF p(1)] task_step_sends_left run p(2)
    by (fastforce simp: next_tasks_def split: option.split_asm)
  have old: "phase_ok E ?cfg e' p' \<and> (past_guard p' \<longrightarrow> e' \<in> set (relayed s @ newly_relayed e q))"
    if "(e', p') \<in> set xs \<union> set ys" for e' p'
    using ok that at by fastforce
  have "\<forall>c\<in>set (new @ more). is_send c \<longrightarrow> (\<exists>e'\<in>set (relayed s @ newly_relayed e q). release_to E ?cfg e' c)"
    using new(2) more(3) sender by (metis Un_iff set_append)
  moreover have "length (filter is_send (new @ more)) + sum_list (map (sends_left \<circ> snd) (xs @ next_tasks e q @ ys))
      \<le> 3 * length (relayed s @ newly_relayed e q)"
    using new(3) more(2) left by (simp add: at)
  moreover have "\<forall>(e', p')\<in>set (xs @ next_tasks e q @ ys).
      phase_ok E ?cfg e' p' \<and> (past_guard p' \<longrightarrow> e' \<in> set (relayed s @ newly_relayed e q))"
    using old tasks by auto
  ultimately show ?thesis
    unfolding async_inv_def using new(1) more(1) by (intro conjI exI [of _ "new @ more"]) simp_all
qed

lemma process_step_inv:
  assumes "process_step E cfg s t" "async_inv E cfg s0 s"
  shows "async_inv E cfg s0 t"
  using assms
proof (induction rule: process_step.induct)
  case (route s r t)
  from async_inv_quiet [OF route(2) emits_adds [OF route_round_emits route(1)] keepsD [OF rounds_keep_more(1) route(1)]]
  show ?case .
next
  case (poll entry s r t)
  from async_inv_quiet [OF poll(3) emits_adds [OF poll_events_chain_emits poll(2)] keepsD [OF rounds_keep_more(2) poll(2)]]
  show ?case .
next
  case (start s xs e ys)
  then show ?case by (auto simp: async_inv_def)
next
  case (advance s xs e p ys q t)
  from async_inv_advance [OF advance(3,1,2)] show ?case .
next
  case (query h s r t)
  then have "t = tick_on E 0 s" by (auto simp: get_relay_status_def relay_repo_status_def run_db)
  then show ?case using query(2) by (simp add: async_inv_def tick_on_def)
qed

lemma async_step_inv:
  assumes "async_step H E cfg s t" "async_inv E cfg s0 s"
  shows "async_inv E cfg s0 t"
  using assms
proof (induction rule: async_step.induct)
  case (process s t)
  then show ?case by (rule process_step_inv)
next
  case (restart s now n)
  then show ?case by (auto simp: async_inv_def hot_path_new_def hot_path.defs split_beta)
qed

text \<open>
  Every transaction sent is the release of an event whose task was approved, and there are at most
  three per approval, whether or not the relay log was written.
\<close>

lemma async_reachable_inv: "(async_step H E cfg)\<^sup>*\<^sup>* s t \<Longrightarrow> async_inv E cfg s0 s \<Longrightarrow> async_inv E cfg s0 t"
  by (induction rule: rtranclp_induct) (use async_step_inv in blast)+

lemma async_releases_bounded:
  assumes "(async_step H E cfg)\<^sup>*\<^sup>* s t" "running s = []" "relayed s = []"
  shows "adds s (3 * length (relayed t)) (\<lambda>c. \<exists>e\<in>set (relayed t). release_to E (Config.truncate cfg) e c) t"
proof -
  have "async_inv E cfg s s" using assms(2,3) by (simp add: async_inv_def)
  from async_reachable_inv [OF assms(1) this] show ?thesis by (auto simp: async_inv_def adds_def)
qed

section \<open>Finalised chains\<close>

text \<open>The phases from which a task can still submit although it does not look at the chain's state again.\<close>

fun cleared :: "phase \<Rightarrow> bool" where
  "cleared Guard = False"
| "cleared Reading = False"
| "cleared (Deciding u b c d) = c"
| "cleared (Recording r) = False"
| "cleared _ = True"

lemma task_step_not_cleared:
  assumes "run_state (task_step E cfg e p) s = (Some q, t)" "\<not> is_chain_active s (he_dest_chain_id e)" "\<not> cleared p"
  shows "\<not> cleared q"
  using assms by (cases p) (auto simp: evaluate_relay_eligibility_def split: if_splits option.split_asm prod.split_asm)

lemma task_step_keeps_decommissioned: "keeps decommissioned_chains (task_step E cfg e p)"
  by (intro task_step_frame beyond_signer_hot_path relay_repo_keeps)

text \<open>Since \<open>s0\<close> nothing was sent to the chains \<open>D\<close>, and no task in progress is going to.\<close>

definition barred :: "env \<Rightarrow> boot_config \<Rightarrow> ChainId set \<Rightarrow> hot_tasks \<Rightarrow> hot_tasks \<Rightarrow> bool" where
  "barred E cfg D s0 s \<longleftrightarrow> D \<subseteq> decommissioned_chains s \<and>
     (\<forall>(e, p)\<in>set (running s). phase_ok E (Config.truncate cfg) e p \<and> (he_dest_chain_id e \<in> D \<longrightarrow> \<not> cleared p)) \<and>
     (\<exists>new. calls s = calls s0 @ new \<and> (\<forall>c\<in>set new. is_send c \<longrightarrow>
        (\<exists>e. he_dest_chain_id e \<notin> D \<and> release_to E (Config.truncate cfg) e c)))"

lemma barred_quiet:
  assumes "barred E cfg D s0 s" "adds s 0 Q t" "hot_path.more t = hot_path.more s"
    "decommissioned_chains s \<subseteq> decommissioned_chains t"
  shows "barred E cfg D s0 t"
proof -
  have "running t = running s" using assms(3) by (cases s, cases t, simp)
  moreover obtain new where "calls t = calls s @ new" "\<forall>c\<in>set new. \<not> is_send c"
    using assms(2) by (auto simp: adds_def filter_empty_conv)
  ultimately show ?thesis using assms(1,4) unfolding barred_def by (auto 0 4)
qed

lemma barred_advance:
  assumes inv: "barred E cfg D s0 s" and at: "running s = xs @ (e, p) # ys"
    and run: "run_state (task_step E (Config.truncate cfg) e p) s = (q, t)"
  shows "barred E cfg D s0 (t\<lparr>running := xs @ next_tasks e q @ ys, relayed := r\<rparr>)"
proof -
  let ?cfg = "Config.truncate cfg"
  from inv have p: "phase_ok E ?cfg e p" "he_dest_chain_id e \<in> D \<longrightarrow> \<not> cleared p" and dec: "D \<subseteq> decommissioned_chains s"
    by (auto simp: barred_def at)
  from emits_adds [OF task_step_emits [OF p(1)] run] obtain more where more: "calls t = calls s @ more"
    "length (filter is_send more) \<le> sends_now p" "\<forall>c\<in>set more. is_send c \<longrightarrow> release_to E ?cfg e c" by (auto simp: adds_def)
  have out: "he_dest_chain_id e \<notin> D" if "c \<in> set more" "is_send c" for c
  proof -
    from that have "filter is_send more \<noteq> []" by (auto simp: filter_empty_conv)
    with more(2) have "cleared p" by (cases p) auto
    with p(2) show ?thesis by simp
  qed
  have next_ok: "phase_ok E ?cfg e' p' \<and> (he_dest_chain_id e' \<in> D \<longrightarrow> \<not> cleared p')"
    if "(e', p') \<in> set (next_tasks e q)" for e' p'
  proof -
    from that have q: "q = Some p'" "e' = e" by (auto simp: next_tasks_def split: option.split_asm)
    have "\<not> cleared p'" if "he_dest_chain_id e \<in> D"
    proof (rule task_step_not_cleared [OF run [unfolded q(1)]])
      show "\<not> is_chain_active s (he_dest_chain_id e)" using that dec by (auto simp: is_chain_active_def)
    qed (use that p(2) in simp)
    then show ?thesis using task_step_phase_ok [OF p(1)] run q by simp
  qed
  obtain new where new: "calls s = calls s0 @ new" "\<forall>c\<in>set new. is_send c \<longrightarrow>
      (\<exists>e. he_dest_chain_id e \<notin> D \<and> release_to E ?cfg e c)" using inv by (auto simp: barred_def)
  have "\<forall>c\<in>set (new @ more). is_send c \<longrightarrow> (\<exists>e. he_dest_chain_id e \<notin> D \<and> release_to E ?cfg e c)"
    using new(2) more(3) out by (metis Un_iff set_append)
  moreover have "\<forall>(e', p')\<in>set (xs @ next_tasks e q @ ys). phase_ok E ?cfg e' p' \<and> (he_dest_chain_id e' \<in> D \<longrightarrow> \<not> cleared p')"
  proof -
    have "\<forall>(e', p')\<in>set xs \<union> set ys. phase_ok E ?cfg e' p' \<and> (he_dest_chain_id e' \<in> D \<longrightarrow> \<not> cleared p')"
      using inv unfolding barred_def at by simp
    with next_ok show ?thesis unfolding set_append by blast
  qed
  moreover have "decommissioned_chains t = decommissioned_chains s"
    using task_step_keeps_decommissioned run by (rule keepsD)
  ultimately show ?thesis
    unfolding barred_def using dec new(1) more(1) by (intro conjI exI [of _ "new @ more"]) simp_all
qed

lemma process_step_barred:
  assumes "process_step E cfg s t" "barred E cfg D s0 s"
  shows "barred E cfg D s0 t"
  using assms
proof (induction rule: process_step.induct)
  case (route s r t)
  from barred_quiet [OF route(2) emits_adds [OF route_round_emits route(1)] keepsD [OF rounds_keep_more(1) route(1)]
      step_relD [OF route_round_grows route(1)]]
  show ?case .
next
  case (poll entry s r t)
  from barred_quiet [OF poll(3) emits_adds [OF poll_events_chain_emits poll(2)] keepsD [OF rounds_keep_more(2) poll(2)]
      equalityD1 [OF keepsD [OF poll_events_chain_keeps(2) poll(2), symmetric]]]
  show ?case .
next
  case (start s xs e ys)
  then show ?case by (auto simp: barred_def)
next
  case (advance s xs e p ys q t)
  from barred_advance [OF advance(3,1,2)] show ?case .
next
  case (query h s r t)
  then have "t = tick_on E 0 s" by (auto simp: get_relay_status_def relay_repo_status_def run_db)
  then show ?case using query(2) by (simp add: barred_def tick_on_def)
qed

text \<open>
  C8. Once the process has seen chains finalised as decommissioned, they stay so while it runs, and
  every transaction it sends from then on is a release to another chain, whatever activation events
  arrive and however its tasks interleave; excepted are tasks that had already found the chain active
  (their decision is not revised), of which there is none here for those chains. A restart forgets the
  finalised chains, so the statement is about one process.
\<close>

theorem no_release_after_finalised:
  assumes "(async_step H E cfg)\<^sup>*\<^sup>* s0 s" "running s0 = []" "(process_step E cfg)\<^sup>*\<^sup>* s t"
    "D \<subseteq> decommissioned_chains s" "\<forall>(e, p)\<in>set (running s). he_dest_chain_id e \<in> D \<longrightarrow> \<not> cleared p"
  shows "D \<subseteq> decommissioned_chains t \<and> (\<forall>c\<in>D. \<not> is_chain_active t c) \<and>
    (\<exists>new. calls t = calls s @ new \<and> (\<forall>c\<in>set new. is_send c \<longrightarrow>
      (\<exists>e. he_dest_chain_id e \<notin> D \<and> release_to E (Config.truncate cfg) e c)))"
proof -
  have "async_inv E cfg s0 s0" using assms(2) by (simp add: async_inv_def)
  from async_reachable_inv [OF assms(1) this] assms(4,5) have "barred E cfg D s s"
    by (auto simp: barred_def async_inv_def)
  with assms(3) have "barred E cfg D s t" by induction (use process_step_barred in blast)+
  then show ?thesis by (auto simp: barred_def is_chain_active_def)
qed

end
