(* ===== verification/RelayOnce.thy ===== *)
theory RelayOnce
  imports RelayTasks
begin

text \<open>
  Interleaved relay tasks and the sharing between them: the relay log, whose guard and insert are two
  accesses, and the nonce cache, whose read and advance are two accesses.
\<close>

section \<open>Once per event\<close>

text \<open>
  A step between states in which no two tasks in progress carry the same source event hash. (Any
  number of them may wait in \<open>spawned\<close>: the guard of a later task sees the row of the earlier one.)
\<close>

definition hashes_apart :: "hot_tasks \<Rightarrow> bool" where
  "hashes_apart s \<longleftrightarrow> distinct (map (he_source_event_hash \<circ> fst) (running s))"

definition apart_step :: "host \<Rightarrow> env \<Rightarrow> boot_config \<Rightarrow> hot_tasks \<Rightarrow> hot_tasks \<Rightarrow> bool" where
  "apart_step H E cfg s t \<longleftrightarrow> async_step H E cfg s t \<and> hashes_apart s"

fun undecided :: "phase \<Rightarrow> bool" where
  "undecided Reading = True"
| "undecided (Deciding u b c d) = True"
| "undecided _ = False"

text \<open>The row of an event that was approved: its data, and a status only an approved event gets.\<close>

definition submission_recorded :: "HotPathEvent \<Rightarrow> relay_log \<Rightarrow> bool" where
  "submission_recorded e r \<longleftrightarrow> same_event (relay_row e None RelayPending 0) r \<and>
     rl_status r \<in> {''pending'', ''completed'', ''failed''}"

definition submitted_kept :: "'m hot_path_scheme \<Rightarrow> 'm hot_path_scheme \<Rightarrow> bool" where
  "submitted_kept s t \<longleftrightarrow> (\<forall>h r e. find_relay s h = Some r \<longrightarrow> submission_recorded e r \<longrightarrow>
     (\<exists>r'. find_relay t h = Some r' \<and> submission_recorded e r'))"

interpretation submitted_rows: step_preorder "submitted_kept :: 'm hot_path_scheme \<Rightarrow> _"
  by unfold_locales (auto simp: submitted_kept_def, metis)

text \<open>Relative to the first state \<open>s0\<close>, which has the rows of earlier runs.\<close>

definition once_inv :: "hot_tasks \<Rightarrow> hot_tasks \<Rightarrow> bool" where
  "once_inv s0 s \<longleftrightarrow> relays_kept s0 s \<and> distinct (map he_source_event_hash (relayed s)) \<and>
     (\<forall>e\<in>set (relayed s). find_relay s0 (he_source_event_hash e) = None \<and>
        (\<exists>r. find_relay s (he_source_event_hash e) = Some r \<and> submission_recorded e r)) \<and>
     (\<forall>(e, p)\<in>set (running s). undecided p \<longrightarrow> find_relay s (he_source_event_hash e) = None)"

lemma task_step_kept: "step_rel relays_kept (task_step E cfg e p)"
proof (cases p)
  case Guard
  then show ?thesis by (auto intro!: relay_rows.rules relay_repo_kept)
next
  case (Deciding u b c d)
  then show ?thesis by (auto intro!: relay_rows.rules relay_repo_kept split: RelayDecision.split)
next
  case (Recording r)
  then show ?thesis by (auto intro!: relay_rows.rules relay_repo_kept)
qed (auto intro!: relays_kept_signer keeps keeps_signer_more get_nonce_keeps(2) cache_keeps(1,3))

lemma submitted_keptI: "relay_logs s = relay_logs t \<Longrightarrow> submitted_kept s t"
  by (simp add: submitted_kept_def find_relay_def)

lemma relay_repo_submitted:
  "step_rel submitted_kept (insert_relay_log E e x st)" "step_rel submitted_kept (update_relay_log E h tx RelayCompleted)"
  "step_rel submitted_kept (update_relay_log_failed E h)" "step_rel submitted_kept (relay_already_recorded E h)"
  by (auto simp: step_rel_def insert_relay_log_def update_relay_log_def update_relay_log_failed_def run_db
      run_relay_already_recorded submitted_kept_def find_relay_def find_row_insert_row find_row_update_rows
      submission_recorded_def same_event_def relay_row_def)

lemma task_step_submitted: "step_rel submitted_kept (task_step E cfg e p)"
proof (cases p)
  case Guard
  then show ?thesis by (auto intro!: submitted_rows.rules relay_repo_submitted)
next
  case (Deciding u b c d)
  then show ?thesis by (auto intro!: submitted_rows.rules relay_repo_submitted split: RelayDecision.split)
next
  case (Recording r)
  then show ?thesis by (auto intro!: submitted_rows.rules relay_repo_submitted)
qed (auto intro!: submitted_rows.from_keeps [OF submitted_keptI keeps_beyond_signer [OF beyond_signer_hot_path(1)]]
    keeps keeps_signer_more get_nonce_keeps(2) cache_keeps(1,3))

lemma task_step_others:
  assumes "run_state (task_step E cfg e p) s = (q, t)" "h \<noteq> he_source_event_hash e"
  shows "find_relay t h = find_relay s h"
proof -
  let ?f = "\<lambda>s. find_relay s h"
  have b: "beyond_signer ?f"
    using beyond_signer_hot_path(1) unfolding beyond_signer_def find_relay_def by metis
  have "keeps ?f (insert_relay_log E e x st)" "keeps ?f (update_relay_log E (he_source_event_hash e) x' st)"
    "keeps ?f (update_relay_log_failed E (he_source_event_hash e))" for x x' st
    using assms(2) by (auto simp: keeps_def insert_relay_log_def update_relay_log_def update_relay_log_failed_def run_db
        find_relay_def find_row_insert_row find_row_update_rows relay_row_def split: option.split)
  note repo = this and k = keeps_beyond_signer [OF b]
  have "keeps ?f (task_step E cfg e p)"
    by (cases p) (auto intro!: keeps repo relay_repo_keeps(2) [THEN k] keeps_signer_more [THEN k]
        get_nonce_keeps(2) [THEN k] cache_keeps(1,3) [THEN k] split: RelayDecision.split)
  from keepsD [OF this assms(1)] show ?thesis .
qed

lemma task_step_once:
  assumes "run_state (task_step E cfg e p) s = (q, t)" "\<forall>n. db_up E n"
    "undecided p \<Longrightarrow> find_relay s (he_source_event_hash e) = None"
  shows "q = Some r \<Longrightarrow> undecided r \<Longrightarrow> find_relay t (he_source_event_hash e) = None"
    and "newly_relayed e q \<noteq> [] \<Longrightarrow> newly_relayed e q = [e] \<and> find_relay s (he_source_event_hash e) = None \<and>
      (\<exists>r. find_relay t (he_source_event_hash e) = Some r \<and> submission_recorded e r)"
proof -
  assume "q = Some r" "undecided r"
  then show "find_relay t (he_source_event_hash e) = None"
  proof (cases p)
    case Guard
    with assms(1,2) \<open>q = Some r\<close> show ?thesis by (auto simp: run_relay_already_recorded split: if_splits)
  next
    case Reading
    have "keeps relay_logs (task_step E cfg e p)"
      unfolding Reading by (auto intro!: keeps keeps_signer_more [THEN keeps_beyond_signer [OF beyond_signer_hot_path(1)]])
    from keepsD [OF this assms(1)] assms(3) Reading show ?thesis by (simp add: find_relay_def)
  qed (use assms(1) \<open>q = Some r\<close> \<open>undecided r\<close> in \<open>auto split: if_splits option.split_asm
      sum.split_asm prod.split_asm RelayDecision.split_asm\<close>)
next
  assume new: "newly_relayed e q \<noteq> []"
  then show "newly_relayed e q = [e] \<and> find_relay s (he_source_event_hash e) = None \<and>
      (\<exists>r. find_relay t (he_source_event_hash e) = Some r \<and> submission_recorded e r)"
  proof (cases p)
    case (Deciding u b c d)
    with assms new show ?thesis
      by (auto simp: newly_relayed_def insert_relay_log_def run_db find_relay_def find_row_insert_row relay_row_def
          submission_recorded_def same_event_def split: RelayDecision.split_asm option.split)
  qed (use assms(1) new in \<open>auto simp: newly_relayed_def split: if_splits option.split_asm
      sum.split_asm prod.split_asm\<close>)
qed

lemma once_inv_kept:
  assumes "once_inv s0 s" "hot_path.more t = hot_path.more s" "relay_logs t = relay_logs s"
  shows "once_inv s0 t"
proof -
  have "running t = running s" "relayed t = relayed s" using assms(2) by (cases s, cases t, simp)+
  then show ?thesis using assms(1,3) by (simp add: once_inv_def find_relay_def relays_kept_def)
qed

lemma once_inv_advance:
  assumes inv: "once_inv s0 s" "hashes_apart s" and up: "\<forall>n. db_up E n" and at: "running s = xs @ (e, p) # ys"
    and run: "run_state (task_step E cfg e p) s = (q, t)"
  shows "once_inv s0 (t\<lparr>running := xs @ next_tasks e q @ ys, relayed := relayed s @ newly_relayed e q\<rparr>)"
proof -
  let ?h = he_source_event_hash
  have p: "undecided p \<Longrightarrow> find_relay s (?h e) = None" using inv(1) at by (auto simp: once_inv_def)
  note once = task_step_once [OF run up p]
  have old: "find_relay t (?h e') = None" if "(e', p') \<in> set xs \<union> set ys" "undecided p'" for e' p'
  proof -
    from inv(2) have "?h e \<notin> (?h \<circ> fst) ` (set xs \<union> set ys)" by (auto simp: hashes_apart_def at)
    with that(1) have "?h e' \<noteq> ?h e" by (metis comp_apply fst_conv image_eqI)
    moreover have "find_relay s (?h e') = None" using that inv(1) at by (auto simp: once_inv_def)
    ultimately show ?thesis using task_step_others [OF run] by simp
  qed
  have s0: "relays_kept s0 s" using inv(1) by (simp add: once_inv_def)
  have kept: "find_relay s0 (?h e') = None \<and> (\<exists>r. find_relay t (?h e') = Some r \<and> submission_recorded e' r)"
    if "e' \<in> set (relayed s)" for e'
    using that inv(1) step_relD [OF task_step_submitted run] unfolding once_inv_def submitted_kept_def by blast
  have "find_relay s0 (?h e) = None" if "find_relay s (?h e) = None"
    using s0 that unfolding relays_kept_def by (metis option.exhaust option.simps(3))
  moreover have "find_relay s (?h e') \<noteq> None" if "e' \<in> set (relayed s)" for e'
    using that inv(1) by (auto simp: once_inv_def)
  ultimately have "newly_relayed e q = [] \<or> newly_relayed e q = [e] \<and> (\<forall>e'\<in>set (relayed s). ?h e' \<noteq> ?h e) \<and>
      find_relay s0 (?h e) = None \<and> (\<exists>r. find_relay t (?h e) = Some r \<and> submission_recorded e r)"
    using once(2) by metis
  then have "distinct (map ?h (relayed s @ newly_relayed e q))"
    "\<forall>e'\<in>set (relayed s @ newly_relayed e q). find_relay s0 (?h e') = None \<and>
      (\<exists>r. find_relay t (?h e') = Some r \<and> submission_recorded e' r)"
    using inv(1) kept by (auto simp: once_inv_def)
  moreover have "\<forall>(e', p')\<in>set (xs @ next_tasks e q @ ys). undecided p' \<longrightarrow> find_relay t (?h e') = None"
    using old once(1) by (auto simp: next_tasks_def split: option.split)
  moreover have "relays_kept s0 t" using s0 step_relD [OF task_step_kept run] by (rule relay_rows.trans)
  ultimately show ?thesis by (simp add: once_inv_def find_relay_def relays_kept_def)
qed

lemma process_step_once:
  assumes "process_step E cfg s t" "once_inv s0 s" "hashes_apart s" "\<forall>n. db_up E n"
  shows "once_inv s0 t"
  using assms
proof (induction rule: process_step.induct)
  case (route s r t)
  from once_inv_kept [OF route(2) keepsD [OF rounds_keep_more(1) route(1)] keepsD [OF relay_logs_route route(1)]]
  show ?case .
next
  case (poll entry s r t)
  from once_inv_kept [OF poll(3) keepsD [OF rounds_keep_more(2) poll(2)] keepsD [OF poll_events_chain_keeps(1) poll(2)]]
  show ?case .
next
  case (start s xs e ys)
  then show ?case by (auto simp: once_inv_def find_relay_def relays_kept_def)
next
  case (advance s xs e p ys q t)
  from once_inv_advance [OF advance(3-5,1,2)] show ?case .
next
  case (query h s r t)
  then have "t = tick_on E 0 s" by (auto simp: get_relay_status_def relay_repo_status_def run_db)
  then show ?case using query(2) by (simp add: once_inv_def tick_on_def find_relay_def relays_kept_def)
qed

lemma apart_step_once:
  assumes "apart_step H E cfg s t" "once_inv s0 s" "\<forall>n. db_up E n"
  shows "once_inv s0 t"
proof -
  from assms(1) have "async_step H E cfg s t" "hashes_apart s" by (simp_all add: apart_step_def)
  from this(1) show ?thesis
  proof cases
    case process
    from process_step_once [OF this assms(2) \<open>hashes_apart s\<close> assms(3)] show ?thesis .
  next
    case restart
    then show ?thesis using assms(2)
      by (auto simp: once_inv_def find_relay_def relays_kept_def hot_path_new_def hot_path.defs split_beta)
  qed
qed

lemma apart_reachable_once:
  assumes "(apart_step H E cfg)\<^sup>*\<^sup>* s t" "running s = []" "relayed s = []" "\<forall>n. db_up E n"
  shows "once_inv s t"
proof -
  have "once_inv s s" using assms(2,3) by (simp add: once_inv_def relay_rows.refl)
  with assms(1) show ?thesis by induction (use apart_step_once assms(4) in blast)+
qed

lemma apart_reachable: "(apart_step H E cfg)\<^sup>*\<^sup>* s t \<Longrightarrow> (async_step H E cfg)\<^sup>*\<^sup>* s t"
  by (induction rule: rtranclp_induct) (auto simp: apart_step_def intro: rtranclp.rtrancl_into_rtrancl)


text \<open>
  C6. What the relayer sends is in its log: while the database answers and no two tasks in progress
  carry the same source event hash, then in every order of the phases of all tasks, the pollers,
  queries and restarts, the transactions sent since are releases of events with pairwise distinct
  hashes, at most three per event, signed for the configured node and Bank of the destination; each of
  these events had no row before and has one now, with its own data and the status pending, completed
  or failed.
\<close>

theorem interleaved_releases_recorded:
  assumes "(apart_step H E cfg)\<^sup>*\<^sup>* s t" "running s = []" "relayed s = []" "\<forall>n. db_up E n"
  shows "\<exists>es. distinct (map he_source_event_hash es) \<and>
    (\<forall>e\<in>set es. find_relay s (he_source_event_hash e) = None \<and>
      (\<exists>r. find_relay t (he_source_event_hash e) = Some r \<and> submission_recorded e r)) \<and>
    adds s (3 * length es) (\<lambda>c. \<exists>e\<in>set es. release_to E (Config.truncate cfg) e c) t"
  using apart_reachable_once [OF assms] async_releases_bounded [OF apart_reachable [OF assms(1)] assms(2,3)]
  unfolding once_inv_def by blast

section \<open>A recorded event\<close>

lemma process_step_kept: "process_step E cfg s t \<Longrightarrow> relays_kept s t"
proof (induction rule: process_step.induct)
  case (route s r t)
  then show ?case using keepsD [OF relay_logs_route route] by (simp add: relays_keptI)
next
  case (poll entry s r t)
  then show ?case using keepsD [OF poll_events_chain_keeps(1) poll(2)] by (simp add: relays_keptI)
next
  case (start s xs e ys)
  then show ?case by (simp add: relays_keptI)
next
  case (advance s xs e p ys q t)
  from step_relD [OF task_step_kept advance(2)] show ?case by (simp add: relays_kept_def find_relay_def)
next
  case (query h s r t)
  then show ?case by (auto simp: get_relay_status_def relay_repo_status_def run_db intro!: relays_keptI)
qed

lemma async_step_kept: "async_step H E cfg s t \<Longrightarrow> relays_kept s t"
  by (induction rule: async_step.induct)
    (auto simp: process_step_kept hot_path_new_def hot_path.defs split_beta intro!: relays_keptI)

lemma recorded_for_ever:
  assumes "(async_step H E cfg)\<^sup>*\<^sup>* s t" "find_relay s h \<noteq> None"
  shows "find_relay t h \<noteq> None"
proof -
  have "relays_kept s t" using assms(1) async_step_kept by (rule relay_rows.reachable)
  then show ?thesis using assms(2) unfolding relays_kept_def by force
qed

text \<open>A guard that finds the row ends the task.\<close>

lemma guard_ends:
  assumes "find_relay t (he_source_event_hash e) \<noteq> None" "db_up E (tick t)"
  shows "run_state (task_step E cfg e Guard) t = (None, tick_on E 0 t)"
  using assms by (simp add: run_relay_already_recorded)

text \<open>
  C2. At most once, across interleavings and restarts: when an event's row exists, then in every later
  state, after any interleaving of the phases of all relay tasks, of polling rounds, route receiver
  rounds, status queries and restarts of the process, also through outages of the database, the row
  still exists; and a task for an event with that source event hash that comes to its idempotency
  check ends there, after that one query, with no request to any chain and no change of any row,
  provided the database answers this query. (When it does not, the check counts the event as new.)
\<close>

theorem recorded_event_ends_task:
  assumes "(async_step H E cfg)\<^sup>*\<^sup>* s t" "find_relay s (he_source_event_hash e) \<noteq> None" "db_up E (tick t)"
  shows "find_relay t (he_source_event_hash e) \<noteq> None \<and>
    run_state (task_step E (Config.truncate cfg) e Guard) t = (None, tick_on E 0 t) \<and> calls (tick_on E 0 t) = calls t"
proof -
  have "find_relay t (he_source_event_hash e) \<noteq> None" using recorded_for_ever [OF assms(1,2)] .
  then show ?thesis using guard_ends [OF _ assms(3)] by (simp add: tick_on_def)
qed

section \<open>Two tasks at once\<close>

text \<open>A phase that reads only: the shared state stays, the task moves on.\<close>

lemma quiet_advance:
  assumes "running s = xs @ (e, p) # ys" "run_state (task_step E (Config.truncate cfg) e p) s = (Some q, t)"
    "sys.more t = sys.more s" "newly_relayed e (Some q) = []"
  shows "\<exists>t'. async_step H E cfg s t' \<and> sys.more t' = sys.more (s\<lparr>running := xs @ (e, q) # ys\<rparr>)"
proof -
  have "async_step H E cfg s (t\<lparr>running := xs @ (e, q) # ys, relayed := relayed s\<rparr>)"
    using async_advance [OF assms(1,2), of H] assms(4) by (simp add: next_tasks_def)
  moreover have "sys.more (t\<lparr>running := xs @ (e, q) # ys, relayed := relayed s\<rparr>) = sys.more (s\<lparr>running := xs @ (e, q) # ys\<rparr>)"
    using assms(3) by (cases s, cases t) simp
  ultimately show ?thesis by blast
qed

lemma sys_more_eqD:
  fixes s t :: hot_tasks
  assumes "sys.more s = sys.more t"
  shows "relay_logs s = relay_logs t" "running s = running t" "relayed s = relayed t" "nonce_cache s = nonce_cache t"
    "is_chain_active s = is_chain_active t" "find_relay s = find_relay t" "relayer_address s = relayer_address t"
  using assms by (cases s, cases t, simp add: is_chain_active_def find_relay_def fun_eq_iff)+

text \<open>What lets an event through: an active, configured destination that always reports enough depth.\<close>

definition payable :: "env \<Rightarrow> Config \<Rightarrow> hot_tasks \<Rightarrow> HotPathEvent \<Rightarrow> bool" where
  "payable E cfg s e \<longleftrightarrow> is_chain_active s (he_dest_chain_id e) \<and>
     (\<exists>u b. dest_ok cfg e u b \<and> (\<forall>t :: hot_tasks. \<exists>d\<ge>he_amount e. depth_reported E t u b = Some d))"

lemma admitted:
  assumes at: "running s = xs @ (e, Guard) # ys" and new: "find_relay s (he_source_event_hash e) = None"
    and pay: "payable E (Config.truncate cfg) s e"
  shows "\<exists>s1 t u b d. async_step H E cfg s s1 \<and> async_step H E cfg s1 t \<and> he_amount e \<le> d \<and>
    running s1 = xs @ (e, Reading) # ys \<and>
    sys.more t = sys.more (s\<lparr>running := xs @ (e, Deciding u b True d) # ys\<rparr>)"
proof -
  let ?cfg = "Config.truncate cfg"
  obtain u b where ub: "dest_ok ?cfg e u b" "\<And>t :: hot_tasks. \<exists>d\<ge>he_amount e. depth_reported E t u b = Some d"
    using pay by (auto simp: payable_def)
  have "run_state (task_step E ?cfg e Guard) s = (Some Reading, tick_on E 0 s)"
    by (simp add: run_relay_already_recorded new)
  from quiet_advance [OF at this, of H] obtain s1 where s1: "async_step H E cfg s s1"
    "sys.more s1 = sys.more (s\<lparr>running := xs @ (e, Reading) # ys\<rparr>)"
    by (auto simp: newly_relayed_def tick_on_def)
  obtain d where d: "depth_reported E s1 u b = Some d" "he_amount e \<le> d" using ub(2) by blast
  note f = sys_more_eqD [OF s1(2)]
  have at1: "running s1 = xs @ (e, Reading) # ys" using f(2) by simp
  have "is_chain_active s1 (he_dest_chain_id e)" using pay f(5) by (simp add: payable_def is_chain_active_def)
  then have "run_state (task_step E ?cfg e Reading) s1 =
      (Some (Deciding u b True d), snd (run_state (fetch_pool_depth E u b (selector E ''poolDepth()'')) s1))"
    using ub(1) d(1) by (simp add: dest_ok_def split_beta run_fetch_pool_depth)
  from quiet_advance [OF at1 this fetch_pool_depth_frame(2), of H] obtain t where
    "async_step H E cfg s1 t" "sys.more t = sys.more (s1\<lparr>running := xs @ (e, Deciding u b True d) # ys\<rparr>)"
    by (auto simp: newly_relayed_def)
  moreover have "sys.more (s1\<lparr>running := r\<rparr>) = sys.more (s\<lparr>running := r\<rparr>)" for r using s1(2) by (cases s, cases s1) simp
  ultimately show ?thesis using s1(1) d(2) at1 by metis
qed

lemma paid:
  assumes "running s = xs @ (e, Deciding u b True d) # ys" "he_amount e \<le> d"
  shows "\<exists>t. async_step H E cfg s t \<and> running t = xs @ (e, Starting u b) # ys \<and> relayed t = relayed s @ [e]"
proof -
  have "evaluate_relay_eligibility True d (he_amount e) = Approved"
    using assms(2) by (simp add: evaluate_relay_eligibility_def)
  then have "run_state (task_step E (Config.truncate cfg) e (Deciding u b True d)) s =
      (Some (Starting u b), snd (run_state (insert_relay_log E e None RelayPending) s))" by (simp add: split_beta)
  from async_advance [OF assms(1) this, of H] show ?thesis
    by (intro exI conjI) (assumption, simp_all add: next_tasks_def newly_relayed_def)
qed

text \<open>
  C37. The guard does not exclude overlapping tasks: two tasks with the same source event hash (two
  transfers of one transaction, or one event polled twice) that both start before either has recorded
  its row are both relayed, although the table keeps one row for them.
\<close>

theorem overlapping_tasks_both_relay:
  assumes "running s = xs @ (e1, Guard) # ys @ (e2, Guard) # zs"
    "he_source_event_hash e1 = he_source_event_hash e2" "find_relay s (he_source_event_hash e1) = None"
    "payable E (Config.truncate cfg) s e1" "payable E (Config.truncate cfg) s e2"
  shows "\<exists>t. (async_step H E cfg)\<^sup>*\<^sup>* s t \<and> relayed t = relayed s @ [e1, e2]"
proof -
  obtain s1 u1 b1 d1 where s1: "(async_step H E cfg)\<^sup>*\<^sup>* s s1" "he_amount e1 \<le> d1"
    "sys.more s1 = sys.more (s\<lparr>running := xs @ (e1, Deciding u1 b1 True d1) # ys @ (e2, Guard) # zs\<rparr>)"
    using admitted [OF assms(1,3,4), of H] by (blast intro: converse_rtranclp_into_rtranclp)
  note f1 = sys_more_eqD [OF s1(3)]
  have "running s1 = (xs @ (e1, Deciding u1 b1 True d1) # ys) @ (e2, Guard) # zs" using f1(2) by simp
  moreover have "find_relay s1 (he_source_event_hash e2) = None" "payable E (Config.truncate cfg) s1 e2"
    using f1(5,6) assms(2,3,5) by (simp_all add: payable_def is_chain_active_def find_relay_def)
  ultimately obtain s2 u2 b2 d2 where s2: "(async_step H E cfg)\<^sup>*\<^sup>* s1 s2" "he_amount e2 \<le> d2"
    "sys.more s2 = sys.more (s1\<lparr>running := (xs @ (e1, Deciding u1 b1 True d1) # ys) @ (e2, Deciding u2 b2 True d2) # zs\<rparr>)"
    using admitted [of s1 _ e2 zs E cfg H] by (blast intro: converse_rtranclp_into_rtranclp)
  note f2 = sys_more_eqD [OF s2(3)]
  have "running s2 = xs @ (e1, Deciding u1 b1 True d1) # ys @ (e2, Deciding u2 b2 True d2) # zs" using f2(2) by simp
  from paid [OF this s1(2), of H E cfg] obtain s3 where s3: "async_step H E cfg s2 s3"
    "running s3 = (xs @ (e1, Starting u1 b1) # ys) @ (e2, Deciding u2 b2 True d2) # zs" "relayed s3 = relayed s2 @ [e1]"
    by auto
  from paid [OF s3(2) s2(2), of H E cfg] obtain t where "async_step H E cfg s3 t" "relayed t = relayed s3 @ [e2]" by blast
  then show ?thesis using s1(1) s2(1) s3(1,3) f1(3) f2(3)
    by (intro exI [of _ t]) (auto intro: rtranclp_trans rtranclp.rtrancl_into_rtrancl)
qed

text \<open>The transaction of an attempt, signed with a nonce.\<close>

definition signed_with :: "env \<Rightarrow> HotPathEvent \<Rightarrow> attempt \<Rightarrow> u64 \<Rightarrow> string \<Rightarrow> bool" where
  "signed_with E e a nonce raw \<longleftrightarrow> (\<exists>to prio fee. address_bytes (at_bank a) = Inr to \<and>
     sign_eip1559_tx E (he_dest_chain_id e) nonce prio fee 120000 to [] (release_call E e) (at_key a) = Inr raw)"

lemma nonce_read:
  assumes "running s = xs @ (e, Nonce a) # ys" "nonce_cache s (he_dest_chain_id e) = Some n" "relayer_address s = Some addr"
  shows "\<exists>t. async_step H E cfg s t \<and> sys.more t = sys.more (s\<lparr>running := xs @ (e, Gas a n) # ys\<rparr>)"
proof -
  have "run_state (task_step E (Config.truncate cfg) e (Nonce a)) s = (Some (Gas a n), s)"
    using assms(2,3) by (simp add: get_nonce_def)
  from quiet_advance [OF assms(1) this] show ?thesis by (simp add: newly_relayed_def)
qed

lemma signed:
  assumes "running s = xs @ (e, Gas a n) # ys" "can_submit E (at_rpc a) (at_bank a) (at_key a) addr"
  shows "\<exists>t raw. async_step H E cfg s t \<and> signed_with E e a n raw \<and> running t = xs @ (e, Sending a raw) # ys"
proof -
  obtain f p s1 where g: "run_state (fetch_gas_params E (at_rpc a)) s = (Inr (f, p), s1)"
    using assms(2) unfolding can_submit_def fetch_gas_params_def
    by (simp add: run_post Let_def) (metis map_sum.simps(2))
  obtain to where to: "address_bytes (at_bank a) = Inr to" using assms(2) by (auto simp: can_submit_def)
  obtain raw where raw: "sign_eip1559_tx E (he_dest_chain_id e) n p f 120000 to [] (release_call E e) (at_key a) = Inr raw"
    using assms(2) sign_total unfolding can_submit_def by blast
  obtain t where "run_state (task_step E (Config.truncate cfg) e (Gas a n)) s = (Some (Sending a raw), t)"
    by (simp add: g to raw split_beta)
  from async_advance [OF assms(1) this, of H] to raw show ?thesis
    unfolding signed_with_def
    by (intro exI conjI) (assumption, assumption+, simp add: next_tasks_def)
qed

text \<open>
  C36. Advancing the cached nonce before sending does not keep concurrent tasks from reusing it: the
  read and the advance are two accesses with a request between them, so two tasks for one chain that
  read the cache before either has its gas price sign their releases with the same nonce. (The chain
  includes at most one transaction per account and nonce.)
\<close>

theorem concurrent_tasks_share_nonce:
  assumes "running s = xs @ (e1, Nonce a1) # ys @ (e2, Nonce a2) # zs"
    "he_dest_chain_id e1 = c" "he_dest_chain_id e2 = c" "nonce_cache s c = Some n" "relayer_address s = Some addr"
    "can_submit E (at_rpc a1) (at_bank a1) (at_key a1) addr" "can_submit E (at_rpc a2) (at_bank a2) (at_key a2) addr"
  shows "\<exists>t raw1 raw2. (async_step H E cfg)\<^sup>*\<^sup>* s t \<and>
    running t = xs @ (e1, Sending a1 raw1) # ys @ (e2, Sending a2 raw2) # zs \<and>
    signed_with E e1 a1 n raw1 \<and> signed_with E e2 a2 n raw2"
proof -
  obtain s1 where s1: "async_step H E cfg s s1"
    "sys.more s1 = sys.more (s\<lparr>running := xs @ (e1, Gas a1 n) # ys @ (e2, Nonce a2) # zs\<rparr>)"
    using nonce_read [OF assms(1), of n addr H E cfg] assms(2,4,5) by auto
  note f1 = sys_more_eqD [OF s1(2)]
  have "running s1 = (xs @ (e1, Gas a1 n) # ys) @ (e2, Nonce a2) # zs" using f1(2) by simp
  from nonce_read [OF this, of n addr H E cfg] obtain s2 where s2: "async_step H E cfg s1 s2"
    "sys.more s2 = sys.more (s1\<lparr>running := (xs @ (e1, Gas a1 n) # ys) @ (e2, Gas a2 n) # zs\<rparr>)"
    using f1(4,7) assms(3-5) by auto
  have "running s2 = xs @ (e1, Gas a1 n) # ys @ (e2, Gas a2 n) # zs" using sys_more_eqD(2) [OF s2(2)] by simp
  from signed [OF this assms(6), of H cfg] obtain s3 raw1 where s3: "async_step H E cfg s2 s3"
    "signed_with E e1 a1 n raw1" "running s3 = (xs @ (e1, Sending a1 raw1) # ys) @ (e2, Gas a2 n) # zs" by auto
  from signed [OF s3(3) assms(7), of H cfg] obtain t raw2 where "async_step H E cfg s3 t"
    "signed_with E e2 a2 n raw2" "running t = (xs @ (e1, Sending a1 raw1) # ys) @ (e2, Sending a2 raw2) # zs" by blast
  then show ?thesis using s1(1) s2(1) s3(1,2)
    by (intro exI [of _ t] exI [of _ raw1] exI [of _ raw2]) (auto intro: converse_rtranclp_into_rtranclp)
qed

section \<open>Concrete runs\<close>

definition sample_tasks :: "HotPathEvent list \<Rightarrow> (HotPathEvent \<times> phase) list \<Rightarrow> hot_tasks" where
  "sample_tasks es tasks =
     hot_path.extend ((hot_start {} [])\<lparr>spawned := es, nonce_cache := [2 \<mapsto> 4]\<rparr>) \<lparr>running = tasks, relayed = []\<rparr>"

lemma sample_tasks_sel [simp]:
  "running (sample_tasks es tasks) = tasks" "relayed (sample_tasks es tasks) = []" "spawned (sample_tasks es tasks) = es"
  "nonce_cache (sample_tasks es tasks) = [2 \<mapsto> 4]" "relayer_address (sample_tasks es tasks) = Some (replicate 20 5)"
  "find_relay (sample_tasks es tasks) h = None" "is_chain_active (sample_tasks es tasks) 2"
  by (simp_all add: sample_tasks_def hot_path.defs hot_start_def find_relay_def find_row_def is_chain_active_def)

lemma sample_payable: "payable (sample_env sample_answer) (Config.truncate sample_boot) (sample_tasks es tasks) sample_event"
  unfolding payable_def
  by (auto simp: boot_truncate sample_config_def sample_event_def dest_ok_def sample_depth
      intro!: exI [of _ "1000 :: u256"])

lemma sample_run:
  "\<exists>t. (apart_step sample_host (sample_env sample_answer) sample_boot)\<^sup>*\<^sup>* (sample_tasks [sample_event] []) t \<and>
     relayed t = [sample_event]"
proof -
  let ?R = "async_step sample_host (sample_env sample_answer) sample_boot"
    and ?A = "apart_step sample_host (sample_env sample_answer) sample_boot" and ?s1 = "sample_tasks [] [(sample_event, Guard)]"
  have s: "?R (sample_tasks [sample_event] []) ?s1"
    using async_start [of "sample_tasks [sample_event] []" "[]" sample_event "[]"]
    by (simp add: sample_tasks_def hot_path.defs hot_start_def)
  have "running ?s1 = [] @ (sample_event, Guard) # []" by simp
  from admitted [OF this _ sample_payable] obtain s2 s3 u b d where s3: "?R ?s1 s2" "?R s2 s3" "he_amount sample_event \<le> d"
    "running s2 = [(sample_event, Reading)]" "sys.more s3 = sys.more (?s1\<lparr>running := [(sample_event, Deciding u b True d)]\<rparr>)"
    by fastforce
  have r3: "running s3 = [] @ (sample_event, Deciding u b True d) # []" "relayed s3 = []"
    using sys_more_eqD(2,3) [OF s3(5)] by simp_all
  from paid [OF r3(1) s3(3)] obtain t where "?R s3 t" "relayed t = [sample_event]" using r3(2) by fastforce
  moreover have "hashes_apart s3" "hashes_apart s2" "hashes_apart ?s1" "hashes_apart (sample_tasks [sample_event] [])"
    using r3(1) s3(4) by (simp_all add: hashes_apart_def)
  ultimately have "?A (sample_tasks [sample_event] []) ?s1" "?A ?s1 s2" "?A s2 s3" "?A s3 t"
    using s s3(1,2) by (simp_all add: apart_step_def)
  with \<open>relayed t = [sample_event]\<close> show ?thesis
    by (meson converse_rtranclp_into_rtranclp r_into_rtranclp)
qed

theorem interleaved_releases_recorded_witness:
  "\<exists>t es. relayed t = [sample_event] \<and> find_relay t ''0xaa'' \<noteq> None \<and> distinct (map he_source_event_hash es) \<and>
     (\<forall>e\<in>set es. \<exists>r. find_relay t (he_source_event_hash e) = Some r \<and> submission_recorded e r) \<and>
     adds (sample_tasks [sample_event] []) (3 * length es)
       (\<lambda>c. \<exists>e\<in>set es. release_to (sample_env sample_answer) (Config.truncate sample_boot) e c) t"
proof -
  let ?E = "sample_env sample_answer" and ?s = "sample_tasks [sample_event] []"
  obtain t where t: "(apart_step sample_host ?E sample_boot)\<^sup>*\<^sup>* ?s t" "relayed t = [sample_event]"
    using sample_run by blast
  have "find_relay t ''0xaa'' \<noteq> None"
    using apart_reachable_once [OF t(1) sample_tasks_sel(1,2) sample_db_always] t(2)
    by (auto simp: once_inv_def sample_event_def)
  with interleaved_releases_recorded [OF t(1) sample_tasks_sel(1,2) sample_db_always] t(2) show ?thesis by blast
qed


text \<open>A restart after the row was written: the task of the event, polled again, ends at its guard.\<close>

theorem recorded_event_ends_task_witness:
  "\<exists>t :: hot_tasks. find_relay t ''0xaa'' \<noteq> None \<and> running t = [] \<and>
     run_state (task_step (sample_env sample_answer) (Config.truncate sample_boot) sample_event Guard) t =
       (None, tick_on (sample_env sample_answer) 0 t)"
proof -
  let ?E = "sample_env sample_answer"
  obtain s where s: "(apart_step sample_host ?E sample_boot)\<^sup>*\<^sup>* (sample_tasks [sample_event] []) s" "relayed s = [sample_event]"
    using sample_run by blast
  have row: "find_relay s (he_source_event_hash sample_event) \<noteq> None"
    using apart_reachable_once [OF s(1) sample_tasks_sel(1,2) sample_db_always] s(2) by (auto simp: once_inv_def)
  define t where "t = hot_path.extend
    (hot_path_new sample_host ?E sample_boot (relay_logs s) \<lparr>now_ms = 9, tick = 9, calls = calls s\<rparr>)
    \<lparr>running = [], relayed = relayed s\<rparr>"
  have "(async_step sample_host ?E sample_boot)\<^sup>*\<^sup>* s t" unfolding t_def by (intro r_into_rtranclp async_step.restart)
  from recorded_event_ends_task [OF this row] sample_db_always
  show ?thesis by (intro exI [of _ t]) (simp add: t_def hot_path.defs sample_event_def)
qed

text \<open>A task for the finalised chain 2 waits at its guard and is taken one phase further.\<close>

theorem no_release_after_finalised_witness:
  "\<exists>s t :: hot_tasks. process_step (sample_env sample_answer) sample_boot s t \<and> running s = [(sample_event, Guard)] \<and>
     running t = [(sample_event, Reading)] \<and> he_dest_chain_id sample_event = 2 \<and> \<not> is_chain_active t 2 \<and>
     (\<exists>new. calls t = calls s @ new \<and> (\<forall>c\<in>set new. is_send c \<longrightarrow>
       (\<exists>e. he_dest_chain_id e \<notin> {2} \<and> release_to (sample_env sample_answer) (Config.truncate sample_boot) e c)))"
proof -
  let ?E = "sample_env sample_answer" and ?s0 = "(sample_tasks [sample_event] [])\<lparr>decommissioned_chains := {2}\<rparr>"
  define s where "s = ?s0\<lparr>spawned := [], running := [(sample_event, Guard)]\<rparr>"
  have s: "process_step ?E sample_boot ?s0 s"
    using process_step.start [of ?s0 "[]" sample_event "[]"] by (simp add: s_def)
  have row: "find_relay s h = None" for h
    by (simp add: s_def find_relay_def find_row_def sample_tasks_def hot_path.defs hot_start_def)
  have run: "run_state (task_step ?E (Config.truncate sample_boot) sample_event Guard) s = (Some Reading, tick_on ?E 0 s)"
    using row by (simp add: run_relay_already_recorded)
  have at: "running s = [] @ (sample_event, Guard) # []" by (simp add: s_def)
  define t where "t = (tick_on ?E 0 s)\<lparr>running := [(sample_event, Reading)], relayed := relayed s\<rparr>"
  have t: "process_step ?E sample_boot s t"
    using process_step.advance [OF at run] by (simp add: t_def next_tasks_def newly_relayed_def)
  have "(async_step sample_host ?E sample_boot)\<^sup>*\<^sup>* ?s0 s" using s by (blast intro: async_step.process)
  moreover have "running ?s0 = []" by simp
  moreover have "{2} \<subseteq> decommissioned_chains s" by (simp add: s_def)
  moreover have "\<forall>(e, p)\<in>set (running s). he_dest_chain_id e \<in> {2} \<longrightarrow> \<not> cleared p" by (simp add: s_def)
  ultimately have "\<not> is_chain_active t 2" "\<exists>new. calls t = calls s @ new \<and> (\<forall>c\<in>set new. is_send c \<longrightarrow>
       (\<exists>e. he_dest_chain_id e \<notin> {2} \<and> release_to ?E (Config.truncate sample_boot) e c))"
    using no_release_after_finalised [OF _ _ r_into_rtranclp [of "process_step ?E sample_boot", OF t]] by blast+
  with t show ?thesis
    by (intro exI [of _ s] exI [of _ t] conjI) (simp_all add: at t_def sample_event_def)
qed

theorem overlapping_tasks_both_relay_witness:
  "\<exists>t. (async_step sample_host (sample_env sample_answer) sample_boot)\<^sup>*\<^sup>*
      (sample_tasks [] [(sample_event, Guard), (sample_event, Guard)]) t \<and> relayed t = [sample_event, sample_event]"
proof -
  let ?s = "sample_tasks [] [(sample_event, Guard), (sample_event, Guard)]"
  have "running ?s = [] @ (sample_event, Guard) # [] @ (sample_event, Guard) # []" by simp
  from overlapping_tasks_both_relay [OF this refl _ sample_payable sample_payable] show ?thesis by simp
qed

theorem concurrent_tasks_share_nonce_witness:
  "let a = \<lparr>at_rpc = ''b'', at_bank = hex_0x (replicate 20 2), at_key = [1], at_left = 2, at_delay = 1000\<rparr> in
   \<exists>t raw1 raw2. (async_step sample_host (sample_env quantity_answer) sample_boot)\<^sup>*\<^sup>*
      (sample_tasks [] [(sample_event, Nonce a), (sample_event, Nonce a)]) t \<and>
    running t = [(sample_event, Sending a raw1), (sample_event, Sending a raw2)] \<and>
    signed_with (sample_env quantity_answer) sample_event a 4 raw1 \<and> signed_with (sample_env quantity_answer) sample_event a 4 raw2"
proof -
  define a where "a = \<lparr>at_rpc = ''b'', at_bank = hex_0x (replicate 20 2), at_key = [1], at_left = 2, at_delay = 1000\<rparr>"
  let ?s = "sample_tasks [] [(sample_event, Nonce a), (sample_event, Nonce a)]"
  have "running ?s = [] @ (sample_event, Nonce a) # [] @ (sample_event, Nonce a) # []" by simp
  note concurrent_tasks_share_nonce [OF this, of 2 4 "replicate 20 5" "sample_env quantity_answer" sample_host sample_boot]
  moreover have "can_submit (sample_env quantity_answer) (at_rpc a) (at_bank a) (at_key a) (replicate 20 5)"
    by (simp add: a_def sample_can_submit)
  ultimately show ?thesis by (simp add: a_def [symmetric] sample_event_def)
qed

end
