(* ===== verification/Bank.thy ===== *)
theory Bank
  imports Encoding Domain
begin

text \<open>
  The Bank contract (\<open>packages/onchain/foundry/src/Bank.sol\<close>), which the treasury's transactions call
  and whose events it reads. One function per external function of the contract, each from the
  storage before to the storage after, or to the error it reverts with, in which case nothing
  changes. The field \<open>emitted\<close> collects the logs.

  The contract inherits from OpenZeppelin and calls tokens and a bridge adapter. That code is a
  parameter: the record \<open>external\<close> has its functions, over the inherited storage \<open>'o\<close> (the pause
  flag, the roles) and over the storage \<open>'w\<close> of the other contracts. A call to another
  contract changes only \<open>'w\<close>: the inherited guard \<open>nonReentrant\<close> keeps the callee from calling back into a
  guarded function, and the setters and pause functions, which have no such guard, demand a role,
  which the called contracts are taken not to hold. Replacing the implementation
  (\<open>UUPSUpgradeable\<close>) is outside the model.
\<close>

section \<open>What the contract uses\<close>

record ('o, 'w) external =
  paused_of :: "'o \<Rightarrow> bool"
  super_pause :: "'o \<Rightarrow> 'o option"
  super_unpause :: "'o \<Rightarrow> 'o option"
  holds_role :: "'o \<Rightarrow> string \<Rightarrow> Address \<Rightarrow> bool"
  super_initialize :: "Address \<Rightarrow> Address \<Rightarrow> 'o \<Rightarrow> 'o option"
  administers :: "'o \<Rightarrow> 'o \<Rightarrow> bool"
  keccak :: "byte list \<Rightarrow> B256"
  balanceOf :: "Address \<Rightarrow> Address \<Rightarrow> 'w \<Rightarrow> u256 option"
  token_decimals :: "Address \<Rightarrow> 'w \<Rightarrow> byte option"
  safeTransferFrom :: "Address \<Rightarrow> Address \<Rightarrow> Address \<Rightarrow> Address \<Rightarrow> u256 \<Rightarrow> 'w \<Rightarrow> 'w option"
  safeTransfer :: "Address \<Rightarrow> Address \<Rightarrow> Address \<Rightarrow> u256 \<Rightarrow> 'w \<Rightarrow> 'w option"
  forceApprove :: "Address \<Rightarrow> Address \<Rightarrow> Address \<Rightarrow> u256 \<Rightarrow> 'w \<Rightarrow> 'w option"
  token_mint :: "Address \<Rightarrow> Address \<Rightarrow> Address \<Rightarrow> u256 \<Rightarrow> 'w \<Rightarrow> 'w option"
  token_burn :: "Address \<Rightarrow> Address \<Rightarrow> u256 \<Rightarrow> 'w \<Rightarrow> 'w option"
  token_burnFrom :: "Address \<Rightarrow> Address \<Rightarrow> Address \<Rightarrow> u256 \<Rightarrow> 'w \<Rightarrow> 'w option"
  bridgeOut :: "Address \<Rightarrow> Address \<Rightarrow> u64 \<Rightarrow> u256 \<Rightarrow> Address \<Rightarrow> 'w \<Rightarrow> (B256 \<times> 'w) option"
  bridgeType :: "Address \<Rightarrow> 'w \<Rightarrow> B256 option"

text \<open>A transaction: its sender, and the chain it runs on.\<close>

record msg =
  sender :: Address
  chainid :: u256

section \<open>Errors, events, storage\<close>

text \<open>\<open>Reverted\<close> stands for a revert of inherited code (paused, missing role), of a called contract or of
  checked arithmetic.\<close>

datatype bank_error =
    ZeroAddress
  | ZeroAmount
  | InsufficientPoolLiquidity
  | TransferAlreadyReleased B256
  | TokenNotAllowed Address
  | InvalidTokenDecimals Address byte
  | RebalanceCapExceeded u256 u256
  | DestChainNotAllowlisted u64
  | SourceContractNotAllowlisted u64 Address
  | RebalanceMessageAlreadyProcessed B256
  | UnauthorizedCcipRouter Address
  | ReserveBridgeNotSet
  | ReserveTokenNotSet
  | ReserveRebalanceCapExceeded u256 u256
  | InsufficientReserveLiquidity
  | ReserveBridgeMessageAlreadyProcessed B256
  | UnauthorizedReserveBridge Address
  | ContractFrozenForDecommission
  | ContractPermanentlyPaused
  | Reverted

datatype bank_event =
    HotPathInitiated Address Address u256 u256 B256 u256
  | HotPathReleased Address u256 B256
  | Deposited Address Address u256
  | Withdrawn Address Address u256
  | FeeCollectorUpdated Address
  | TokenAllowed Address
  | TokenDisallowed Address
  | RebalanceInitiated B256 u64 u256
  | RebalanceCompleted B256 u64 u256
  | MaxRebalanceAmountUpdated u256
  | AllowlistedDestChainUpdated u64 bool
  | AllowlistedSourceContractUpdated u64 Address bool
  | CcipRouterUpdated Address
  | ReserveTokenUpdated Address
  | ReserveBridgeUpdated Address
  | MaxReserveRebalanceAmountUpdated u256
  | ReserveDestinationUpdated u64 Address
  | ReserveBridgeInitiated B256 u64 u256 B256
  | ReserveBridgeCompleted B256 u64 u256
  | FrozenForDecommission Address
  | PermanentlyPaused Address

record ('o, 'w) bank =
  inherited :: 'o
  world :: 'w
  self :: Address
  emitted :: "bank_event list"
  syncUSD :: Address
  feeCollector :: Address
  transfer_nonce :: u256
  released :: "B256 \<Rightarrow> bool"
  allowedTokens :: "Address \<Rightarrow> bool"
  maxRebalanceAmount :: u256
  ccipRouter :: Address
  allowlistedDestChains :: "u64 \<Rightarrow> bool"
  allowlistedSourceContracts :: "u64 \<Rightarrow> Address \<Rightarrow> bool"
  processedMessages :: "B256 \<Rightarrow> bool"
  rebalanceNonce :: u256
  reserveToken :: Address
  reserveBridge :: Address
  maxReserveRebalanceAmount :: u256
  processedReserveMessages :: "B256 \<Rightarrow> bool"
  reserveDestinations :: "u64 \<Rightarrow> Address"
  frozen :: bool
  permanentPause :: bool

type_synonym ('o, 'w) call = "('o, 'w) bank \<Rightarrow> bank_error + ('o, 'w) bank"

definition address_zero :: Address where
  "address_zero = replicate 20 0"

definition emit :: "bank_event \<Rightarrow> ('o, 'w) bank \<Rightarrow> ('o, 'w) bank" where
  "emit e s = s\<lparr>emitted := emitted s @ [e]\<rparr>"

text \<open>A call of another contract: its revert is passed on.\<close>

definition calling :: "('w \<Rightarrow> 'w option) \<Rightarrow> ('o, 'w) call \<Rightarrow> ('o, 'w) call" where
  "calling f k s = (case f (world s) of None \<Rightarrow> Inl Reverted | Some w \<Rightarrow> k (s\<lparr>world := w\<rparr>))"

definition reading :: "('w \<Rightarrow> 'a option) \<Rightarrow> ('a \<Rightarrow> ('o, 'w) call) \<Rightarrow> ('o, 'w) call" where
  "reading f k s = (case f (world s) of None \<Rightarrow> Inl Reverted | Some x \<Rightarrow> k x s)"

text \<open>\<open>if (c) revert e;\<close>\<close>

definition revert_if :: "bool \<Rightarrow> bank_error \<Rightarrow> ('o, 'w) call \<Rightarrow> ('o, 'w) call" where
  "revert_if c e k s = (if c then Inl e else k s)"

text \<open>The modifiers \<open>whenNotPaused\<close>, \<open>whenNotFrozenForDecommission\<close> and \<open>onlyRole\<close>.\<close>

definition whenNotPaused :: "('o, 'w) external \<Rightarrow> ('o, 'w) call \<Rightarrow> ('o, 'w) call" where
  "whenNotPaused X k s = revert_if (paused_of X (inherited s)) Reverted k s"

definition whenNotFrozenForDecommission :: "('o, 'w) call \<Rightarrow> ('o, 'w) call" where
  "whenNotFrozenForDecommission k s = revert_if (frozen s) ContractFrozenForDecommission k s"

definition onlyRole :: "('o, 'w) external \<Rightarrow> msg \<Rightarrow> string \<Rightarrow> ('o, 'w) call \<Rightarrow> ('o, 'w) call" where
  "onlyRole X m role k s = revert_if (\<not> holds_role X (inherited s) role (sender m)) Reverted k s"

text \<open>\<open>abi.encode\<close> of addresses and integers: one word of 32 bytes each.\<close>

definition word_of_address :: "Address \<Rightarrow> byte list" where
  "word_of_address a = replicate 12 0 @ a"

definition word_of_u64 :: "u64 \<Rightarrow> byte list" where
  "word_of_u64 c = replicate 24 0 @ u64_to_be_bytes c"

section \<open>Initialisation\<close>

definition initialize :: "('o, 'w) external \<Rightarrow> Address \<Rightarrow> Address \<Rightarrow> Address \<Rightarrow> Address \<Rightarrow> ('o, 'w) call" where
  "initialize X admin pauser token collector s =
     (if admin = address_zero \<or> pauser = address_zero \<or> token = address_zero then Inl ZeroAddress
      else
        (case super_initialize X admin pauser (inherited s) of
           None \<Rightarrow> Inl Reverted
         | Some i \<Rightarrow> Inr (s\<lparr>inherited := i, syncUSD := token, feeCollector := collector\<rparr>)))"

section \<open>Core methods\<close>

text \<open>The checks \<open>deposit\<close> and \<open>withdraw\<close> share.\<close>

definition token_checks :: "('o, 'w) external \<Rightarrow> Address \<Rightarrow> u256 \<Rightarrow> ('o, 'w) call \<Rightarrow> ('o, 'w) call" where
  "token_checks X token amount k s =
     revert_if (\<not> allowedTokens s token) (TokenNotAllowed token)
       (revert_if (amount = 0) ZeroAmount
         (reading (token_decimals X token) (\<lambda>d. revert_if (d \<noteq> 6) (InvalidTokenDecimals token d) k))) s"

definition deposit :: "('o, 'w) external \<Rightarrow> msg \<Rightarrow> Address \<Rightarrow> u256 \<Rightarrow> ('o, 'w) call" where
  "deposit X m token amount = whenNotPaused X (whenNotFrozenForDecommission (\<lambda>s.
     token_checks X token amount
       (calling (safeTransferFrom X token (self s) (sender m) (self s) amount)
         (calling (token_mint X (syncUSD s) (self s) (sender m) amount)
           (\<lambda>s. Inr (emit (Deposited (sender m) token amount) s)))) s))"

definition withdraw :: "('o, 'w) external \<Rightarrow> msg \<Rightarrow> Address \<Rightarrow> u256 \<Rightarrow> ('o, 'w) call" where
  "withdraw X m token amount = whenNotPaused X (\<lambda>s.
     token_checks X token amount
       (calling (token_burnFrom X (syncUSD s) (self s) (sender m) amount)
         (calling (safeTransfer X token (self s) (sender m) amount)
           (\<lambda>s. Inr (emit (Withdrawn (sender m) token amount) s)))) s)"

definition transfer_preimage :: "msg \<Rightarrow> Address \<Rightarrow> u256 \<Rightarrow> u256 \<Rightarrow> u256 \<Rightarrow> byte list" where
  "transfer_preimage m to amount dest nonce =
     word_of_address (sender m) @ word_of_address to @ u256_to_be_bytes amount @ u256_to_be_bytes dest @
     u256_to_be_bytes (chainid m) @ u256_to_be_bytes nonce"

definition transferHotPath :: "('o, 'w) external \<Rightarrow> msg \<Rightarrow> Address \<Rightarrow> u256 \<Rightarrow> u256 \<Rightarrow> ('o, 'w) call" where
  "transferHotPath X m to amount dest = whenNotPaused X (whenNotFrozenForDecommission (\<lambda>s.
     revert_if (to = address_zero) ZeroAddress
       (revert_if (amount = 0) ZeroAmount
         (calling (safeTransferFrom X (syncUSD s) (self s) (sender m) (self s) amount)
           (\<lambda>s. revert_if (transfer_nonce s = - 1) Reverted
             (\<lambda>s. Inr (emit (HotPathInitiated (sender m) to amount dest
                     (keccak X (transfer_preimage m to amount dest (transfer_nonce s))) 0)
                   (s\<lparr>transfer_nonce := transfer_nonce s + 1\<rparr>))) s))) s))"

definition releaseHotPath :: "('o, 'w) external \<Rightarrow> msg \<Rightarrow> Address \<Rightarrow> u256 \<Rightarrow> B256 \<Rightarrow> ('o, 'w) call" where
  "releaseHotPath X m to amount h = whenNotPaused X (whenNotFrozenForDecommission (onlyRole X m ''RELAYER_ROLE'' (\<lambda>s.
     revert_if (to = address_zero) ZeroAddress
       (revert_if (amount = 0) ZeroAmount
         (revert_if (released s h) (TransferAlreadyReleased h)
           (reading (balanceOf X (syncUSD s) (self s)) (\<lambda>b.
             revert_if (b < amount) InsufficientPoolLiquidity
               (\<lambda>s. calling (safeTransfer X (syncUSD s) (self s) to amount)
                 (\<lambda>s. Inr (emit (HotPathReleased to amount h) s))
                 (s\<lparr>released := (released s)(h := True)\<rparr>)))))) s)))"

definition rebalance_preimage :: "msg \<Rightarrow> Address \<Rightarrow> u64 \<Rightarrow> u256 \<Rightarrow> u256 \<Rightarrow> byte list" where
  "rebalance_preimage m bank dest amount nonce =
     u256_to_be_bytes (chainid m) @ word_of_address bank @ word_of_u64 dest @ u256_to_be_bytes amount @
     u256_to_be_bytes nonce"

definition rebalance :: "('o, 'w) external \<Rightarrow> msg \<Rightarrow> u64 \<Rightarrow> u256 \<Rightarrow> ('o, 'w) call" where
  "rebalance X m dest amount = whenNotPaused X (onlyRole X m ''REBALANCER_ROLE'' (\<lambda>s.
     revert_if (amount = 0) ZeroAmount
       (revert_if (maxRebalanceAmount s < amount) (RebalanceCapExceeded amount (maxRebalanceAmount s))
         (revert_if (\<not> allowlistedDestChains s dest) (DestChainNotAllowlisted dest)
           (reading (balanceOf X (syncUSD s) (self s)) (\<lambda>b.
             revert_if (b < amount) InsufficientPoolLiquidity
               (revert_if (rebalanceNonce s = - 1) Reverted
                 (calling (token_burn X (syncUSD s) (self s) amount)
                   (\<lambda>s. Inr (emit (RebalanceInitiated
                       (keccak X (rebalance_preimage m (self s) dest amount (rebalanceNonce s))) dest amount)
                     (s\<lparr>rebalanceNonce := rebalanceNonce s + 1\<rparr>))))))))) s))"

definition bridgeReserve :: "('o, 'w) external \<Rightarrow> msg \<Rightarrow> u64 \<Rightarrow> u256 \<Rightarrow> ('o, 'w) call" where
  "bridgeReserve X m dest amount = whenNotPaused X (onlyRole X m ''RESERVE_REBALANCER_ROLE'' (\<lambda>s.
     let bridge = reserveBridge s; token = reserveToken s; dest_reserve = reserveDestinations s dest in
     revert_if (bridge = address_zero) ReserveBridgeNotSet
       (revert_if (token = address_zero) ReserveTokenNotSet
         (revert_if (amount = 0) ZeroAmount
           (revert_if (maxReserveRebalanceAmount s < amount)
             (ReserveRebalanceCapExceeded amount (maxReserveRebalanceAmount s))
             (revert_if (\<not> allowlistedDestChains s dest) (DestChainNotAllowlisted dest)
               (revert_if (dest_reserve = address_zero) (DestChainNotAllowlisted dest)
                 (reading (balanceOf X token (self s)) (\<lambda>b.
                   revert_if (b < amount) InsufficientReserveLiquidity
                     (calling (forceApprove X token (self s) bridge amount)
                       (reading (bridgeOut X bridge (self s) dest amount dest_reserve) (\<lambda>(message_id, w) s.
                         calling (forceApprove X token (self s) bridge 0)
                           (reading (bridgeType X bridge) (\<lambda>bt s.
                             Inr (emit (ReserveBridgeInitiated message_id dest amount bt) s)))
                           (s\<lparr>world := w\<rparr>)))))))))))
       s))"

definition receive_rebalance :: "('o, 'w) external \<Rightarrow> u64 \<Rightarrow> Address \<Rightarrow> u256 \<Rightarrow> B256 \<Rightarrow> ('o, 'w) call" where
  "receive_rebalance X source source_contract amount message_id s =
     revert_if (source_contract = address_zero) ZeroAddress
       (revert_if (amount = 0) ZeroAmount
         (revert_if (\<not> allowlistedSourceContracts s source source_contract)
           (SourceContractNotAllowlisted source source_contract)
           (revert_if (processedMessages s message_id) (RebalanceMessageAlreadyProcessed message_id)
             (\<lambda>s. calling (token_mint X (syncUSD s) (self s) (self s) amount)
               (\<lambda>s. Inr (emit (RebalanceCompleted message_id source amount) s))
               (s\<lparr>processedMessages := (processedMessages s)(message_id := True)\<rparr>))))) s"

definition ccipReceive ::
  "('o, 'w) external \<Rightarrow> msg \<Rightarrow> u64 \<Rightarrow> Address \<Rightarrow> u256 \<Rightarrow> B256 \<Rightarrow> ('o, 'w) call" where
  "ccipReceive X m source source_contract amount message_id = whenNotPaused X (\<lambda>s.
     revert_if (sender m \<noteq> ccipRouter s) (UnauthorizedCcipRouter (sender m))
       (receive_rebalance X source source_contract amount message_id) s)"

definition completeReserveBridge :: "('o, 'w) external \<Rightarrow> msg \<Rightarrow> u64 \<Rightarrow> u256 \<Rightarrow> B256 \<Rightarrow> ('o, 'w) call" where
  "completeReserveBridge X m source amount message_id = whenNotPaused X (\<lambda>s.
     revert_if (sender m \<noteq> reserveBridge s) (UnauthorizedReserveBridge (sender m))
       (revert_if (amount = 0) ZeroAmount
         (revert_if (processedReserveMessages s message_id) (ReserveBridgeMessageAlreadyProcessed message_id)
           (\<lambda>s. Inr (emit (ReserveBridgeCompleted message_id source amount)
             (s\<lparr>processedReserveMessages := (processedReserveMessages s)(message_id := True)\<rparr>))))) s)"

definition poolDepth :: "('o, 'w) external \<Rightarrow> ('o, 'w) bank \<Rightarrow> u256 option" where
  "poolDepth X s = balanceOf X (syncUSD s) (self s) (world s)"

definition reserveDepth :: "('o, 'w) external \<Rightarrow> ('o, 'w) bank \<Rightarrow> u256 option" where
  "reserveDepth X s =
     (if reserveToken s = address_zero then Some 0 else balanceOf X (reserveToken s) (self s) (world s))"

section \<open>Administration\<close>

definition setFeeCollector :: "('o, 'w) external \<Rightarrow> msg \<Rightarrow> Address \<Rightarrow> ('o, 'w) call" where
  "setFeeCollector X m a = onlyRole X m ''ADMIN_ROLE'' (\<lambda>s.
     Inr (emit (FeeCollectorUpdated a) (s\<lparr>feeCollector := a\<rparr>)))"

definition allowToken :: "('o, 'w) external \<Rightarrow> msg \<Rightarrow> Address \<Rightarrow> ('o, 'w) call" where
  "allowToken X m token = onlyRole X m ''ADMIN_ROLE'' (revert_if (token = address_zero) ZeroAddress (\<lambda>s.
     let t = emit (TokenAllowed token) (s\<lparr>allowedTokens := (allowedTokens s)(token := True)\<rparr>) in
     Inr (if reserveToken s = address_zero
          then emit (ReserveTokenUpdated token) (t\<lparr>reserveToken := token\<rparr>) else t)))"

definition disallowToken :: "('o, 'w) external \<Rightarrow> msg \<Rightarrow> Address \<Rightarrow> ('o, 'w) call" where
  "disallowToken X m token = onlyRole X m ''ADMIN_ROLE'' (\<lambda>s.
     Inr (emit (TokenDisallowed token) (s\<lparr>allowedTokens := (allowedTokens s)(token := False)\<rparr>)))"

definition setReserveToken :: "('o, 'w) external \<Rightarrow> msg \<Rightarrow> Address \<Rightarrow> ('o, 'w) call" where
  "setReserveToken X m token = onlyRole X m ''ADMIN_ROLE'' (\<lambda>s.
     revert_if (token = address_zero) ZeroAddress
       (revert_if (\<not> allowedTokens s token) (TokenNotAllowed token)
         (\<lambda>s. Inr (emit (ReserveTokenUpdated token) (s\<lparr>reserveToken := token\<rparr>)))) s)"

definition setMaxRebalanceAmount :: "('o, 'w) external \<Rightarrow> msg \<Rightarrow> u256 \<Rightarrow> ('o, 'w) call" where
  "setMaxRebalanceAmount X m amount = onlyRole X m ''ADMIN_ROLE'' (\<lambda>s.
     Inr (emit (MaxRebalanceAmountUpdated amount) (s\<lparr>maxRebalanceAmount := amount\<rparr>)))"

definition setMaxReserveRebalanceAmount :: "('o, 'w) external \<Rightarrow> msg \<Rightarrow> u256 \<Rightarrow> ('o, 'w) call" where
  "setMaxReserveRebalanceAmount X m amount = onlyRole X m ''ADMIN_ROLE'' (\<lambda>s.
     Inr (emit (MaxReserveRebalanceAmountUpdated amount) (s\<lparr>maxReserveRebalanceAmount := amount\<rparr>)))"

definition setReserveBridge :: "('o, 'w) external \<Rightarrow> msg \<Rightarrow> Address \<Rightarrow> ('o, 'w) call" where
  "setReserveBridge X m bridge = onlyRole X m ''ADMIN_ROLE'' (revert_if (bridge = address_zero) ZeroAddress (\<lambda>s.
     Inr (emit (ReserveBridgeUpdated bridge) (s\<lparr>reserveBridge := bridge\<rparr>))))"

definition setReserveDestination :: "('o, 'w) external \<Rightarrow> msg \<Rightarrow> u64 \<Rightarrow> Address \<Rightarrow> ('o, 'w) call" where
  "setReserveDestination X m dest a = onlyRole X m ''ADMIN_ROLE'' (\<lambda>s.
     Inr (emit (ReserveDestinationUpdated dest a) (s\<lparr>reserveDestinations := (reserveDestinations s)(dest := a)\<rparr>)))"

definition setCcipRouter :: "('o, 'w) external \<Rightarrow> msg \<Rightarrow> Address \<Rightarrow> ('o, 'w) call" where
  "setCcipRouter X m router = onlyRole X m ''ADMIN_ROLE'' (revert_if (router = address_zero) ZeroAddress (\<lambda>s.
     Inr (emit (CcipRouterUpdated router) (s\<lparr>ccipRouter := router\<rparr>))))"

definition setAllowlistedDestChain :: "('o, 'w) external \<Rightarrow> msg \<Rightarrow> u64 \<Rightarrow> bool \<Rightarrow> ('o, 'w) call" where
  "setAllowlistedDestChain X m dest allowed = onlyRole X m ''ADMIN_ROLE'' (\<lambda>s.
     Inr (emit (AllowlistedDestChainUpdated dest allowed)
       (s\<lparr>allowlistedDestChains := (allowlistedDestChains s)(dest := allowed)\<rparr>)))"

definition setAllowlistedSourceContract ::
  "('o, 'w) external \<Rightarrow> msg \<Rightarrow> u64 \<Rightarrow> Address \<Rightarrow> bool \<Rightarrow> ('o, 'w) call" where
  "setAllowlistedSourceContract X m source a allowed = onlyRole X m ''ADMIN_ROLE''
     (revert_if (a = address_zero) ZeroAddress (\<lambda>s.
       Inr (emit (AllowlistedSourceContractUpdated source a allowed)
         (s\<lparr>allowlistedSourceContracts := (allowlistedSourceContracts s)
             (source := (allowlistedSourceContracts s source)(a := allowed))\<rparr>))))"

section \<open>Pausing and decommissioning\<close>

definition inheriting :: "('o \<Rightarrow> 'o option) \<Rightarrow> ('o, 'w) call \<Rightarrow> ('o, 'w) call" where
  "inheriting f k s = (case f (inherited s) of None \<Rightarrow> Inl Reverted | Some i \<Rightarrow> k (s\<lparr>inherited := i\<rparr>))"

definition pause :: "('o, 'w) external \<Rightarrow> msg \<Rightarrow> ('o, 'w) call" where
  "pause X m = onlyRole X m ''PAUSER_ROLE'' (inheriting (super_pause X) Inr)"

definition unpause :: "('o, 'w) external \<Rightarrow> msg \<Rightarrow> ('o, 'w) call" where
  "unpause X m = onlyRole X m ''PAUSER_ROLE'' (\<lambda>s.
     revert_if (permanentPause s) ContractPermanentlyPaused (inheriting (super_unpause X) Inr) s)"

definition freezeForDecommission :: "('o, 'w) external \<Rightarrow> msg \<Rightarrow> ('o, 'w) call" where
  "freezeForDecommission X m = onlyRole X m ''ADMIN_ROLE'' (\<lambda>s.
     revert_if (frozen s) ContractFrozenForDecommission
       (\<lambda>s. Inr (emit (FrozenForDecommission (sender m)) (s\<lparr>frozen := True\<rparr>))) s)"

definition pausePermanently :: "('o, 'w) external \<Rightarrow> msg \<Rightarrow> ('o, 'w) call" where
  "pausePermanently X m = onlyRole X m ''ADMIN_ROLE'' (\<lambda>s.
     revert_if (permanentPause s) ContractPermanentlyPaused
       (\<lambda>s. inheriting (super_pause X) (\<lambda>s. Inr (emit (PermanentlyPaused (sender m)) s))
         (s\<lparr>permanentPause := True\<rparr>)) s)"

end
