(* ===== verification/BankSafety.thy ===== *)
theory BankSafety
  imports Bank
begin

text \<open>
  Runs of the Bank contract: any sequence of transactions from any senders, changes of the roles by
  the inherited administration, and changes of the other contracts in between. What the contract
  promises to the treasury: every transfer is released at most once and every message processed at
  most once, a frozen Bank takes and releases no transfers, a permanently paused Bank moves nothing.
\<close>

section \<open>Transactions\<close>

datatype bank_tx =
    Initialize Address Address Address Address
  | Deposit Address u256
  | Withdraw Address u256
  | TransferHotPath Address u256 u256
  | ReleaseHotPath Address u256 B256
  | Rebalance u64 u256
  | BridgeReserve u64 u256
  | CcipReceive u64 Address u256 B256
  | CompleteReserveBridge u64 u256 B256
  | SetFeeCollector Address
  | AllowToken Address
  | DisallowToken Address
  | SetReserveToken Address
  | SetMaxRebalanceAmount u256
  | SetMaxReserveRebalanceAmount u256
  | SetReserveBridge Address
  | SetReserveDestination u64 Address
  | SetCcipRouter Address
  | SetAllowlistedDestChain u64 bool
  | SetAllowlistedSourceContract u64 Address bool
  | Pause
  | Unpause
  | FreezeForDecommission
  | PausePermanently

fun execute :: "('o, 'w) external \<Rightarrow> msg \<Rightarrow> bank_tx \<Rightarrow> ('o, 'w) call" where
  "execute X m (Initialize a p t c) = initialize X a p t c"
| "execute X m (Deposit t n) = deposit X m t n"
| "execute X m (Withdraw t n) = withdraw X m t n"
| "execute X m (TransferHotPath to n d) = transferHotPath X m to n d"
| "execute X m (ReleaseHotPath to n h) = releaseHotPath X m to n h"
| "execute X m (Rebalance d n) = rebalance X m d n"
| "execute X m (BridgeReserve d n) = bridgeReserve X m d n"
| "execute X m (CcipReceive c a n i) = ccipReceive X m c a n i"
| "execute X m (CompleteReserveBridge c n i) = completeReserveBridge X m c n i"
| "execute X m (SetFeeCollector a) = setFeeCollector X m a"
| "execute X m (AllowToken t) = allowToken X m t"
| "execute X m (DisallowToken t) = disallowToken X m t"
| "execute X m (SetReserveToken t) = setReserveToken X m t"
| "execute X m (SetMaxRebalanceAmount n) = setMaxRebalanceAmount X m n"
| "execute X m (SetMaxReserveRebalanceAmount n) = setMaxReserveRebalanceAmount X m n"
| "execute X m (SetReserveBridge a) = setReserveBridge X m a"
| "execute X m (SetReserveDestination c a) = setReserveDestination X m c a"
| "execute X m (SetCcipRouter a) = setCcipRouter X m a"
| "execute X m (SetAllowlistedDestChain c b) = setAllowlistedDestChain X m c b"
| "execute X m (SetAllowlistedSourceContract c a b) = setAllowlistedSourceContract X m c a b"
| "execute X m Pause = pause X m"
| "execute X m Unpause = unpause X m"
| "execute X m FreezeForDecommission = freezeForDecommission X m"
| "execute X m PausePermanently = pausePermanently X m"

text \<open>A transaction that succeeds, a change of the roles, a change of the other contracts.\<close>

inductive bank_step :: "('o, 'w) external \<Rightarrow> ('o, 'w) bank \<Rightarrow> ('o, 'w) bank \<Rightarrow> bool" for X where
  transaction: "execute X m c s = Inr t \<Longrightarrow> bank_step X s t"
| administration: "administers X (inherited s) i \<Longrightarrow> bank_step X s (s\<lparr>inherited := i\<rparr>)"
| elsewhere: "bank_step X s (s\<lparr>world := w\<rparr>)"

lemma run_of: "execute X m c s = Inr t \<Longrightarrow> (bank_step X)\<^sup>*\<^sup>* s t"
  by (intro r_into_rtranclp bank_step.transaction)

lemmas guards = whenNotPaused_def whenNotFrozenForDecommission_def onlyRole_def revert_if_def calling_def
  reading_def inheriting_def emit_def token_checks_def

lemmas bank_ops = initialize_def deposit_def withdraw_def transferHotPath_def releaseHotPath_def rebalance_def
  bridgeReserve_def receive_rebalance_def ccipReceive_def completeReserveBridge_def setFeeCollector_def allowToken_def
  disallowToken_def setReserveToken_def setMaxRebalanceAmount_def setMaxReserveRebalanceAmount_def
  setReserveBridge_def setReserveDestination_def setCcipRouter_def setAllowlistedDestChain_def
  setAllowlistedSourceContract_def pause_def unpause_def freezeForDecommission_def pausePermanently_def

section \<open>Once per identifier\<close>

text \<open>
  The contract of the three idempotency maps: a step either leaves the flags and the logged
  identifiers alone, or sets the flag of one identifier that had none and logs it.
\<close>

locale flag_guard =
  fixes step :: "'s \<Rightarrow> 's \<Rightarrow> bool" and flag :: "'s \<Rightarrow> 'k \<Rightarrow> bool" and logged :: "'s \<Rightarrow> 'k list"
  assumes once: "step s t \<Longrightarrow> flag t = flag s \<and> logged t = logged s \<or>
    (\<exists>k. \<not> flag s k \<and> flag t = (flag s)(k := True) \<and> logged t = logged s @ [k])"
begin

definition consistent :: "'s \<Rightarrow> bool" where
  "consistent s \<longleftrightarrow> distinct (logged s) \<and> (\<forall>k. flag s k \<longleftrightarrow> k \<in> set (logged s))"

lemma step_consistent: "step s t \<Longrightarrow> consistent s \<Longrightarrow> consistent t"
  using once [of s t] by (auto simp: consistent_def split: if_split_asm)

lemma run_consistent: "step\<^sup>*\<^sup>* s t \<Longrightarrow> consistent s \<Longrightarrow> consistent t"
  by (induction rule: rtranclp_induct) (auto intro: step_consistent)

lemma run_flag: "step\<^sup>*\<^sup>* s t \<Longrightarrow> flag s k \<Longrightarrow> flag t k"
  by (induction rule: rtranclp_induct) (use once in fastforce)+

end

fun released_id :: "bank_event \<Rightarrow> B256 option" where
  "released_id (HotPathReleased to n h) = Some h"
| "released_id _ = None"

fun rebalanced_id :: "bank_event \<Rightarrow> B256 option" where
  "rebalanced_id (RebalanceCompleted i c n) = Some i"
| "rebalanced_id _ = None"

fun bridged_id :: "bank_event \<Rightarrow> B256 option" where
  "bridged_id (ReserveBridgeCompleted i c n) = Some i"
| "bridged_id _ = None"

definition ids :: "(bank_event \<Rightarrow> B256 option) \<Rightarrow> ('o, 'w) bank \<Rightarrow> B256 list" where
  "ids f s = filter_map f (emitted s)"

lemma execute_released:
  "execute X m c s = Inr t \<Longrightarrow> released t = released s \<and> ids released_id t = ids released_id s \<or>
    (\<exists>h. \<not> released s h \<and> released t = (released s)(h := True) \<and> ids released_id t = ids released_id s @ [h])"
  by (cases c) (auto simp: bank_ops guards ids_def Let_def split: if_split_asm option.split_asm prod.split_asm)

lemma execute_rebalanced:
  "execute X m c s = Inr t \<Longrightarrow> processedMessages t = processedMessages s \<and> ids rebalanced_id t = ids rebalanced_id s \<or>
    (\<exists>h. \<not> processedMessages s h \<and> processedMessages t = (processedMessages s)(h := True) \<and>
       ids rebalanced_id t = ids rebalanced_id s @ [h])"
  by (cases c) (auto simp: bank_ops guards ids_def Let_def split: if_split_asm option.split_asm prod.split_asm)

lemma execute_bridged:
  "execute X m c s = Inr t \<Longrightarrow>
    processedReserveMessages t = processedReserveMessages s \<and> ids bridged_id t = ids bridged_id s \<or>
    (\<exists>h. \<not> processedReserveMessages s h \<and> processedReserveMessages t = (processedReserveMessages s)(h := True) \<and>
       ids bridged_id t = ids bridged_id s @ [h])"
  by (cases c) (auto simp: bank_ops guards ids_def Let_def split: if_split_asm option.split_asm prod.split_asm)

interpretation hot_release: flag_guard "bank_step X" released "ids released_id"
  by unfold_locales (auto elim!: bank_step.cases dest!: execute_released simp: ids_def)

interpretation cold_delivery: flag_guard "bank_step X" processedMessages "ids rebalanced_id"
  by unfold_locales (auto elim!: bank_step.cases dest!: execute_rebalanced simp: ids_def)

interpretation reserve_delivery: flag_guard "bank_step X" processedReserveMessages "ids bridged_id"
  by unfold_locales (auto elim!: bank_step.cases dest!: execute_bridged simp: ids_def)

text \<open>A Bank before its first transaction.\<close>

definition fresh :: "('o, 'w) bank \<Rightarrow> bool" where
  "fresh s \<longleftrightarrow> emitted s = [] \<and> transfer_nonce s = 0 \<and> (\<forall>h. \<not> released s h) \<and> (\<forall>i. \<not> processedMessages s i) \<and>
     (\<forall>i. \<not> processedReserveMessages s i)"

lemma fresh_consistent:
  assumes "fresh s"
  shows "hot_release.consistent s" "cold_delivery.consistent s" "reserve_delivery.consistent s"
  using assms by (simp_all add: fresh_def ids_def hot_release.consistent_def cold_delivery.consistent_def
      reserve_delivery.consistent_def)

text \<open>
  C17. The Bank pays every transfer once: in every run of the contract from its deployment, with any
  transactions from any senders, at most one release is logged per source event hash, at most one
  delivery per cold-path message and at most one per reserve message, and the contract's three maps
  say exactly which.
\<close>

theorem bank_settles_once:
  assumes "(bank_step X)\<^sup>*\<^sup>* s t" "fresh s"
  shows "distinct (ids released_id t) \<and> (\<forall>h. released t h \<longleftrightarrow> h \<in> set (ids released_id t)) \<and>
    distinct (ids rebalanced_id t) \<and> (\<forall>i. processedMessages t i \<longleftrightarrow> i \<in> set (ids rebalanced_id t)) \<and>
    distinct (ids bridged_id t) \<and> (\<forall>i. processedReserveMessages t i \<longleftrightarrow> i \<in> set (ids bridged_id t))"
  using hot_release.run_consistent [OF assms(1) fresh_consistent(1)] cold_delivery.run_consistent [OF assms(1) fresh_consistent(2)]
    reserve_delivery.run_consistent [OF assms(1) fresh_consistent(3)] assms(2)
  unfolding hot_release.consistent_def cold_delivery.consistent_def reserve_delivery.consistent_def by blast

section \<open>Event hashes\<close>

fun initiated_id :: "bank_event \<Rightarrow> B256 option" where
  "initiated_id (HotPathInitiated from to n d h fee) = Some h"
| "initiated_id _ = None"

definition last_word :: "byte list \<Rightarrow> byte list" where
  "last_word bs = drop (length bs - 32) bs"

definition nonce_words :: "u256 \<Rightarrow> byte list list" where
  "nonce_words n = map (\<lambda>i. u256_to_be_bytes (of_nat i)) [0..<unat n]"

lemma last_word_preimage: "last_word (transfer_preimage m to n d k) = u256_to_be_bytes k"
  by (simp add: last_word_def transfer_preimage_def)

lemma nonce_words_Suc: "k \<noteq> - 1 \<Longrightarrow> nonce_words (k + 1) = nonce_words k @ [u256_to_be_bytes k]"
proof -
  assume "k \<noteq> - 1"
  then have "1 + k \<noteq> 0" by (metis add.commute eq_neg_iff_add_eq_0)
  then have "unat (k + 1) = Suc (unat k)" by (metis add.commute unatSuc)
  then show ?thesis by (simp add: nonce_words_def)
qed

lemma distinct_nonce_words: "distinct (nonce_words n)"
proof -
  have "i = j" if "i < unat n" "j < unat n" "u256_to_be_bytes (of_nat i) = u256_to_be_bytes (of_nat j)" for i j
  proof -
    from that(3) have "(of_nat i :: u256) = of_nat j" by (metis u256_be_roundtrip)
    moreover have "i < 2 ^ LENGTH(256)" "j < 2 ^ LENGTH(256)" using that(1,2) unat_bound [of n] by auto
    ultimately show ?thesis by (metis mod_less unat_of_nat)
  qed
  then show ?thesis by (auto simp: nonce_words_def distinct_map inj_on_def)
qed

definition hashed :: "('o, 'w) external \<Rightarrow> ('o, 'w) bank \<Rightarrow> bool" where
  "hashed X s \<longleftrightarrow> (\<exists>pres. ids initiated_id s = map (keccak X) pres \<and> map last_word pres = nonce_words (transfer_nonce s))"

lemma execute_initiated:
  "execute X m c s = Inr t \<Longrightarrow> transfer_nonce t = transfer_nonce s \<and> ids initiated_id t = ids initiated_id s \<or>
    (\<exists>to n d. transfer_nonce s \<noteq> - 1 \<and> transfer_nonce t = transfer_nonce s + 1 \<and>
       ids initiated_id t = ids initiated_id s @ [keccak X (transfer_preimage m to n d (transfer_nonce s))])"
proof (cases c)
  case (TransferHotPath to n d)
  assume "execute X m c s = Inr t"
  with TransferHotPath show ?thesis
    by (intro disjI2 exI [of _ to] exI [of _ n] exI [of _ d])
      (auto simp: transferHotPath_def guards ids_def split: if_split_asm option.split_asm)
qed (auto simp: bank_ops guards ids_def Let_def split: if_split_asm option.split_asm prod.split_asm)

lemma bank_step_hashed:
  assumes "bank_step X s t" "hashed X s"
  shows "hashed X t"
  using assms(1)
proof cases
  case (transaction m c)
  obtain pres where pres: "ids initiated_id s = map (keccak X) pres" "map last_word pres = nonce_words (transfer_nonce s)"
    using assms(2) by (auto simp: hashed_def)
  from execute_initiated [OF transaction] show ?thesis
  proof (elim disjE exE conjE)
    fix to n d
    assume "transfer_nonce s \<noteq> - 1" "transfer_nonce t = transfer_nonce s + 1"
      "ids initiated_id t = ids initiated_id s @ [keccak X (transfer_preimage m to n d (transfer_nonce s))]"
    with pres show ?thesis
      unfolding hashed_def
      by (intro exI [of _ "pres @ [transfer_preimage m to n d (transfer_nonce s)]"])
        (simp add: nonce_words_Suc last_word_preimage)
  qed (use assms(2) in \<open>simp add: hashed_def\<close>)
qed (use assms(2) in \<open>simp_all add: hashed_def ids_def\<close>)

text \<open>
  Every transfer gets its own event hash: the hashes a Bank has emitted since its deployment are
  the hashes of pairwise distinct texts, so two transfers have the same event hash only if the hash
  function collides.
\<close>

theorem event_hashes_of_distinct_texts:
  assumes "(bank_step X)\<^sup>*\<^sup>* s t" "fresh s"
  shows "\<exists>texts. distinct texts \<and> ids initiated_id t = map (keccak X) texts"
proof -
  have "hashed X s" using assms(2) by (simp add: hashed_def fresh_def ids_def nonce_words_def)
  with assms(1) have "hashed X t" by induction (auto intro: bank_step_hashed)
  then show ?thesis unfolding hashed_def by (metis distinct_map distinct_nonce_words)
qed

section \<open>Frozen and paused\<close>

fun blocked_by_freeze :: "bank_event \<Rightarrow> bool" where
  "blocked_by_freeze (Deposited u t n) = True"
| "blocked_by_freeze (HotPathInitiated from to n d h fee) = True"
| "blocked_by_freeze (HotPathReleased to n h) = True"
| "blocked_by_freeze _ = False"

lemma execute_frozen:
  "execute X m c s = Inr t \<Longrightarrow> frozen s \<Longrightarrow> frozen t \<and> filter blocked_by_freeze (emitted t) = filter blocked_by_freeze (emitted s)"
  by (cases c) (auto simp: bank_ops guards Let_def split: if_split_asm option.split_asm prod.split_asm)

text \<open>
  The freeze is final: once frozen for decommissioning, a Bank stays frozen and logs no deposit, no
  new transfer and no release any more, whoever calls it. (Withdrawals and the drain stay possible.)
\<close>

theorem freeze_is_final:
  assumes "(bank_step X)\<^sup>*\<^sup>* s t" "frozen s"
  shows "frozen t \<and> filter blocked_by_freeze (emitted t) = filter blocked_by_freeze (emitted s)"
  using assms(1)
proof induction
  case base
  then show ?case using assms(2) by simp
next
  case (step t u)
  from step(2) show ?case by cases (use step(3) execute_frozen in fastforce)+
qed

fun moves_money :: "bank_event \<Rightarrow> bool" where
  "moves_money (Deposited u t n) = True"
| "moves_money (Withdrawn u t n) = True"
| "moves_money (HotPathInitiated from to n d h fee) = True"
| "moves_money (HotPathReleased to n h) = True"
| "moves_money (RebalanceInitiated i c n) = True"
| "moves_money (RebalanceCompleted i c n) = True"
| "moves_money (ReserveBridgeInitiated i c n b) = True"
| "moves_money (ReserveBridgeCompleted i c n) = True"
| "moves_money _ = False"

text \<open>
  What the inherited code promises: \<open>_pause\<close> leaves the contract paused, the administration of roles does
  not touch the pause, and an initialised contract, the only one that can be paused, cannot be
  initialised again.
\<close>

definition inherits_ok :: "('o, 'w) external \<Rightarrow> bool" where
  "inherits_ok X \<longleftrightarrow> (\<forall>i j. super_pause X i = Some j \<longrightarrow> paused_of X j) \<and>
     (\<forall>i j. administers X i j \<longrightarrow> paused_of X j = paused_of X i) \<and>
     (\<forall>i a p. paused_of X i \<longrightarrow> super_initialize X a p i = None)"

definition shut :: "('o, 'w) external \<Rightarrow> ('o, 'w) bank \<Rightarrow> bool" where
  "shut X s \<longleftrightarrow> permanentPause s \<and> paused_of X (inherited s)"

lemma execute_shut:
  "execute X m c s = Inr t \<Longrightarrow> inherits_ok X \<Longrightarrow> shut X s \<Longrightarrow>
    shut X t \<and> filter moves_money (emitted t) = filter moves_money (emitted s) \<and> world t = world s"
  by (cases c) (auto simp: bank_ops guards shut_def inherits_ok_def Let_def split: if_split_asm option.split_asm prod.split_asm)

text \<open>
  C35. A permanent pause is final: after a successful \<open>pausePermanently\<close> the Bank never moves money again,
  in no run, whoever calls it and whatever roles are granted: no deposit, withdrawal, transfer, release
  or bridging is logged, and it never can be unpaused.
\<close>

theorem permanent_pause_is_final:
  assumes "pausePermanently X m r = Inr s" "(bank_step X)\<^sup>*\<^sup>* s t" "inherits_ok X"
  shows "paused_of X (inherited t) \<and> filter moves_money (emitted t) = filter moves_money (emitted r) \<and>
    (\<forall>m'. \<exists>e. unpause X m' t = Inl e)"
proof -
  have s: "shut X s" "filter moves_money (emitted s) = filter moves_money (emitted r)"
    using assms(1,3) by (auto simp: pausePermanently_def guards shut_def inherits_ok_def split: if_split_asm option.split_asm)
  from assms(2) have "shut X t \<and> filter moves_money (emitted t) = filter moves_money (emitted s)"
  proof induction
    case (step t u)
    from step(2) show ?case
    proof cases
      case (administration i)
      then show ?thesis using step(3) assms(3) by (auto simp: shut_def inherits_ok_def)
    qed (use step(3) execute_shut assms(3) in \<open>fastforce simp: shut_def\<close>)+
  qed (simp add: s)
  then show ?thesis using s(2) by (auto simp: shut_def unpause_def guards)
qed

text \<open>A Bank that is paused cannot be paused permanently: the inherited \<open>_pause\<close> refuses.\<close>

lemma paused_bank_not_retired:
  assumes "\<forall>i. paused_of X i \<longrightarrow> super_pause X i = None" "paused_of X (inherited s)"
  shows "\<exists>e. pausePermanently X m s = Inl e"
  using assms by (auto simp: pausePermanently_def guards)

section \<open>Concrete runs\<close>

text \<open>Everyone has every role, every token call succeeds, the only inherited storage is the pause flag.\<close>

definition sample_external :: "(bool, unit) external" where
  "sample_external =
     \<lparr>paused_of = id, super_pause = (\<lambda>p. if p then None else Some True),
      super_unpause = (\<lambda>p. if p then Some False else None), holds_role = (\<lambda>_ _ _. True),
      super_initialize = (\<lambda>_ _ _. None), administers = (\<lambda>p q. p = q),
      keccak = (\<lambda>bs. replicate 32 (of_nat (length bs))),
      balanceOf = (\<lambda>_ _ _. Some 1000), token_decimals = (\<lambda>_ _. Some 6),
      safeTransferFrom = (\<lambda>_ _ _ _ _. Some), safeTransfer = (\<lambda>_ _ _ _. Some), forceApprove = (\<lambda>_ _ _ _. Some),
      token_mint = (\<lambda>_ _ _ _. Some), token_burn = (\<lambda>_ _ _. Some), token_burnFrom = (\<lambda>_ _ _ _. Some),
      bridgeOut = (\<lambda>_ _ _ _ _ w. Some (replicate 32 1, w)), bridgeType = (\<lambda>_ _. Some (replicate 32 2))\<rparr>"

definition sample_bank :: "bool \<Rightarrow> (bool, unit) bank" where
  "sample_bank stopped =
     \<lparr>inherited = False, world = (), self = replicate 20 9, emitted = [], syncUSD = replicate 20 8,
      feeCollector = address_zero, transfer_nonce = 0, released = (\<lambda>_. False), allowedTokens = (\<lambda>_. True),
      maxRebalanceAmount = 100, ccipRouter = address_zero, allowlistedDestChains = (\<lambda>_. True),
      allowlistedSourceContracts = (\<lambda>_ _. False), processedMessages = (\<lambda>_. False), rebalanceNonce = 0,
      reserveToken = address_zero, reserveBridge = address_zero, maxReserveRebalanceAmount = 0,
      processedReserveMessages = (\<lambda>_. False), reserveDestinations = (\<lambda>_. address_zero),
      frozen = stopped, permanentPause = False\<rparr>"

definition sample_msg :: msg where
  "sample_msg = \<lparr>sender = replicate 20 1, chainid = 1\<rparr>"

lemma sample_bank_fresh: "fresh (sample_bank b)"
  by (simp add: fresh_def sample_bank_def)

lemma sample_inherits: "inherits_ok sample_external"
  by (simp add: inherits_ok_def sample_external_def)

lemma sample_nonzero: "replicate 20 (3 :: byte) \<noteq> address_zero"
  by (simp add: address_zero_def)

lemmas sample_defs = sample_external_def sample_bank_def sample_msg_def sample_nonzero guards

theorem bank_settles_once_witness:
  "\<exists>t. execute sample_external sample_msg (ReleaseHotPath (replicate 20 3) 500 (replicate 32 7)) (sample_bank False) = Inr t \<and>
     ids released_id t = [replicate 32 7] \<and> released t (replicate 32 7)"
proof -
  obtain t where t: "execute sample_external sample_msg (ReleaseHotPath (replicate 20 3) 500 (replicate 32 7)) (sample_bank False) = Inr t"
    "ids released_id t = [replicate 32 7]"
    by (simp add: releaseHotPath_def sample_defs ids_def)
  from bank_settles_once [OF run_of [OF t(1)] sample_bank_fresh] t show ?thesis by auto
qed

theorem event_hashes_of_distinct_texts_witness:
  "\<exists>t h texts. execute sample_external sample_msg (TransferHotPath (replicate 20 3) 500 2) (sample_bank False) = Inr t \<and>
     ids initiated_id t = [h] \<and> distinct texts \<and> map (keccak sample_external) texts = [h]"
proof -
  obtain t h where t: "execute sample_external sample_msg (TransferHotPath (replicate 20 3) 500 2) (sample_bank False) = Inr t"
    "ids initiated_id t = [h]"
    by (simp add: transferHotPath_def sample_defs ids_def)
  from event_hashes_of_distinct_texts [OF run_of [OF t(1)] sample_bank_fresh] t show ?thesis
    by metis
qed

theorem freeze_is_final_witness:
  "\<exists>t. execute sample_external sample_msg (Withdraw (replicate 20 8) 5) (sample_bank True) = Inr t \<and> frozen t \<and>
     filter blocked_by_freeze (emitted t) = []"
proof -
  obtain t where t: "execute sample_external sample_msg (Withdraw (replicate 20 8) 5) (sample_bank True) = Inr t"
    by (simp add: withdraw_def sample_defs)
  have "frozen (sample_bank True)" "emitted (sample_bank True) = []" by (simp_all add: sample_bank_def)
  with freeze_is_final [OF run_of [OF t(1)]] t show ?thesis by simp
qed

theorem permanent_pause_is_final_witness:
  "\<exists>s. pausePermanently sample_external sample_msg (sample_bank False) = Inr s \<and> paused_of sample_external (inherited s) \<and>
     (\<forall>m. \<exists>e. unpause sample_external m s = Inl e)"
proof -
  obtain s where s: "pausePermanently sample_external sample_msg (sample_bank False) = Inr s"
    by (simp add: pausePermanently_def sample_defs)
  from permanent_pause_is_final [OF s rtranclp.rtrancl_refl sample_inherits] s show ?thesis by blast
qed

end
