(* ===== verification/Settlement.thy ===== *)
theory Settlement
  imports RelayOnce BankSafety
begin

text \<open>
  The treasury and the Bank contracts together: how a transfer gets from the Bank of one chain through
  the relayer to the Bank of another chain and past the watcher, and why submitting a release more
  than once pays once.
\<close>

section \<open>Between the services and the contract\<close>

text \<open>The log of an event by the ABI, for the two events of the hot path.\<close>

fun bank_log :: "string \<Rightarrow> TxHash \<Rightarrow> bank_event \<Rightarrow> RpcLog option" where
  "bank_log topic tx (HotPathInitiated from to amount dest event_hash fee) = Some
     \<lparr>transaction_hash = tx, block_number = [], log_index = [],
      topics = [topic, hex_0x (replicate 12 0 @ from), hex_0x (replicate 12 0 @ to)],
      log_data = hex_0x (u256_to_be_bytes amount @ u256_to_be_bytes dest @ event_hash @ u256_to_be_bytes fee)\<rparr>"
| "bank_log topic tx (HotPathReleased to amount event_hash) = Some (released_log topic tx to event_hash amount)"
| "bank_log topic tx _ = None"

text \<open>The call a transaction with the call data of \<open>releaseHotPath\<close> makes.\<close>

definition release_request :: "byte list \<Rightarrow> bank_tx" where
  "release_request calldata =
     ReleaseHotPath (slice 16 36 calldata) (u256_from_be_bytes (slice 36 68 calldata)) (slice 68 100 calldata)"

lemma release_request_call:
  assumes "length (selector E ''releaseHotPath(address,uint256,bytes32)'') = 4"
    "length (he_recipient e) = 20" "length (he_event_id e) = 32"
  shows "release_request (release_call E e) = ReleaseHotPath (he_recipient e) (he_amount e) (he_event_id e)"
  using assms by (simp add: release_request_def release_call_def encode_release_hot_path_def slice_def)

lemma transferHotPath_emits:
  assumes "transferHotPath X m to amount dest s = Inr t"
  shows "emitted t = emitted s @ [HotPathInitiated (sender m) to amount dest
    (keccak X (transfer_preimage m to amount dest (transfer_nonce s))) 0]"
  using assms by (auto simp: transferHotPath_def guards split: if_split_asm option.split_asm)

lemma releaseHotPath_pays:
  assumes "releaseHotPath X m to amount h s = Inr t"
  shows "emitted t = emitted s @ [HotPathReleased to amount h]" "\<not> released s h" "released t h"
  using assms by (auto simp: releaseHotPath_def guards split: if_split_asm option.split_asm)

text \<open>The low eight bytes of a word.\<close>

lemma be_bytes_suffix: "drop n (be_bytes (n + k) v) = be_bytes k v"
  by (induction k arbitrary: v) simp_all

lemma low_bytes: "u64_from_be_bytes (drop 24 (u256_to_be_bytes d)) = ucast d"
proof -
  have "drop 24 (u256_to_be_bytes d) = be_bytes 8 (unat d)"
    using be_bytes_suffix [of 24 8 "unat d"] by (simp add: u256_to_be_bytes_def)
  then have "u64_from_be_bytes (drop 24 (u256_to_be_bytes d)) = of_nat (unat d mod 256 ^ 8)"
    by (simp add: u64_from_be_bytes_def be_value_be_bytes)
  also have "\<dots> = ucast d" by (rule word_unat_eq_iff [THEN iffD2]) (simp add: unat_of_nat unsigned_ucast_eq take_bit_eq_mod)
  finally show ?thesis .
qed

lemma parse_bank_log:
  assumes "length from = 20" "length to = 20" "length h = 32"
    "bank_log topic tx (HotPathInitiated from to amount dest h fee) = Some log"
  shows "parse_hot_path_event log c = Some \<lparr>he_source_chain_id = c, he_source_event_hash = tx, he_sender = hex_0x from,
      he_recipient = to, he_amount = amount, he_dest_chain_id = ucast dest, he_event_id = h\<rparr>"
    "parse_initiated_event log c = Some (h, \<lparr>ie_source_chain_id = c, ie_source_tx_hash = tx, ie_recipient = to, ie_amount = amount\<rparr>)"
proof -
  have "slice 24 32 (u256_to_be_bytes dest @ zs) = drop 24 (u256_to_be_bytes dest)" for zs by (simp add: slice_def)
  then show "parse_hot_path_event log c = Some \<lparr>he_source_chain_id = c, he_source_event_hash = tx, he_sender = hex_0x from,
      he_recipient = to, he_amount = amount, he_dest_chain_id = ucast dest, he_event_id = h\<rparr>"
    using assms by (auto simp: parse_hot_path_event_def slice_skip low_bytes)
  show "parse_initiated_event log c = Some (h, \<lparr>ie_source_chain_id = c, ie_source_tx_hash = tx, ie_recipient = to, ie_amount = amount\<rparr>)"
    using assms by (auto simp: parse_initiated_event_def slice_skip)
qed

lemma cache_logs_lookup:
  assumes "parse_initiated_event log c = Some (i, ev)"
    "\<forall>y\<in>set later. \<forall>ev'. parse_initiated_event y c \<noteq> Some (i, ev')"
  shows "cache_logs (earlier @ log # later) c cache i = Some ev"
proof -
  have "fold (\<lambda>(j, e) m. m(j \<mapsto> e)) xs m i = m i" if "i \<notin> fst ` set xs" for xs :: "(B256 \<times> InitiatedEvent) list" and m
    using that by (induction xs arbitrary: m) auto
  moreover have "i \<notin> fst ` set (filter_map (\<lambda>log. parse_initiated_event log c) later)"
    using assms(2) by (auto simp: set_filter_map)
  ultimately show ?thesis using assms(1) by (simp add: cache_logs_def)
qed

section \<open>A transfer from end to end\<close>

text \<open>A release that agrees with the cached initiation: nothing is sent, and it is recorded as verified.\<close>

lemma verified_quietly:
  assumes "\<forall>n. db_up E n" "initiated_cache w (re_transfer_id r) = Some i" "find_alert w (hex_0x (re_transfer_id r)) = None"
    "re_recipient r = ie_recipient i" "re_amount r = ie_amount i"
  shows "calls (snd (run_state (verify_release E cfg r) w)) = calls w"
    and "\<exists>a. find_alert (snd (run_state (verify_release E cfg r) w)) (hex_0x (re_transfer_id r)) = Some a \<and>
      al_alert_type a = alert_type_str Verified"
proof -
  have v: "classify r (Some i) = Verified" using assms(4,5) by (simp add: classify_def verify_against_def)
  then show "calls (snd (run_state (verify_release E cfg r) w)) = calls w" by (simp add: verify_release_calls assms(2))
  have "run_state (verify_release E cfg r) w =
      run_state (insert_alert E (hex_0x (re_transfer_id r)) Verified (alert_detail E r (Some i) None)) (tick_on E 0 w)"
    using assms(2,3) v by (simp add: verify_release_def run_already_verified verify_unrecorded_def)
  with find_alert_insert [OF assms(1), of "tick_on E 0 w" "hex_0x (re_transfer_id r)" Verified] assms(3)
  show "\<exists>a. find_alert (snd (run_state (verify_release E cfg r) w)) (hex_0x (re_transfer_id r)) = Some a \<and>
      al_alert_type a = alert_type_str Verified" by simp
qed

text \<open>
  C5. A transfer from end to end: when a user's \<open>transferHotPath\<close> succeeds on the source Bank, the relayer
  reads the log it emitted into an event; whenever the call the relayer submits for that event succeeds
  on a destination Bank, the release that Bank logs names the same recipient, amount and event hash;
  and a watcher that has cached the initiation from that log, has cached no later log with the same id
  and has no verdict for the id yet, while its database is up, sends nothing for the release and
  records it as \<open>Verified\<close>. The destination is read from the low eight bytes of the transfer's chain
  id. (Addresses have 20 bytes, the hash functions give 32. A watcher without the initiation in its cache
  flags the same release, and one with a verdict does not look at it.)
\<close>

theorem honest_transfer_verified:
  assumes "length (sender m1) = 20" "length to = 20" "\<forall>bs. length (keccak X1 bs) = 32" "\<forall>bs. length (keccak256 E bs) = 32"
    "\<forall>n. db_up E n" "execute X1 m1 (TransferHotPath to amount dest) b1 = Inr b1'"
    "bank_log t1 tx1 (last (emitted b1')) = Some log"
    "initiated_cache w = cache_logs (earlier @ log # later) source cache"
    "\<forall>y\<in>set later. map_option fst (parse_initiated_event y source) \<noteq> map_option fst (parse_initiated_event log source)"
    "\<forall>i ev. parse_initiated_event log source = Some (i, ev) \<longrightarrow> find_alert w (hex_0x i) = None"
  shows "\<exists>e. parse_hot_path_event log source = Some e \<and> (he_recipient e, he_amount e, he_dest_chain_id e) = (to, amount, ucast dest) \<and>
    (\<forall>X2 m2 b2 b2'. execute X2 m2 (release_request (release_call E e)) b2 = Inr b2' \<longrightarrow>
      (\<exists>log2 r a. bank_log t2 tx2 (last (emitted b2')) = Some log2 \<and> parse_released_event log2 (he_dest_chain_id e) = Some r \<and>
        (re_recipient r, re_amount r, re_transfer_id r) = (to, amount, he_event_id e) \<and>
        calls (snd (run_state (verify_release E cfg r) w)) = calls w \<and>
        find_alert (snd (run_state (verify_release E cfg r) w)) (hex_0x (he_event_id e)) = Some a \<and>
        al_alert_type a = alert_type_str Verified))"
proof -
  define h where "h = keccak X1 (transfer_preimage m1 to amount dest (transfer_nonce b1))"
  define e where "e = \<lparr>he_source_chain_id = source, he_source_event_hash = tx1, he_sender = hex_0x (sender m1),
      he_recipient = to, he_amount = amount, he_dest_chain_id = ucast dest, he_event_id = h\<rparr>"
  define i where "i = \<lparr>ie_source_chain_id = source, ie_source_tx_hash = tx1, ie_recipient = to, ie_amount = amount\<rparr>"
  have h: "length h = 32" using assms(3) by (simp add: h_def)
  have "last (emitted b1') = HotPathInitiated (sender m1) to amount dest h 0"
    using transferHotPath_emits [of X1 m1 to amount dest b1 b1'] assms(6) by (simp add: h_def)
  then have log: "bank_log t1 tx1 (HotPathInitiated (sender m1) to amount dest h 0) = Some log" using assms(7) by simp
  have e: "parse_hot_path_event log source = Some e" and i: "parse_initiated_event log source = Some (h, i)"
    using parse_bank_log [OF assms(1,2) h log] by (simp_all add: e_def i_def)
  have new: "find_alert w (hex_0x h) = None" using assms(10) i by blast
  have "\<forall>y\<in>set later. \<forall>ev'. parse_initiated_event y source \<noteq> Some (h, ev')" using assms(9) i by force
  from cache_logs_lookup [OF i this] have cached: "initiated_cache w h = Some i" by (simp add: assms(8))
  have req: "release_request (release_call E e) = ReleaseHotPath to amount h"
    using release_request_call [of E e] assms(2,4) h by (simp add: e_def selector_def)
  have "\<exists>log2 r a. bank_log t2 tx2 (last (emitted b2')) = Some log2 \<and> parse_released_event log2 (he_dest_chain_id e) = Some r \<and>
      (re_recipient r, re_amount r, re_transfer_id r) = (to, amount, h) \<and>
      calls (snd (run_state (verify_release E cfg r) w)) = calls w \<and>
      find_alert (snd (run_state (verify_release E cfg r) w)) (hex_0x h) = Some a \<and> al_alert_type a = alert_type_str Verified"
    if "execute X2 m2 (release_request (release_call E e)) b2 = Inr b2'" for X2 m2 b2 b2'
  proof -
    define r where "r = \<lparr>re_dest_chain_id = he_dest_chain_id e, re_dest_tx_hash = tx2, re_transfer_id = h,
        re_recipient = to, re_amount = amount\<rparr>"
    have "last (emitted b2') = HotPathReleased to amount h" using releaseHotPath_pays(1) [of X2 m2 to amount h b2 b2'] that by (simp add: req)
    moreover have "parse_released_event (released_log t2 tx2 to h amount) (he_dest_chain_id e) = Some r"
      using assms(2) h by (simp add: parse_released_log r_def)
    ultimately show ?thesis
      using verified_quietly [OF assms(5), of w r i cfg] cached new by (auto simp: r_def i_def)
  qed
  then show ?thesis using e by (auto simp: e_def)
qed

text \<open>
  C18. Submitting a release again pays nothing: once a Bank has executed the release of an event, every
  later call it receives for that event hash reverts, in any later state of the contract, from any
  sender and for any recipient and amount. So retries after a timeout, overlapping tasks and restarts
  of the relayer cannot pay a transfer twice.
\<close>

theorem resubmission_refused:
  assumes "length (selector E ''releaseHotPath(address,uint256,bytes32)'') = 4"
    "length (he_recipient e) = 20" "length (he_event_id e) = 32"
    "execute X m (release_request (release_call E e)) s = Inr t" "(bank_step X)\<^sup>*\<^sup>* t u"
  shows "\<exists>err. execute X m' (ReleaseHotPath to amount (he_event_id e)) u = Inl err"
proof -
  have "released t (he_event_id e)" using releaseHotPath_pays(3) assms(4) by (simp add: release_request_call [OF assms(1-3)])
  with hot_release.run_flag [OF assms(5)] have "released u (he_event_id e)" .
  then have "execute X m' (ReleaseHotPath to amount (he_event_id e)) u \<noteq> Inr v" for v
    using releaseHotPath_pays(2) by force
  then show ?thesis by (metis sumE)
qed

section \<open>Concrete runs\<close>

theorem honest_transfer_verified_witness:
  "\<exists>b log e b2 log2 r w a. execute sample_external sample_msg (TransferHotPath (replicate 20 3) 500 2) (sample_bank False) = Inr b \<and>
     bank_log ''t'' ''0xaa'' (last (emitted b)) = Some log \<and> parse_hot_path_event log 1 = Some e \<and>
     execute sample_external sample_msg (release_request (release_call (sample_env quantity_answer) e)) (sample_bank False) = Inr b2 \<and>
     bank_log ''r'' ''0xbb'' (last (emitted b2)) = Some log2 \<and> parse_released_event log2 (he_dest_chain_id e) = Some r \<and>
     (re_recipient r, re_amount r) = (replicate 20 3, 500) \<and> initiated_cache w = cache_logs [log] 1 Map.empty \<and>
     calls (snd (run_state (verify_release (sample_env quantity_answer) sample_config r) (w :: watcher))) = calls w \<and>
     find_alert (snd (run_state (verify_release (sample_env quantity_answer) sample_config r) w)) (hex_0x (he_event_id e)) = Some a \<and>
     al_alert_type a = alert_type_str Verified"
proof -
  let ?E = "sample_env quantity_answer"
  obtain b where b: "execute sample_external sample_msg (TransferHotPath (replicate 20 3) 500 2) (sample_bank False) = Inr b"
    by (simp add: transferHotPath_def sample_defs)
  then have "\<exists>h. last (emitted b) = HotPathInitiated (sender sample_msg) (replicate 20 3) 500 2 h 0 \<and> length h = 32"
    using transferHotPath_emits [of sample_external sample_msg "replicate 20 3" 500 2 "sample_bank False" b]
    by (simp add: sample_external_def)
  then obtain h log where h: "length h = 32" and log: "bank_log ''t'' ''0xaa'' (last (emitted b)) = Some log"
    "bank_log ''t'' ''0xaa'' (HotPathInitiated (sender sample_msg) (replicate 20 3) 500 2 h 0) = Some log" by auto
  have len: "length (sender sample_msg) = 20" "length (replicate 20 (3 :: byte)) = 20" "\<forall>bs. length (keccak sample_external bs) = 32"
    "\<forall>bs. length (keccak256 ?E bs) = 32"
    by (simp_all add: sample_msg_def sample_external_def sample_env_def)
  let ?w = "watcher_start (cache_logs [log] 1 Map.empty)"
  from honest_transfer_verified [where ?'d = bool and ?'e = unit, OF len sample_db_always b log(1), of ?w "[]" "[]" 1 Map.empty
      "''r''" "''0xbb''" sample_config] obtain e where e: "parse_hot_path_event log 1 = Some e"
    "\<And>b2. execute sample_external sample_msg (release_request (release_call ?E e)) (sample_bank False) = Inr b2 \<Longrightarrow>
      \<exists>log2 r a. bank_log ''r'' ''0xbb'' (last (emitted b2)) = Some log2 \<and> parse_released_event log2 (he_dest_chain_id e) = Some r \<and>
        (re_recipient r, re_amount r, re_transfer_id r) = (replicate 20 3, 500, he_event_id e) \<and>
        calls (snd (run_state (verify_release ?E sample_config r) ?w)) = calls ?w \<and>
        find_alert (snd (run_state (verify_release ?E sample_config r) ?w)) (hex_0x (he_event_id e)) = Some a \<and>
        al_alert_type a = alert_type_str Verified"
    by (fastforce simp: watcher_start_def find_alert_def find_row_def)
  have "length (selector ?E ''releaseHotPath(address,uint256,bytes32)'') = 4" using len(4) by (simp add: selector_def)
  moreover have ev: "he_recipient e = replicate 20 3" "he_amount e = 500" "he_event_id e = h"
    using parse_bank_log(1) [OF len(1,2) h log(2), of 1] e(1) by auto
  ultimately have "release_request (release_call ?E e) = ReleaseHotPath (replicate 20 3) 500 h"
    using release_request_call [of ?E e] h by simp
  then obtain b2 where b2: "execute sample_external sample_msg (release_request (release_call ?E e)) (sample_bank False) = Inr b2"
    by (simp add: releaseHotPath_def sample_defs)
  from e(2) [OF b2] obtain log2 r a where "bank_log ''r'' ''0xbb'' (last (emitted b2)) = Some log2"
    "parse_released_event log2 (he_dest_chain_id e) = Some r" "(re_recipient r, re_amount r) = (replicate 20 3, 500)"
    "calls (snd (run_state (verify_release ?E sample_config r) ?w)) = calls ?w"
    "find_alert (snd (run_state (verify_release ?E sample_config r) ?w)) (hex_0x (he_event_id e)) = Some a"
    "al_alert_type a = alert_type_str Verified" by auto
  moreover have "initiated_cache ?w = cache_logs [log] 1 Map.empty" by (simp add: watcher_start_def)
  ultimately show ?thesis using b log(1) e(1) b2 by blast
qed

theorem resubmission_refused_witness:
  "\<exists>t err. execute sample_external sample_msg (release_request (release_call (sample_env quantity_answer) sample_event)) (sample_bank False) = Inr t \<and>
     execute sample_external sample_msg (ReleaseHotPath (replicate 20 4) 1 (he_event_id sample_event)) t = Inl err"
proof -
  have len: "length (selector (sample_env quantity_answer) ''releaseHotPath(address,uint256,bytes32)'') = 4"
    "length (he_recipient sample_event) = 20" "length (he_event_id sample_event) = 32"
    by (simp_all add: selector_def sample_env_def sample_event_def)
  have "he_recipient sample_event = replicate 20 3" "he_amount sample_event = 500" by (simp_all add: sample_event_def)
  then obtain t where "execute sample_external sample_msg (release_request (release_call (sample_env quantity_answer) sample_event))
      (sample_bank False) = Inr t"
    by (simp add: release_request_call [OF len] releaseHotPath_def sample_defs)
  with resubmission_refused [OF len this rtranclp.rtrancl_refl] show ?thesis by blast
qed

end
