(* ===== verification/Oversight.thy ===== *)
theory Oversight
  imports Settlement
begin

text \<open>
  The watcher as a running module: its two pollers, the verification tasks they spawn, alert queries
  and restarts of the process, in any order. A verdict once recorded is final; what that means for a
  transfer that is released on two chains.
\<close>

section \<open>The running watcher\<close>

inductive watch_step :: "host \<Rightarrow> env \<Rightarrow> boot_config \<Rightarrow> watcher \<Rightarrow> watcher \<Rightarrow> bool" for H E cfg where
  initiated: "entry \<in> set (watched_chains (Config.truncate cfg)) \<Longrightarrow>
    run_state (poll_initiated_chain E entry) s = (r, t) \<Longrightarrow> watch_step H E cfg s t"
| released: "entry \<in> set (watched_chains (Config.truncate cfg)) \<Longrightarrow>
    run_state (poll_released_chain E entry) s = (r, t) \<Longrightarrow> watch_step H E cfg s t"
| verify: "released_tasks s = xs @ rel # ys \<Longrightarrow>
    run_state (verify_release E (Config.truncate cfg) rel) (s\<lparr>released_tasks := xs @ ys\<rparr>) = (r, t) \<Longrightarrow> watch_step H E cfg s t"
| query: "run_state (get_watcher_alerts E limit) s = (r, t) \<Longrightarrow> watch_step H E cfg s t"
| restart: "watch_step H E cfg s
    (watcher_new H E cfg (watcher_alerts s) (alert_seq s) \<lparr>now_ms = now, tick = n, calls = calls s\<rparr>)"

text \<open>A row of \<open>watcher_alerts\<close> is never changed or removed.\<close>

definition alerts_kept :: "'m watcher_scheme \<Rightarrow> 'm watcher_scheme \<Rightarrow> bool" where
  "alerts_kept s t \<longleftrightarrow> (\<forall>k a. find_alert s k = Some a \<longrightarrow> find_alert t k = Some a)"

lemma alerts_keptI: "watcher_alerts s = watcher_alerts t \<Longrightarrow> alerts_kept s t"
  by (simp add: alerts_kept_def find_alert_def)

interpretation verdicts: step_preorder "alerts_kept :: 'm watcher_scheme \<Rightarrow> _"
  by unfold_locales (auto simp: alerts_kept_def)

lemma insert_alert_kept: "step_rel alerts_kept (insert_alert E k a d)"
  by (auto simp: step_rel_def insert_alert_def run_db alerts_kept_def find_alert_def find_row_insert_row tick_on_def)

lemma quiet_kept:
  "step_rel alerts_kept (already_verified E k)" "step_rel alerts_kept (get_watcher_alerts E limit)"
  by (auto simp: step_rel_def run_already_verified get_watcher_alerts_def get_alert_ids_def run_db split_beta
      tick_on_def intro!: alerts_keptI)

lemma pause_kept: "step_rel alerts_kept (pause_contract E cfg r)"
  by (rule verdicts.from_keeps [OF alerts_keptI keeps_beyond_signer [OF beyond_signer_watcher(1) pause_contract_keeps]])

lemma verify_release_kept: "step_rel alerts_kept (verify_release E cfg r)"
  unfolding verify_release_def verify_unrecorded_def
  by (intro verdicts.rules quiet_kept pause_kept insert_alert_kept)

lemma beyond_sys_alerts: "beyond_sys (watcher_alerts :: 'm watcher_scheme \<Rightarrow> _)"
  unfolding beyond_sys_def by (intro allI impI, case_tac s, case_tac t, simp)

lemma poll_keeps_alerts:
  "keeps watcher_alerts (poll_initiated_chain E entry)" "keeps watcher_alerts (poll_released_chain E entry)"
  unfolding poll_initiated_chain_def poll_released_chain_def Let_def
  by (intro keeps keeps_modify fetch_keeps [THEN keeps_beyond_sys [OF beyond_sys_alerts]]; simp)+

lemma watch_step_kept: "watch_step H E cfg s t \<Longrightarrow> alerts_kept s t"
proof (induction rule: watch_step.induct)
  case (initiated entry s r t)
  then show ?case using keepsD [OF poll_keeps_alerts(1) initiated(2)] by (simp add: alerts_keptI)
next
  case (released entry s r t)
  then show ?case using keepsD [OF poll_keeps_alerts(2) released(2)] by (simp add: alerts_keptI)
next
  case (verify s xs rel ys r t)
  have "alerts_kept s (s\<lparr>released_tasks := xs @ ys\<rparr>)" by (simp add: alerts_keptI)
  with step_relD [OF verify_release_kept verify(2)] show ?case by (rule verdicts.trans [rotated])
next
  case (query limit s r t)
  from step_relD [OF quiet_kept(2) query] show ?case .
next
  case (restart s now n)
  show ?case by (auto simp: watcher_new_def split_beta intro!: alerts_keptI)
qed

section \<open>A transfer released on two chains\<close>

text \<open>
  C20. The watcher checks a transfer id once: after one release of an id has its verdict, a release of
  the same id on the Bank of another chain, which keeps its own record of releases and accepts the
  call, passes unseen, whatever its recipient and amount. In every later state of the watcher,
  restarts included, in which the database answers the verification's query, this query is all the
  verification does: it sends no pause and records nothing. (When the query fails, the release counts as
  new and is checked.)
\<close>

theorem replay_on_other_chain_unseen:
  assumes "find_alert w (hex_0x h) = Some verdict" "(watch_step H E cfg)\<^sup>*\<^sup>* w w'" "db_up E (tick w')"
    "length h = 32" "length to = 20" "execute X m (ReleaseHotPath to amount h) b = Inr b'"
  shows "\<exists>log r. bank_log topic tx (last (emitted b')) = Some log \<and> parse_released_event log c = Some r \<and>
    (re_dest_chain_id r, re_recipient r, re_amount r) = (c, to, amount) \<and>
    run_state (verify_release E (Config.truncate cfg) r) w' = ((), tick_on E 0 w') \<and>
    find_alert w' (hex_0x h) = Some verdict"
proof -
  define r where "r = \<lparr>re_dest_chain_id = c, re_dest_tx_hash = tx, re_transfer_id = h, re_recipient = to, re_amount = amount\<rparr>"
  have "alerts_kept w w'" using assms(2) watch_step_kept by (rule verdicts.reachable)
  then have seen: "find_alert w' (hex_0x h) = Some verdict" using assms(1) by (simp add: alerts_kept_def)
  have "run_state (verify_release E (Config.truncate cfg) r) w' = ((), tick_on E 0 w')"
    unfolding verify_release_def using assms(3) seen by (intro alert_once.recorded_noop) (simp_all add: r_def)
  moreover have "last (emitted b') = HotPathReleased to amount h" using releaseHotPath_pays(1) [of X m to amount h b b'] assms(6) by simp
  moreover have "parse_released_event (released_log topic tx to h amount) c = Some r"
    using assms(4,5) by (simp add: parse_released_log r_def)
  ultimately show ?thesis using seen by (auto simp: r_def)
qed

theorem replay_on_other_chain_unseen_witness:
  "\<exists>w log r b. execute sample_external sample_msg (ReleaseHotPath (replicate 20 3) 900 (replicate 32 7)) (sample_bank False) = Inr b \<and>
     bank_log ''r'' ''0xbb'' (last (emitted b)) = Some log \<and> parse_released_event log 1 = Some r \<and> re_amount r = 900 \<and>
     run_state (verify_release (sample_env quantity_answer) sample_config r) (w :: watcher) = ((), tick_on (sample_env quantity_answer) 0 w)"
proof -
  define a where "a = \<lparr>al_id = 1, al_source_event_hash = hex_0x (replicate 32 7), al_alert_type = ''Verified'', al_detail = []\<rparr>"
  define w where "w = (watcher_start Map.empty)\<lparr>watcher_alerts := [a]\<rparr>"
  have w: "find_alert w (hex_0x (replicate 32 7)) = Some a" by (simp add: w_def a_def find_alert_def find_row_def)
  obtain b where b: "execute sample_external sample_msg (ReleaseHotPath (replicate 20 3) 900 (replicate 32 7)) (sample_bank False) = Inr b"
    by (simp add: releaseHotPath_def sample_defs)
  have "length (replicate 32 (7 :: byte)) = 32" "length (replicate 20 (3 :: byte)) = 20" by simp_all
  from replay_on_other_chain_unseen [OF w rtranclp.rtrancl_refl sample_db_always [of quantity_answer, rule_format] this b, where cfg = sample_boot and topic = "''r''"
      and tx = "''0xbb''" and c = 1] b show ?thesis
    by (auto simp: boot_truncate)
qed

end
