(* ===== verification/RouteReceiver.thy ===== *)
theory RouteReceiver
  imports BankSafety HotPath
begin

text \<open>
  The RouteReceiver contract (\<open>packages/onchain/foundry/src/RouteReceiver.sol\<close>): publishers, the
  routes and activation states they publish with replay protection, the decommissioning of chains,
  and what the route receiver loop of the treasury sees of its events.
\<close>

section \<open>Storage, errors, events\<close>

record receiver_msg = msg +
  block_timestamp :: u256

record RouteRecord =
  rt_runId :: string
  rt_recommendedChain :: string
  rt_score :: u256
  rt_timestamp :: u256

datatype receiver_error =
    ContractPaused
  | StringTooLong
  | ChainAlreadyDecommissioned u256
  | ChainNotDraining u256
  | ActivationTouchesDecommissionedChain u256
  | Require string
  | Overflow

datatype receiver_event =
    RoutePublished string string string string u256 u256 u256
  | ActivationPublished string string string u256 string string u256 u256
  | PublisherAdded Address
  | PublisherRemoved Address
  | OwnershipTransferStarted Address Address
  | OwnershipTransferred Address Address
  | Paused Address
  | Unpaused Address
  | ChainDecommissioningMarked u256
  | ChainDecommissionFinalized u256

record receiver =
  rr_owner :: Address
  rr_pendingOwner :: Address
  rr_paused :: bool
  rr_publishers :: "Address \<Rightarrow> bool"
  rr_latestRoutes :: "string \<Rightarrow> RouteRecord"
  rr_publishedRouteRuns :: "string \<Rightarrow> bool"
  rr_publishedActivationRuns :: "string \<Rightarrow> bool"
  rr_draining :: "u256 \<Rightarrow> bool"
  rr_decommissioned :: "u256 \<Rightarrow> bool"
  rr_events :: "receiver_event list"

type_synonym receiver_call = "receiver \<Rightarrow> receiver_error + receiver"

definition publish :: "receiver_event \<Rightarrow> receiver \<Rightarrow> receiver_error + receiver" where
  "publish e s = Inr (s\<lparr>rr_events := rr_events s @ [e]\<rparr>)"

definition require :: "bool \<Rightarrow> receiver_error \<Rightarrow> receiver_call \<Rightarrow> receiver_call" where
  "require c e k s = (if c then k s else Inl e)"

text \<open>The modifiers \<open>onlyOwner\<close>, \<open>onlyPublisher\<close> and \<open>whenNotPaused\<close>.\<close>

definition onlyOwner :: "receiver_msg \<Rightarrow> receiver_call \<Rightarrow> receiver_call" where
  "onlyOwner m k s = require (sender m = rr_owner s) (Require ''RouteReceiver: not owner'') k s"

definition onlyPublisher :: "receiver_msg \<Rightarrow> receiver_call \<Rightarrow> receiver_call" where
  "onlyPublisher m k s = require (rr_publishers s (sender m)) (Require ''RouteReceiver: not authorized publisher'') k s"

definition whenReceiverNotPaused :: "receiver_call \<Rightarrow> receiver_call" where
  "whenReceiverNotPaused k s = require (\<not> rr_paused s) ContractPaused k s"

section \<open>Management\<close>

definition addPublisher :: "receiver_msg \<Rightarrow> Address \<Rightarrow> receiver_call" where
  "addPublisher m p = onlyOwner m (require (p \<noteq> address_zero) (Require ''RouteReceiver: zero address'')
     (\<lambda>s. publish (PublisherAdded p) (s\<lparr>rr_publishers := (rr_publishers s)(p := True)\<rparr>)))"

definition removePublisher :: "receiver_msg \<Rightarrow> Address \<Rightarrow> receiver_call" where
  "removePublisher m p = onlyOwner m
     (\<lambda>s. publish (PublisherRemoved p) (s\<lparr>rr_publishers := (rr_publishers s)(p := False)\<rparr>))"

definition transferOwnership :: "receiver_msg \<Rightarrow> Address \<Rightarrow> receiver_call" where
  "transferOwnership m a = onlyOwner m (require (a \<noteq> address_zero) (Require ''RouteReceiver: zero address'')
     (\<lambda>s. publish (OwnershipTransferStarted (rr_owner s) a) (s\<lparr>rr_pendingOwner := a\<rparr>)))"

definition acceptOwnership :: "receiver_msg \<Rightarrow> receiver_call" where
  "acceptOwnership m s = require (sender m = rr_pendingOwner s) (Require ''RouteReceiver: not pending owner'')
     (\<lambda>s. publish (OwnershipTransferred (rr_owner s) (rr_pendingOwner s))
        (s\<lparr>rr_owner := rr_pendingOwner s, rr_pendingOwner := address_zero\<rparr>)) s"

definition pause_receiver :: "receiver_msg \<Rightarrow> receiver_call" where
  "pause_receiver m = onlyOwner m (\<lambda>s. publish (Paused (sender m)) (s\<lparr>rr_paused := True\<rparr>))"

definition unpause_receiver :: "receiver_msg \<Rightarrow> receiver_call" where
  "unpause_receiver m = onlyOwner m (\<lambda>s. publish (Unpaused (sender m)) (s\<lparr>rr_paused := False\<rparr>))"

section \<open>Decommissioning\<close>

definition markDecommissioning :: "receiver_msg \<Rightarrow> u256 \<Rightarrow> receiver_call" where
  "markDecommissioning m c = onlyOwner m (whenReceiverNotPaused (\<lambda>s.
     require (\<not> rr_decommissioned s c) (ChainAlreadyDecommissioned c)
       (\<lambda>s. publish (ChainDecommissioningMarked c) (s\<lparr>rr_draining := (rr_draining s)(c := True)\<rparr>)) s))"

definition finalizeDecommission :: "receiver_msg \<Rightarrow> u256 \<Rightarrow> receiver_call" where
  "finalizeDecommission m c = onlyOwner m (whenReceiverNotPaused (\<lambda>s.
     require (\<not> rr_decommissioned s c) (ChainAlreadyDecommissioned c)
       (require (rr_draining s c) (ChainNotDraining c)
         (\<lambda>s. publish (ChainDecommissionFinalized c) (s\<lparr>rr_decommissioned := (rr_decommissioned s)(c := True)\<rparr>))) s))"

section \<open>Publishing\<close>

definition publishRoute ::
  "receiver_msg \<Rightarrow> string \<Rightarrow> string \<Rightarrow> string \<Rightarrow> u256 \<Rightarrow> u256 \<Rightarrow> receiver_call" where
  "publishRoute m runId customerId recommendedChain score timestamp = onlyPublisher m (whenReceiverNotPaused (\<lambda>s.
     require (length runId \<le> 128) StringTooLong
       (require (length customerId \<le> 128) StringTooLong
         (require (length recommendedChain \<le> 128) StringTooLong
           (require (\<not> rr_publishedRouteRuns s runId) (Require ''RouteReceiver: runId already published'')
             (\<lambda>s. publish (RoutePublished runId runId customerId recommendedChain score timestamp (block_timestamp m))
               (s\<lparr>rr_publishedRouteRuns := (rr_publishedRouteRuns s)(runId := True),
                  rr_latestRoutes := (rr_latestRoutes s)(customerId :=
                    \<lparr>rt_runId = runId, rt_recommendedChain = recommendedChain, rt_score = score,
                     rt_timestamp = timestamp\<rparr>)\<rparr>))))) s))"

text \<open>The scan of a list of chains; the loop reads one comma beyond the text.\<close>

definition is_digit :: "char \<Rightarrow> bool" where
  "is_digit ch \<longleftrightarrow> 48 \<le> (of_char ch :: nat) \<and> (of_char ch :: nat) \<le> 57"

fun scan_csv :: "(u256 \<Rightarrow> bool) \<Rightarrow> u256 \<Rightarrow> bool \<Rightarrow> bool \<Rightarrow> string \<Rightarrow> receiver_error option" where
  "scan_csv dec cur in_token numeric [] = None"
| "scan_csv dec cur in_token numeric (ch # cs) =
     (if is_digit ch then
        (if unat cur * 10 + (of_char ch - 48) < 2 ^ 256
         then scan_csv dec (cur * 10 + of_nat (of_char ch - 48)) True True cs
         else Some Overflow)
      else if ch \<noteq> CHR '','' \<and> ch \<noteq> CHR '' '' then scan_csv dec cur True False cs
      else if in_token \<and> numeric \<and> dec cur then Some (ActivationTouchesDecommissionedChain cur)
      else scan_csv dec 0 False False cs)"

definition rejectDecommissionedChains :: "string \<Rightarrow> receiver \<Rightarrow> receiver_error option" where
  "rejectDecommissionedChains csv s = scan_csv (rr_decommissioned s) 0 False False (csv @ '','')"

definition rejecting :: "string \<Rightarrow> receiver_call \<Rightarrow> receiver_call" where
  "rejecting csv k s = (case rejectDecommissionedChains csv s of Some e \<Rightarrow> Inl e | None \<Rightarrow> k s)"

definition publishActivationState ::
  "receiver_msg \<Rightarrow> string \<Rightarrow> string \<Rightarrow> u256 \<Rightarrow> string \<Rightarrow> string \<Rightarrow> u256 \<Rightarrow> receiver_call" where
  "publishActivationState m runId customerId thresholdBps active inactive timestamp =
     onlyPublisher m (whenReceiverNotPaused (\<lambda>s.
       require (length runId \<le> 128) StringTooLong
         (require (length customerId \<le> 128) StringTooLong
           (require (length active \<le> 512) StringTooLong
             (require (length inactive \<le> 512) StringTooLong
               (require (\<not> rr_publishedActivationRuns s runId) (Require ''RouteReceiver: runId already published'')
                 (rejecting active (rejecting inactive
                   (\<lambda>s. publish (ActivationPublished runId runId customerId thresholdBps active inactive timestamp (block_timestamp m))
                     (s\<lparr>rr_publishedActivationRuns := (rr_publishedActivationRuns s)(runId := True)\<rparr>)))))))) s))"

section \<open>Reads\<close>

definition getLatestRoute :: "string \<Rightarrow> receiver \<Rightarrow> string \<times> string \<times> u256 \<times> u256" where
  "getLatestRoute customerId s = (let r = rr_latestRoutes s customerId in
     (rt_runId r, rt_recommendedChain r, rt_score r, rt_timestamp r))"

definition getChainDecommissionStatus :: "u256 \<Rightarrow> receiver \<Rightarrow> bool \<times> bool" where
  "getChainDecommissionStatus c s = (rr_draining s c, rr_decommissioned s c)"

definition getLatestRouteWithChainState ::
  "string \<Rightarrow> u256 \<Rightarrow> receiver \<Rightarrow> (string \<times> string \<times> u256 \<times> u256) \<times> bool \<times> bool" where
  "getLatestRouteWithChainState customerId c s = (getLatestRoute customerId s, getChainDecommissionStatus c s)"

definition isRouteRunPublished :: "string \<Rightarrow> receiver \<Rightarrow> bool" where
  "isRouteRunPublished runId s = rr_publishedRouteRuns s runId"

definition isActivationRunPublished :: "string \<Rightarrow> receiver \<Rightarrow> bool" where
  "isActivationRunPublished runId s = rr_publishedActivationRuns s runId"

section \<open>Runs of the contract\<close>

datatype receiver_tx =
    AddPublisher Address
  | RemovePublisher Address
  | TransferOwnership Address
  | AcceptOwnership
  | PauseReceiver
  | UnpauseReceiver
  | MarkDecommissioning u256
  | FinalizeDecommission u256
  | PublishRoute string string string u256 u256
  | PublishActivationState string string u256 string string u256

fun receive :: "receiver_msg \<Rightarrow> receiver_tx \<Rightarrow> receiver_call" where
  "receive m (AddPublisher p) = addPublisher m p"
| "receive m (RemovePublisher p) = removePublisher m p"
| "receive m (TransferOwnership a) = transferOwnership m a"
| "receive m AcceptOwnership = acceptOwnership m"
| "receive m PauseReceiver = pause_receiver m"
| "receive m UnpauseReceiver = unpause_receiver m"
| "receive m (MarkDecommissioning c) = markDecommissioning m c"
| "receive m (FinalizeDecommission c) = finalizeDecommission m c"
| "receive m (PublishRoute i cu re sc ts) = publishRoute m i cu re sc ts"
| "receive m (PublishActivationState i cu th ac ina ts) = publishActivationState m i cu th ac ina ts"

definition receiver_step :: "receiver \<Rightarrow> receiver \<Rightarrow> bool" where
  "receiver_step s t \<longleftrightarrow> (\<exists>m c. receive m c s = Inr t)"

lemmas receiver_ops = addPublisher_def removePublisher_def transferOwnership_def acceptOwnership_def pause_receiver_def
  unpause_receiver_def markDecommissioning_def finalizeDecommission_def publishRoute_def publishActivationState_def
  onlyOwner_def onlyPublisher_def whenReceiverNotPaused_def require_def rejecting_def publish_def

fun route_run :: "receiver_event \<Rightarrow> string option" where
  "route_run (RoutePublished h i cu re sc ts b) = Some i"
| "route_run _ = None"

fun activation_run :: "receiver_event \<Rightarrow> string option" where
  "activation_run (ActivationPublished h i cu th ac ina ts b) = Some i"
| "activation_run _ = None"

fun finalized_chain :: "receiver_event \<Rightarrow> u256 option" where
  "finalized_chain (ChainDecommissionFinalized c) = Some c"
| "finalized_chain _ = None"

definition noted :: "(receiver_event \<Rightarrow> 'k option) \<Rightarrow> receiver \<Rightarrow> 'k list" where
  "noted f s = filter_map f (rr_events s)"

interpretation route_runs: flag_guard receiver_step rr_publishedRouteRuns "noted route_run"
proof unfold_locales
  fix s t assume "receiver_step s t"
  then obtain m c where "receive m c s = Inr t" by (auto simp: receiver_step_def)
  then show "rr_publishedRouteRuns t = rr_publishedRouteRuns s \<and> noted route_run t = noted route_run s \<or>
      (\<exists>k. \<not> rr_publishedRouteRuns s k \<and> rr_publishedRouteRuns t = (rr_publishedRouteRuns s)(k := True) \<and>
        noted route_run t = noted route_run s @ [k])"
    by (cases c) (auto simp: receiver_ops noted_def split: if_split_asm option.split_asm)
qed

interpretation activation_runs: flag_guard receiver_step rr_publishedActivationRuns "noted activation_run"
proof unfold_locales
  fix s t assume "receiver_step s t"
  then obtain m c where "receive m c s = Inr t" by (auto simp: receiver_step_def)
  then show "rr_publishedActivationRuns t = rr_publishedActivationRuns s \<and> noted activation_run t = noted activation_run s \<or>
      (\<exists>k. \<not> rr_publishedActivationRuns s k \<and> rr_publishedActivationRuns t = (rr_publishedActivationRuns s)(k := True) \<and>
        noted activation_run t = noted activation_run s @ [k])"
    by (cases c) (auto simp: receiver_ops noted_def split: if_split_asm option.split_asm)
qed

interpretation finalized: flag_guard receiver_step rr_decommissioned "noted finalized_chain"
proof unfold_locales
  fix s t assume "receiver_step s t"
  then obtain m c where "receive m c s = Inr t" by (auto simp: receiver_step_def)
  then show "rr_decommissioned t = rr_decommissioned s \<and> noted finalized_chain t = noted finalized_chain s \<or>
      (\<exists>k. \<not> rr_decommissioned s k \<and> rr_decommissioned t = (rr_decommissioned s)(k := True) \<and>
        noted finalized_chain t = noted finalized_chain s @ [k])"
    by (cases c) (auto simp: receiver_ops noted_def split: if_split_asm option.split_asm)
qed

definition unused :: "receiver \<Rightarrow> bool" where
  "unused s \<longleftrightarrow> rr_events s = [] \<and> (\<forall>i. \<not> rr_publishedRouteRuns s i) \<and> (\<forall>i. \<not> rr_publishedActivationRuns s i) \<and>
     (\<forall>c. \<not> rr_decommissioned s c)"

lemma receive_drains_first:
  assumes "receiver_step s t" "\<forall>c. rr_decommissioned s c \<longrightarrow> rr_draining s c"
  shows "\<forall>c. rr_decommissioned t c \<longrightarrow> rr_draining t c"
proof -
  from assms(1) obtain m c where "receive m c s = Inr t" by (auto simp: receiver_step_def)
  then show ?thesis using assms(2) by (cases c) (auto simp: receiver_ops split: if_split_asm option.split_asm)
qed

text \<open>
  The RouteReceiver publishes each run once and decommissions for good: in every run of the contract
  from its deployment no route run and no activation run is published twice, a chain is finalised
  at most once and only after it was marked as draining, and a finalised chain stays finalised.
\<close>

theorem receiver_publishes_once:
  assumes "receiver_step\<^sup>*\<^sup>* s t" "unused s" "receiver_step\<^sup>*\<^sup>* t u"
  shows "distinct (noted route_run t) \<and> distinct (noted activation_run t) \<and> distinct (noted finalized_chain t) \<and>
    (\<forall>c. rr_decommissioned t c \<longrightarrow> rr_draining t c \<and> rr_decommissioned u c)"
proof -
  have "route_runs.consistent s" "activation_runs.consistent s" "finalized.consistent s"
    using assms(2) by (simp_all add: unused_def noted_def route_runs.consistent_def activation_runs.consistent_def
        finalized.consistent_def)
  then have "route_runs.consistent t" "activation_runs.consistent t" "finalized.consistent t"
    using route_runs.run_consistent activation_runs.run_consistent finalized.run_consistent assms(1) by blast+
  moreover have "\<forall>c. rr_decommissioned t c \<longrightarrow> rr_draining t c"
    using assms(1)
  proof induction
    case base
    show ?case using assms(2) by (simp add: unused_def)
  qed (rule receive_drains_first)
  ultimately show ?thesis using finalized.run_flag [OF assms(3)]
    by (auto simp: route_runs.consistent_def activation_runs.consistent_def finalized.consistent_def)
qed

section \<open>The scan and the services' parser\<close>

lemma scan_split:
  assumes "CHR '','' \<notin> set xs" "scan_csv dec cur i n (xs @ CHR '','' # ys) = None"
  shows "scan_csv dec cur i n (xs @ '','') = None \<and> scan_csv dec 0 False False ys = None"
  using assms by (induction xs arbitrary: cur i n) (auto simp: is_digit_def split: if_split_asm)

lemma scan_pieces:
  assumes "scan_csv dec 0 False False (csv @ '','') = None" "w \<in> set (split_on CHR '','' csv)"
  shows "scan_csv dec 0 False False (w @ '','') = None"
  using assms
proof (induction csv rule: length_induct)
  case (1 csv)
  show ?case
  proof (cases "CHR '','' \<in> set csv")
    case False
    then show ?thesis using 1(2,3) by (simp add: split_on_no_sep)
  next
    case True
    then obtain xs ys where csv: "csv = xs @ CHR '','' # ys" "CHR '','' \<notin> set xs" using split_list_first by metis
    from scan_split [OF csv(2)] 1(2) have "scan_csv dec 0 False False (xs @ '','') = None" "scan_csv dec 0 False False (ys @ '','') = None"
      by (auto simp: csv(1))
    moreover have "length ys < length csv" by (simp add: csv(1))
    moreover have "w = xs \<or> w \<in> set (split_on CHR '','' ys)" using 1(3) by (simp add: csv split_on_append)
    ultimately show ?thesis using 1(1) by blast
  qed
qed

lemma split_on_set: "w \<in> set (split_on sep csv) \<Longrightarrow> set w \<subseteq> set csv"
  by (induction csv arbitrary: w) (fastforce split: if_split_asm list.split_asm)+

lemma digit_val_10: "digit_val 10 ch = (if is_digit ch then Some (of_char ch - 48) else None)"
  by (auto simp: digit_val_def is_digit_def Let_def)

lemma radix_loop_bound: "radix_loop r b acc ds = Inr v \<Longrightarrow> acc < b \<Longrightarrow> v < b"
  by (induction ds arbitrary: acc) (auto split: option.split_asm if_split_asm)

lemma scan_blanks: "set bs \<subseteq> {CHR '' ''} \<Longrightarrow> scan_csv dec 0 False False (bs @ zs) = scan_csv dec 0 False False zs"
  by (induction bs) (auto simp: is_digit_def)

lemma scan_digits:
  assumes "radix_loop 10 (2 ^ 64) acc ds = Inr v" "acc < 2 ^ 64" "ds \<noteq> []"
  shows "scan_csv dec (of_nat acc) i n (ds @ zs) = scan_csv dec (of_nat v) True True zs"
  using assms
proof (induction ds arbitrary: acc i n)
  case (Cons ch ds)
  from Cons.prems(1) have d: "is_digit ch" "acc * 10 + (of_char ch - 48) < 2 ^ 64"
    "radix_loop 10 (2 ^ 64) (acc * 10 + (of_char ch - 48)) ds = Inr v"
    by (auto simp: digit_val_10 split: if_split_asm)
  have "unat (of_nat acc :: u256) = acc" using Cons.prems(2) by (simp add: unat_of_nat)
  then have "scan_csv dec (of_nat acc) i n ((ch # ds) @ zs) =
      scan_csv dec (of_nat (acc * 10 + (of_char ch - 48))) True True (ds @ zs)"
    using d(1,2) by simp
  also have "\<dots> = scan_csv dec (of_nat v) True True zs"
    using Cons.IH [OF d(3,2)] d(3) by (cases "ds = []") auto
  finally show ?case .
qed simp

lemma trim_parts: "\<exists>b1 b2. w = b1 @ trim w @ b2 \<and> (\<forall>x\<in>set b1 \<union> set b2. is_space x)"
proof -
  let ?u = "dropWhile is_space w"
  have w: "w = takeWhile is_space w @ ?u" by simp
  have u: "?u = trim w @ rev (takeWhile is_space (rev ?u))"
    unfolding trim_def by (metis rev_append rev_rev_ident takeWhile_dropWhile_id)
  from w u have "w = takeWhile is_space w @ trim w @ rev (takeWhile is_space (rev ?u))" by metis
  then show ?thesis by (intro exI [of _ "takeWhile is_space w"] exI [of _ "rev (takeWhile is_space (rev ?u))"])
      (auto dest: set_takeWhileD)
qed

definition plain :: "char \<Rightarrow> bool" where
  "plain ch \<longleftrightarrow> is_digit ch \<or> ch = CHR '','' \<or> ch = CHR '' ''"

lemma scan_piece:
  assumes "scan_csv dec 0 False False (w @ '','') = None" "\<forall>ch\<in>set w. plain ch" "parse_u64 (trim w) = Some c"
  shows "\<not> dec (ucast c)"
proof -
  obtain b1 b2 where w: "w = b1 @ trim w @ b2" "\<forall>x\<in>set b1 \<union> set b2. is_space x" using trim_parts by blast
  have blank: "x = CHR '' ''" if "x \<in> set b1 \<union> set b2" for x
  proof -
    have "x \<in> set w" using that w(1) by (metis UnE UnI1 UnI2 set_append)
    with assms(2) have "plain x" by blast
    moreover have "is_space x" using that w(2) by blast
    ultimately show ?thesis by (auto simp: plain_def is_digit_def is_space_def Let_def)
  qed
  have nonempty: "trim w \<noteq> []" using assms(3) by (auto simp: from_str_radix_def parse_radix_def)
  have "set w = set b1 \<union> (set (trim w) \<union> set b2)" using arg_cong [OF w(1), of set] by (simp only: set_append)
  moreover have "\<not> plain CHR ''+''" by (simp add: plain_def is_digit_def)
  ultimately have "CHR ''+'' \<notin> set (trim w)" using assms(2) by blast
  then have "parse_radix 10 (2 ^ 64) (trim w) = radix_loop 10 (2 ^ 64) 0 (trim w)"
    using nonempty by (auto simp: parse_radix_def split: list.split)
  then obtain v where v: "radix_loop 10 (2 ^ 64) 0 (trim w) = Inr v" "c = of_nat v"
    using assms(3) by (cases "radix_loop 10 (2 ^ 64) 0 (trim w)") (auto simp: from_str_radix_def)
  have "v < 2 ^ 64" using radix_loop_bound [OF v(1)] by simp
  then have c: "ucast c = (of_nat v :: u256)"
    by (simp add: v(2) word_unat_eq_iff unsigned_ucast_eq unat_of_nat take_bit_nat_eq_self)
  have "scan_csv dec 0 False False (b1 @ trim w @ b2 @ '','') = None" using assms(1) w(1) by (metis append.assoc)
  then have "scan_csv dec (of_nat v) True True (b2 @ '','') = None"
    using scan_blanks [of b1] blank scan_digits [OF v(1) _ nonempty] by (auto simp: subset_eq)
  moreover obtain x zs where "b2 @ '','' = x # zs" "x = CHR '' '' \<or> x = CHR '',''" using blank by (cases b2) auto
  ultimately show ?thesis unfolding c by (auto simp: is_digit_def split: if_split_asm)
qed

text \<open>
  C34. What the RouteReceiver lets through names no finalised chain: when an activation state is
  published whose list is made of digits, commas and blanks, then no chain the treasury's parser
  reads from that list is finalised as decommissioned on the contract, and neither of the inactive list.
\<close>

theorem activation_names_no_finalized_chain:
  assumes "publishActivationState m i cu th active inactive ts s = Inr t"
    "csv = active \<or> csv = inactive" "\<forall>ch\<in>set csv. plain ch" "c \<in> parse_chains_csv csv"
  shows "\<not> rr_decommissioned s (ucast c) \<and> \<not> rr_decommissioned t (ucast c)"
proof -
  have scan: "rejectDecommissionedChains csv s = None" and same: "rr_decommissioned t = rr_decommissioned s"
    using assms(1,2) by (auto simp: receiver_ops split: if_split_asm option.split_asm)
  from assms(4) obtain w where w: "w \<in> set (split_on CHR '','' csv)" "parse_u64 (trim w) = Some c"
    by (auto simp: parse_chains_csv_def set_filter_map)
  have "set w \<subseteq> set csv" using w(1) by (rule split_on_set)
  with scan_piece [OF scan_pieces [OF scan [unfolded rejectDecommissionedChains_def] w(1)] _ w(2)] assms(3) same
  show ?thesis by auto
qed

text \<open>
  The scan and the services' parser do not agree on white space: a chain id followed by a tab is
  passed by the scan, whatever chains are finalised, and read as that chain by the treasury's parser.
\<close>

theorem tab_hides_finalized_chain:
  "rejectDecommissionedChains (show_nat (unat c) @ [CHR 0x09]) s = None \<and>
   parse_chains_csv (show_nat (unat c) @ [CHR 0x09]) = {c}"
proof -
  let ?d = "show_nat (unat c)"
  have "unat c < 2 ^ 64" using unat_bound [of c] by simp
  then have "radix_loop 10 (2 ^ 64) 0 ?d = Inr (unat c)" by (simp add: radix_loop_show_base)
  from scan_digits [OF this, of "rr_decommissioned s" False False "[CHR 0x09, CHR '','']"]
  have "rejectDecommissionedChains (?d @ [CHR 0x09]) s = None"
    by (simp add: rejectDecommissionedChains_def is_digit_def)
  moreover have "trim (?d @ [CHR 0x09]) = ?d"
  proof (cases ?d)
    case (Cons x xs)
    then have "\<not> is_space x" using show_base_no_special [of 10 x "unat c"] by simp
    then have "dropWhile is_space ?d = ?d" "dropWhile is_space (?d @ [CHR 0x09]) = ?d @ [CHR 0x09]" by (simp_all add: Cons)
    moreover have "is_space CHR 0x09" by (simp add: is_space_def)
    ultimately show ?thesis using show_nat_props(2) [of "unat c"] by (simp add: trim_def)
  qed simp
  moreover have "split_on CHR '','' (?d @ [CHR 0x09]) = [?d @ [CHR 0x09]]"
    using show_nat_props(1) [of "unat c"] by (intro split_on_no_sep) auto
  ultimately show ?thesis by (simp add: parse_chains_csv_def)
qed

section \<open>What the treasury sees\<close>

text \<open>The signature of an event, as its declaration gives it; its hash is the first topic of the log.\<close>

fun signature_of :: "receiver_event \<Rightarrow> string" where
  "signature_of (RoutePublished _ _ _ _ _ _ _) = ''RoutePublished(string,string,string,string,uint256,uint256,uint256)''"
| "signature_of (ActivationPublished _ _ _ _ _ _ _ _) =
     ''ActivationPublished(string,string,string,uint256,string,string,uint256,uint256)''"
| "signature_of (PublisherAdded _) = ''PublisherAdded(address)''"
| "signature_of (PublisherRemoved _) = ''PublisherRemoved(address)''"
| "signature_of (OwnershipTransferStarted _ _) = ''OwnershipTransferStarted(address,address)''"
| "signature_of (OwnershipTransferred _ _) = ''OwnershipTransferred(address,address)''"
| "signature_of (Paused _) = ''Paused(address)''"
| "signature_of (Unpaused _) = ''Unpaused(address)''"
| "signature_of (ChainDecommissioningMarked _) = ''ChainDecommissioningMarked(uint256)''"
| "signature_of (ChainDecommissionFinalized _) = ''ChainDecommissionFinalized(uint256)''"

text \<open>
  What a node promises for a query of logs by address and topic: it answers with logs the contract
  emitted, whose first topic is the one asked for.
\<close>

definition serves_receiver :: "env \<Rightarrow> Config \<Rightarrow> bool" where
  "serves_receiver E cfg \<longleftrightarrow> (\<forall>n url topic a b resp log.
     http_post E n url (get_logs_body (route_receiver_address cfg) (JStr topic) a b) = Inr resp \<longrightarrow>
     log \<in> set (logs_of_json (jindex resp ''result'')) \<longrightarrow>
     topics log \<noteq> [] \<and> hd (topics log) = topic \<and> (\<exists>ev. topic = event_topic E (signature_of ev)))"

lemma receiver_logs_empty:
  assumes "serves_receiver E cfg" "\<forall>ev. event_topic E (signature_of ev) \<noteq> topic"
  shows "fst (run_state (fetch_logs E u (route_receiver_address cfg) topic a b) s) = []"
proof (rule ccontr)
  assume "fst (run_state (fetch_logs E u (route_receiver_address cfg) topic a b) s) \<noteq> []"
  then obtain resp log where "http_post E (tick s) u (get_logs_body (route_receiver_address cfg) (JStr topic) a b) = Inr resp"
    "log \<in> set (logs_of_json (jindex resp ''result''))"
    by (auto simp: fetch_logs_def run_post split: sum.split_asm intro: list.set_intros) (metis last_in_set)
  then show False using assms unfolding serves_receiver_def by metis
qed

text \<open>The active set only loses chains, and only decommissioned ones.\<close>

definition only_retires :: "'m router_scheme \<Rightarrow> 'm router_scheme \<Rightarrow> bool" where
  "only_retires s t \<longleftrightarrow> active_chains t \<subseteq> active_chains s \<and> active_chains s \<subseteq> active_chains t \<union> decommissioned_chains t \<and>
     decommissioned_chains s \<subseteq> decommissioned_chains t"

interpretation retiring: step_preorder "only_retires :: 'm router_scheme \<Rightarrow> _"
  by unfold_locales (auto simp: only_retires_def)

lemma retires_kept:
  fixes m :: "('m router_scheme, 'a) state"
  assumes "keeps active_chains m" "keeps decommissioned_chains m"
  shows "step_rel only_retires m"
  using assms by (simp add: step_rel_def keeps_def only_retires_def)

lemma activations_skipped:
  fixes k :: "unit outcome \<Rightarrow> ('m router_scheme, 'a) state"
  assumes "serves_receiver E cfg" "\<forall>ev. event_topic E (signature_of ev) \<noteq> topic" "step_rel only_retires (k (Ret ()))"
  shows "step_rel only_retires (do {
    logs \<leftarrow> fetch_logs E u (route_receiver_address cfg) topic a b;
    r \<leftarrow> apply_activations logs;
    k r })"
  unfolding step_rel_def
proof
  fix s :: "'m router_scheme"
  obtain logs s1 where f: "run_state (fetch_logs E u (route_receiver_address cfg) topic a b) s = (logs, s1)" by fastforce
  then have "logs = []" using receiver_logs_empty [OF assms(1,2), of u a b s] by simp
  moreover have "only_retires s s1"
    using keepsD [OF fetch_keeps(2) [THEN keeps_beyond_sys [OF beyond_sys_router(1)]] f]
      keepsD [OF fetch_keeps(2) [THEN keeps_beyond_sys [OF beyond_sys_router(2)]] f] by (simp add: only_retires_def)
  moreover have "only_retires s1 (snd (run_state (k (Ret ())) s1))" using assms(3) by (simp add: step_rel_def)
  ultimately show "only_retires s (snd (run_state (do {
      logs \<leftarrow> fetch_logs E u (route_receiver_address cfg) topic a b;
      r \<leftarrow> apply_activations logs;
      k r }) s))"
    by (simp add: f) (rule retiring.trans)
qed

lemmas fetch_retires = retires_kept [OF fetch_keeps(1) [THEN keeps_beyond_sys [OF beyond_sys_router(2)]]
    fetch_keeps(1) [THEN keeps_beyond_sys [OF beyond_sys_router(1)]]]
  retires_kept [OF fetch_keeps(2) [THEN keeps_beyond_sys [OF beyond_sys_router(2)]]
    fetch_keeps(2) [THEN keeps_beyond_sys [OF beyond_sys_router(1)]]]

lemma route_round_retires:
  assumes "serves_receiver E cfg" "\<forall>ev. event_topic E (signature_of ev) \<noteq> activation_topic E"
  shows "step_rel only_retires (route_round E cfg clamp)"
proof -
  have d: "step_rel only_retires (apply_decommissions logs)" for logs
    by (auto simp: step_rel_def apply_decommissions_run only_retires_def)
  show ?thesis
    unfolding route_round_def Let_def
    by (cases "rpc_urls cfg")
      (auto intro!: retiring.rules fetch_retires activations_skipped [OF assms] d step_rel_modify simp: only_retires_def)
qed

lemma relay_event_keeps_active: "keeps active_chains (relay_event E cfg e)"
proof -
  have b: "beyond_signer (active_chains :: 'm hot_path_scheme \<Rightarrow> _)" for x :: 'm
    unfolding beyond_signer_def by (intro allI impI, case_tac s, case_tac t, simp)
  note signer = keeps_beyond_signer [OF b]
  have repo: "keeps active_chains (insert_relay_log E e tx st)" "keeps active_chains (update_relay_log E h t st)"
    "keeps active_chains (update_relay_log_failed E h)" for tx st h t
    by (simp_all add: keeps_def insert_relay_log_def update_relay_log_def update_relay_log_failed_def run_db tick_on_def)
  show ?thesis
    unfolding relay_event_def relay_unrecorded_def relay_decided_def relay_approved_def
    by (intro keeps repo relay_repo_keeps(2) [THEN signer] submit_release_keeps [THEN signer]
        fetch_keeps [THEN keeps_beyond_sys [OF beyond_sys_router(2)]])
      (auto intro!: keeps repo submit_release_keeps [THEN signer] split: RelayDecision.split)
qed

lemma hot_step_retires:
  assumes "serves_receiver E cfg" "\<forall>ev. event_topic E (signature_of ev) \<noteq> activation_topic E" "hot_step E cfg s t"
  shows "only_retires s t"
  using assms(3)
proof (cases rule: hot_step.cases)
  case (route r)
  from step_relD [OF route_round_retires [OF assms(1,2)] route] show ?thesis .
next
  case (poll entry r)
  have "keeps active_chains (poll_events_chain E entry)"
    unfolding poll_events_chain_def Let_def
    by (intro keeps keeps_modify fetch_keeps [THEN keeps_beyond_sys [OF beyond_sys_router(2)]]; simp)
  from step_relD [OF retires_kept [OF this poll_events_chain_keeps(2)] poll(2)] show ?thesis .
next
  case (relay xs e ys r)
  from step_relD [OF retires_kept [OF relay_event_keeps_active relay_event_keeps_decommissioned] relay(2)]
  show ?thesis by (simp add: only_retires_def)
next
  case (query h r)
  then show ?thesis by (auto simp: get_relay_status_def relay_repo_status_def run_db only_retires_def tick_on_def)
qed

text \<open>
  C19. The treasury never sees an activation: it asks for the topic of an event with seven parameters,
  while the event the contract emits has eight. With a node that answers log queries as asked (and
  a hash that does not confuse the signatures) no run of the hot path ever takes over a published
  activation state: a chain is active exactly when it was so at the start and has not been seen
  finalised as decommissioned since.
\<close>

theorem activations_never_seen:
  assumes "(hot_step E cfg)\<^sup>*\<^sup>* s t" "serves_receiver E cfg"
    "\<forall>ev. event_topic E (signature_of ev) = activation_topic E \<longrightarrow>
      signature_of ev = ''ActivationPublished(string,string,string,uint256,string,string,uint256)''"
  shows "is_chain_active t c \<longleftrightarrow> c \<in> active_chains s \<and> c \<notin> decommissioned_chains t"
proof -
  have "signature_of ev \<noteq> ''ActivationPublished(string,string,string,uint256,string,string,uint256)''" for ev
    by (cases ev) simp_all
  then have "\<forall>ev. event_topic E (signature_of ev) \<noteq> activation_topic E" using assms(3) by blast
  from assms(1) hot_step_retires [OF assms(2) this] have "only_retires s t" by (rule retiring.reachable)
  then show ?thesis by (auto simp: only_retires_def is_chain_active_def)
qed

section \<open>Concrete runs\<close>

definition sample_receiver :: receiver where
  "sample_receiver =
     \<lparr>rr_owner = replicate 20 1, rr_pendingOwner = address_zero, rr_paused = False, rr_publishers = (\<lambda>_. True),
      rr_latestRoutes = (\<lambda>_. \<lparr>rt_runId = [], rt_recommendedChain = [], rt_score = 0, rt_timestamp = 0\<rparr>),
      rr_publishedRouteRuns = (\<lambda>_. False), rr_publishedActivationRuns = (\<lambda>_. False), rr_draining = (\<lambda>_. False),
      rr_decommissioned = (\<lambda>_. False), rr_events = []\<rparr>"

definition sample_rmsg :: receiver_msg where
  "sample_rmsg = \<lparr>sender = replicate 20 1, chainid = 1, block_timestamp = 7\<rparr>"

theorem receiver_publishes_once_witness:
  "\<exists>t. receive sample_rmsg (PublishRoute ''run'' ''c'' ''base'' 5 6) sample_receiver = Inr t \<and> noted route_run t = [''run''] \<and>
     distinct (noted route_run t)"
proof -
  obtain t where t: "receive sample_rmsg (PublishRoute ''run'' ''c'' ''base'' 5 6) sample_receiver = Inr t" "noted route_run t = [''run'']"
    by (simp add: receiver_ops sample_receiver_def sample_rmsg_def noted_def)
  have "receiver_step sample_receiver t" using t(1) unfolding receiver_step_def by blast
  then have "receiver_step\<^sup>*\<^sup>* sample_receiver t" by blast
  moreover have "unused sample_receiver" by (simp add: unused_def sample_receiver_def)
  ultimately show ?thesis using receiver_publishes_once [of sample_receiver t t] t by blast
qed

theorem activation_names_no_finalized_chain_witness:
  "\<exists>t. publishActivationState sample_rmsg ''run'' ''c'' 9 ''1337,10'' '' 5 '' 6
      (sample_receiver\<lparr>rr_decommissioned := (\<lambda>c. c = 100)\<rparr>) = Inr t \<and> \<not> rr_decommissioned t (ucast (10 :: u64))"
proof -
  let ?s = "sample_receiver\<lparr>rr_decommissioned := (\<lambda>c. c = 100)\<rparr>"
  obtain t where t: "publishActivationState sample_rmsg ''run'' ''c'' 9 ''1337,10'' '' 5 '' 6 ?s = Inr t"
    by (simp add: receiver_ops sample_receiver_def sample_rmsg_def rejectDecommissionedChains_def is_digit_def)
  have "csv_of [1337, 10] = ''1337,10''" by code_simp
  then have "10 \<in> parse_chains_csv ''1337,10''" using parse_chains_csv_of [of "[1337, 10]"] by simp
  moreover have "\<forall>ch\<in>set ''1337,10''. plain ch" by (simp add: plain_def is_digit_def)
  ultimately show ?thesis using activation_names_no_finalized_chain [OF t, of "''1337,10''" 10] t by blast
qed

theorem activations_never_seen_witness:
  "\<exists>t. (hot_step (sample_env quantity_answer) sample_config)\<^sup>*\<^sup>* (hot_start {} []) t \<and>
     (is_chain_active t 2 \<longleftrightarrow> 2 \<notin> decommissioned_chains t)"
proof -
  let ?E = "sample_env quantity_answer" and ?t = "snd (run_state (route_round (sample_env quantity_answer) sample_config False) (hot_start {} []))"
  have "hot_step ?E sample_config (hot_start {} []) ?t" by (rule hot_step.route [OF surjective_pairing])
  then have run: "(hot_step ?E sample_config)\<^sup>*\<^sup>* (hot_start {} []) ?t" by blast
  have "serves_receiver ?E sample_config"
    by (auto simp: serves_receiver_def sample_env_def quantity_answer_def logs_of_json_def jindex_def)
  moreover have "event_topic ?E (signature_of ev) \<noteq> activation_topic ?E" for ev
  proof -
    have "length (signature_of ev) \<noteq> 71" "length (signature_of ev) < 100" by (cases ev; simp)+
    moreover from this(2) have "unat (of_nat (length (signature_of ev)) :: byte) = length (signature_of ev)" by (intro unat_byte) simp
    ultimately have n: "(of_nat (length (signature_of ev)) :: byte) \<noteq> 71" by auto
    show "event_topic ?E (signature_of ev) \<noteq> activation_topic ?E"
    proof
      assume "event_topic ?E (signature_of ev) = activation_topic ?E"
      then have "keccak256 ?E (bytes_of (signature_of ev)) =
          keccak256 ?E (bytes_of ''ActivationPublished(string,string,string,uint256,string,string,uint256)'')"
        unfolding event_topic_def activation_topic_def by (metis decode_hex_hex_0x option.inject)
      then show False using n by (simp add: sample_env_def bytes_of_def)
    qed
  qed
  ultimately have "is_chain_active ?t 2 \<longleftrightarrow> 2 \<in> active_chains (hot_start {} []) \<and> 2 \<notin> decommissioned_chains ?t"
    by (intro activations_never_seen [OF run]) blast+
  then show ?thesis using run by (auto simp: hot_start_def)
qed

end
