(* ===== verification/Spec2Isabelle.thy ===== *)
theory Spec2Isabelle
  imports Oversight RouteReceiver
begin

text \<open>
  A verification development of the two Rust services of the repository: the treasury
  (\<open>services/treasury\<close>), which moves money between the Bank contracts of several chains, and the user
  service (\<open>services/user-service\<close>), which keeps users, their passkey credentials and home chains; and of
  the two contracts the treasury works with, the Bank and the RouteReceiver (\<open>packages/onchain\<close>).

  \<^bold>\<open>The program.\<close> A user initiates a transfer on the Bank of one chain. The treasury's hot path
  (\<open>hot_path.rs\<close>) polls the \<open>HotPathInitiated\<close> events and submits \<open>releaseHotPath\<close> on the destination, if
  that chain is active and its pool deep enough; the watcher (\<open>watcher.rs\<close>) compares every
  \<open>HotPathReleased\<close> event with the initiation it saw and pauses the chain when they differ. The cold
  path (\<open>cold_path.rs\<close>) and the reserve path (\<open>reserve_path.rs\<close>) level the pools and the USDC reserves.
  The account indexer (\<open>account_index.rs\<close>) stores the events of all chains; the query services
  (\<open>account_balance.rs\<close>, \<open>account_withdrawal_routing.rs\<close>, \<open>account_activity.rs\<close>, \<open>pool_manager.rs\<close>) answer
  from it and from the chains. A chain is decommissioned by a drain (\<open>decommission.rs\<close>,
  \<open>decommission_runtime.rs\<close>, the handlers of \<open>server.rs\<close>) that moves its holders and their home chain in
  the user service. On the chains, the Bank (\<open>Bank.sol\<close>) takes deposits and transfers and executes the
  treasury's calls, and the RouteReceiver (\<open>RouteReceiver.sol\<close>) publishes which chains are active or
  decommissioned.

  \<^bold>\<open>How it is modelled.\<close> An operation is a step of the state monad over a record of its module's state;
  the records extend one another as the modules share code (\<open>sys\<close>, \<open>signer\<close>, \<open>router\<close>, then \<open>hot_path\<close>,
  \<open>cold_path\<close>, \<open>reserve_path\<close>, \<open>accounts\<close>, \<open>queries\<close>, \<open>drain\<close>; \<open>watcher\<close> extends \<open>signer\<close>). Everything outside the
  repository is a field of an environment record: \<open>env\<close> (nodes, database availability, clock, hash,
  signature, number parser, iteration order of hash maps), \<open>uenv\<close> (failing statements, concurrent handlers,
  uuids), \<open>user_service\<close> (the transport to the user service, whose handler is the modelled one), \<open>host\<close> and
  \<open>serde\<close> (files, curve arithmetic, JSON). Answers are indexed by the number of the interaction, so
  every answer may differ. A contract function goes from storage to storage or to a revert; inherited
  OpenZeppelin code, tokens and the bridge adapter are the parameters of the record \<open>external\<close>. Tables are lists of rows; a statement can fail. Errors are values of sum
  types, a panic is the value \<open>Panic\<close>. Machine integers keep their width.

  \<^bold>\<open>Theories.\<close>
  \<^item> \<open>Prelude\<close>, \<open>Numerals\<close>, \<open>Steps\<close>, \<open>Table\<close>: words, text, numbers as text, the state monad with the
    relations \<open>keeps\<close> and \<open>step_rel\<close> (locale \<open>step_preorder\<close>), keyed tables (locales \<open>keyed_table\<close>,
    \<open>mutable_table\<close>, interpreted on the row lists every repository uses).
  \<^item> \<open>Rebalance\<close> (\<open>domain/rebalance.rs\<close>), \<open>Domain\<close> (\<open>domain/*.rs\<close>), \<open>Encoding\<close> (\<open>eth/encoding.rs\<close>, \<open>domain/abi.rs\<close>,
    \<open>eth/tx.rs\<close>): the pure layer.
  \<^item> \<open>Rpc\<close> (\<open>eth/rpc.rs\<close>, \<open>error.rs\<close>), \<open>Signer\<close> (nonce, signing, sending, retry), \<open>Effects\<close> (which requests a
    step may send, \<open>emits\<close>; the locale \<open>once_store\<close> of the two idempotency guards), \<open>Route\<close> (the loop over
    the RouteReceiver that three modules have).
  \<^item> \<open>HotPath\<close>, \<open>Watcher\<close>, \<open>Planner\<close> (locale \<open>planning\<close>, interpreted for both planners), \<open>ColdPath\<close>, \<open>ReservePath\<close>,
    \<open>ReserveLifecycle\<close> (the interleaving of the reserve path's four tasks).
  \<^item> \<open>UserDb\<close>, \<open>UserInvariant\<close>, \<open>UserService\<close>: the user service, its tables, its handlers.
  \<^item> \<open>AccountStore\<close>, \<open>AccountIndex\<close>, \<open>AccountQueries\<close>: the event store, the indexer, the read side and the
    health check.
  \<^item> \<open>Decommission\<close> (orchestrator, runtime, repository, handlers, spawned drains) and \<open>DrainSafety\<close>.
  \<^item> \<open>Startup\<close>: configuration, keys, constructors, \<open>main\<close>, restarts.
  \<^item> \<open>RelayTasks\<close>, \<open>RelayOnce\<close>: the relay tasks of the hot path split into phases and interleaved, within one
    process (\<open>process_step\<close>) and across restarts (\<open>async_step\<close>).
  \<^item> \<open>Bank\<close>, \<open>BankSafety\<close> and \<open>RouteReceiver\<close>: the two contracts and their runs (locale \<open>flag_guard\<close>,
    interpreted for the three idempotency maps of the Bank and the three of the RouteReceiver).
  \<^item> \<open>Settlement\<close>: a transfer through the source Bank, the relayer, the destination Bank and the watcher, and
    repeated submissions. \<open>Oversight\<close>: runs of the watcher, and a transfer released on two chains. This
    theory: two transfers of one transaction.

  \<^bold>\<open>What is shown.\<close> Money moves only as it should: what a relay, a pause, a rebalancing cycle, a
  reserve relay and a drain may send, to which contract, with which arguments and how often. Nothing
  happens twice while the databases answer: a relay task that finds its event recorded ends, restarts and
  interleaved tasks included, an operation of the reserve path is relayed at most once, an event is
  indexed once, one drain runs at a time; and whatever the services do, a Bank pays a transfer once,
  however often its release is submitted. The guards of the services fail open, so in a database outage a
  recorded event, release or holder counts as new; each theorem that needs the database says so. The user
  service keeps its tables well-formed under concurrent handlers and refines an abstract directory
  from addresses to users. Plans and splits end and are optimal; encodings are canonical and read
  back; queries answer what the tables and nodes say, one reading per configured chain. A chain that was
  seen finalised gets no further release from a process whose tasks had not yet found it active. Some properties state behaviour that is not intended: a
  failed log query skips blocks, a restarted watcher pauses honest releases, a drain is always
  reported complete, a completion can be overwritten, a first deposit can go unreported, of
  two transfers of one transaction a later second task is dropped, overlapping tasks relay one hash twice and
  share a nonce, published activation states are never received, a transfer released again on
  another chain is not checked.

  \<^bold>\<open>Loops and bounds.\<close> The planning loop may not end (cap zero); it is a
  \<^theory_text>\<open>partial_function (option)\<close>, \<open>None\<close> is divergence, and the theorems prove the result for every
  other cap. The receipt loop ends at its deadline, since each turn sleeps 500 ms (its measure).
  Retries are three attempts, as in the code. The endless background loops are modelled by their
  round, and by step relations where rounds and tasks interleave (\<open>hot_step\<close>, \<open>hot_life\<close>, \<open>async_step\<close>,
  \<open>process_step\<close>, \<open>watch_step\<close>, \<open>reserve_step\<close>, \<open>drain_step\<close>, \<open>bank_step\<close>). A relay task has at most twenty phases (its
  measure \<open>rank\<close>). No fuel is used.

  \<^bold>\<open>Atomicity.\<close> In the user service other handlers run before every statement. A relay task of the hot
  path is split at its awaits (\<open>task_step\<close>, shown to be \<open>relay_event\<close> when nothing interrupts it), the relayer
  of the reserve path at the point where it waits for its receipt. Statements about what
  the relayer does twice, to a finalised chain or to a second transfer of one transaction are proved on
  these phases. Elsewhere in the treasury a step of a step relation is a task or a round (a verification
  of the watcher, a planner or watcher cycle of the reserve path, a drain). A transaction on a chain is one step.

  \<^bold>\<open>Not modelled.\<close> Logging and metrics; the code generated from the protocol files and the forwarding
  handlers of \<open>server.rs\<close>; the bootstrap of the user service, connection pools and migrations (calls into
  \<open>sqlx\<close> and \<open>tonic\<close>); trait declarations, which their implementations cover; the HTTP, gRPC and JSON
  libraries (parameters); the token and the two bridge adapters (\<open>SyncUSD.sol\<close>, \<open>CCTPReserveBridge.sol\<close>,
  \<open>TempoReserveBridge.sol\<close>), whose substance is OpenZeppelin's ERC-20 and the contracts of Circle and Tempo,
  none of which is in the repository; the web client, the BFF and the CRE workflows, which are not
  part of the Rust services.
\<close>

section \<open>Two transfers of one transaction\<close>

lemma parse_hot_path_event_key: "parse_hot_path_event log c = Some e \<Longrightarrow> he_source_event_hash e = transaction_hash log"
  by (auto simp: parse_hot_path_event_def split: if_splits option.splits)

lemma decision_recorded:
  assumes "run_state (task_step E cfg e (Deciding u b active depth)) s = (q, s')" "db_up E (tick s)"
  shows "find_relay s' (he_source_event_hash e) \<noteq> None"
  using assms
  by (auto simp: insert_relay_log_def run_db find_relay_def find_row_insert_row relay_row_def
      split: RelayDecision.split_asm option.split)

text \<open>
  C40. The relayer keys an event by the hash of its transaction, not by the event hash of the Bank: when
  one transaction initiates two transfers, and the task of the first has taken its decision (whatever
  it is) with a database that stored it, then the task of the second, if it comes to its idempotency
  check after that and the database answers it, ends there: one query, no release, whatever its
  recipient, amount and destination. This holds in every later state, after any interleaving of tasks,
  pollers and restarts. (Not covered: a second task already past its check when the first decides, and a
  check the database does not answer; both go on.)
\<close>

theorem second_event_of_transaction_dropped:
  assumes "parse_hot_path_event log1 c1 = Some e1" "parse_hot_path_event log2 c2 = Some e2"
    "transaction_hash log1 = transaction_hash log2"
    "run_state (task_step E (Config.truncate cfg) e1 (Deciding u b active depth)) s = (q, s')" "db_up E (tick s)"
    "(async_step H E cfg)\<^sup>*\<^sup>* (s'\<lparr>running := tasks, relayed := events\<rparr>) t" "db_up E (tick t)"
  shows "run_state (task_step E (Config.truncate cfg) e2 Guard) t = (None, tick_on E 0 t)"
proof -
  have "he_source_event_hash e2 = he_source_event_hash e1"
    using assms(1-3) by (simp add: parse_hot_path_event_key)
  moreover have "find_relay (s'\<lparr>running := tasks, relayed := events\<rparr>) (he_source_event_hash e1) \<noteq> None"
    using decision_recorded [OF assms(4,5)] by (simp add: find_relay_def)
  ultimately show ?thesis using recorded_for_ever [OF assms(6)] guard_ends [OF _ assms(7)] by metis
qed

definition sample_transfer :: "byte \<Rightarrow> u256 \<Rightarrow> RpcLog" where
  "sample_transfer k amount = initiated_log ''t'' ''0xaa'' (replicate 20 1) (replicate 20 3) amount 2 (replicate 32 k) 9"

lemma sample_transfer_event:
  "parse_hot_path_event (sample_transfer k amount) 1 = Some
     \<lparr>he_source_chain_id = 1, he_source_event_hash = ''0xaa'', he_sender = hex_0x (replicate 20 1),
      he_recipient = replicate 20 3, he_amount = amount, he_dest_chain_id = 2, he_event_id = replicate 32 k\<rparr>"
  by (simp add: sample_transfer_def parse_hot_path_event_def initiated_log_def slice_skip)

theorem second_event_of_transaction_dropped_witness:
  "\<exists>e1 e2 t. parse_hot_path_event (sample_transfer 7 500) 1 = Some e1 \<and> parse_hot_path_event (sample_transfer 8 900) 1 = Some e2 \<and>
     e1 \<noteq> e2 \<and> (async_step sample_host (sample_env sample_answer) sample_boot)\<^sup>*\<^sup>*
       (sample_tasks [] [(e1, Deciding ''b'' (hex_0x (replicate 20 2)) True 1000), (e2, Guard)]) t \<and>
     (e2, Guard) \<in> set (running t) \<and> relayed t = [e1] \<and>
     run_state (task_step (sample_env sample_answer) (Config.truncate sample_boot) e2 Guard) t = (None, tick_on (sample_env sample_answer) 0 t)"
proof -
  let ?E = "sample_env sample_answer" and ?u = "''b''" and ?b = "hex_0x (replicate 20 2)"
  obtain e1 e2 where e: "parse_hot_path_event (sample_transfer 7 500) 1 = Some e1"
    "parse_hot_path_event (sample_transfer 8 900) 1 = Some e2" "e1 \<noteq> e2" "he_amount e1 = 500"
    by (simp add: sample_transfer_event)
  define s where "s = sample_tasks [] [(e1, Deciding ?u ?b True 1000), (e2, Guard)]"
  have at: "running s = [] @ (e1, Deciding ?u ?b True 1000) # [(e2, Guard)]" by (simp add: s_def)
  have "evaluate_relay_eligibility True 1000 (he_amount e1) = Approved" by (simp add: e(4) evaluate_relay_eligibility_def)
  then obtain s' where run: "run_state (task_step ?E (Config.truncate sample_boot) e1 (Deciding ?u ?b True 1000)) s = (Some (Starting ?u ?b), s')"
    by (simp add: split_beta)
  let ?t = "s'\<lparr>running := [(e1, Starting ?u ?b), (e2, Guard)], relayed := [e1]\<rparr>"
  have "async_step sample_host ?E sample_boot s ?t"
    using async_advance [OF at run, of sample_host] by (simp add: next_tasks_def newly_relayed_def s_def)
  moreover have "run_state (task_step ?E (Config.truncate sample_boot) e2 Guard) ?t = (None, tick_on ?E 0 ?t)"
    by (rule second_event_of_transaction_dropped [OF e(1,2) _ run _ rtranclp.rtrancl_refl])
      (simp_all add: sample_transfer_def initiated_log_def sample_db_always)
  ultimately show ?thesis using e(1-3) unfolding s_def
    by (intro exI [of _ e1] exI [of _ e2] exI [of _ ?t]) auto
qed

end
